(* ===== verification/Prelude.thy ===== *)
theory Prelude
  imports Complex_Main
begin

text \<open>
  Shared vocabulary of the development: the effect type that every stateful operation of
  the model has (state passing with exceptions, where the state written before an
  exception stays written), its Hoare rules, the table operations of the relational
  store, and string helpers that follow the JavaScript string methods the source calls.

  \<^item> \<open>eff_defs\<close>: the definitions of the effect combinators, to execute an operation.
  \<^item> \<open>hoare_rules\<close>: the rules that take a triple apart along the operation's text.
  \<^item> \<open>table_simps\<close>: what lookups return after an insertion or an update.
\<close>

named_theorems eff_defs
named_theorems hoare_rules
named_theorems table_simps

section \<open>Names for the model's basic types\<close>

text \<open>Milliseconds since the epoch, as \<open>Date.now()\<close> returns them.\<close>

type_synonym millis = int

text \<open>
  \<open>Prisma.Decimal\<close>: an exact decimal number. Comparison and equality are exact, so the
  model uses the rational number it denotes.
\<close>

type_synonym decimal = rat

type_synonym ident = string

text \<open>A primitive JSON value, as merchant metadata holds them.\<close>

datatype json_scalar = JString string | JNumber rat | JBool bool | JNull

text \<open>The JSON values the server itself builds: payloads of webhook events, audit metadata.\<close>

datatype json = JObj "(string \<times> json) list" | JArr "json list" | JStr string | JInt int | JNil

section \<open>Operations that read and write a state and may throw\<close>

type_synonym ('s, 'e, 'a) eff = "'s \<Rightarrow> ('e + 'a) \<times> 's"

definition ret :: "'a \<Rightarrow> ('s, 'e, 'a) eff" where
  [eff_defs]: "ret x = (\<lambda>s. (Inr x, s))"

definition throw :: "'e \<Rightarrow> ('s, 'e, 'a) eff" where
  [eff_defs]: "throw e = (\<lambda>s. (Inl e, s))"

definition seq :: "('s, 'e, 'a) eff \<Rightarrow> ('a \<Rightarrow> ('s, 'e, 'b) eff) \<Rightarrow> ('s, 'e, 'b) eff" where
  [eff_defs]: "seq m f =
     (\<lambda>s. case m s of (Inl e, t) \<Rightarrow> (Inl e, t) | (Inr x, t) \<Rightarrow> f x t)"

text \<open>\<open>try { m } catch (e) { h(e) }\<close>: what \<open>m\<close> wrote before it threw stays written.\<close>

definition attempt :: "('s, 'e, 'a) eff \<Rightarrow> ('e \<Rightarrow> ('s, 'e, 'a) eff) \<Rightarrow> ('s, 'e, 'a) eff" where
  [eff_defs]: "attempt m h =
     (\<lambda>s. case m s of (Inl e, t) \<Rightarrow> h e t | (Inr x, t) \<Rightarrow> (Inr x, t))"

text \<open>\<open>try { m } finally { f }\<close>: \<open>f\<close> runs on both ways out.\<close>

definition ensuring :: "('s, 'e, 'a) eff \<Rightarrow> ('s \<Rightarrow> 's) \<Rightarrow> ('s, 'e, 'a) eff" where
  [eff_defs]: "ensuring m f = (\<lambda>s. case m s of (r, t) \<Rightarrow> (r, f t))"

definition reads :: "('s \<Rightarrow> 'a) \<Rightarrow> ('s, 'e, 'a) eff" where
  [eff_defs]: "reads f = (\<lambda>s. (Inr (f s), s))"

definition modify :: "('s \<Rightarrow> 's) \<Rightarrow> ('s, 'e, unit) eff" where
  [eff_defs]: "modify f = (\<lambda>s. (Inr (), f s))"

text \<open>A pure computation that may throw, inside an operation.\<close>

definition lift :: "'e + 'a \<Rightarrow> ('s, 'e, 'a) eff" where
  [eff_defs]: "lift r = (\<lambda>s. (r, s))"

text \<open>\<open>for (const x of xs) { await f(x) }\<close>: the first exception leaves the loop.\<close>

fun for_each :: "('a \<Rightarrow> ('s, 'e, unit) eff) \<Rightarrow> 'a list \<Rightarrow> ('s, 'e, unit) eff" where
  "for_each f [] = ret ()"
| "for_each f (x # xs) = seq (f x) (\<lambda>_. for_each f xs)"

text \<open>
  \<open>prisma.$transaction([...])\<close>: the operations run in order, and when one of them
  throws, everything is rolled back.
\<close>

definition transaction :: "('s, 'e, unit) eff list \<Rightarrow> ('s, 'e, unit) eff" where
  "transaction ops =
     (\<lambda>s. case for_each (\<lambda>m. m) ops s of
            (Inl e, t) \<Rightarrow> (Inl e, s)
          | (Inr x, t) \<Rightarrow> (Inr (), t))"

lemma seq_ret [simp]: "seq (ret x) f = f x"
  by (simp add: eff_defs)

lemma seq_throw [simp]: "seq (throw e) f = throw e"
  by (simp add: eff_defs)

lemma seq_reads: "seq (reads g) f s = f (g s) s"
  by (simp add: eff_defs)

lemma seq_lift_Inr [simp]: "seq (lift (Inr x)) f = f x"
  by (simp add: eff_defs)

lemma seq_lift_Inl [simp]: "seq (lift (Inl e)) f = throw e"
  by (simp add: eff_defs)

lemma seq_Inl: "m s = (Inl e, t) \<Longrightarrow> seq m f s = (Inl e, t)"
  by (simp add: eff_defs)

lemma seq_Inr: "m s = (Inr x, t) \<Longrightarrow> seq m f s = f x t"
  by (simp add: eff_defs)

lemma seq_eq_Inr:
  "seq m f s = (Inr y, u) \<longleftrightarrow> (\<exists>x t. m s = (Inr x, t) \<and> f x t = (Inr y, u))"
  by (auto simp: seq_def split: prod.splits sum.splits)

lemma for_each_append:
  "for_each f (xs @ ys) = seq (for_each f xs) (\<lambda>_. for_each f ys)"
proof (induction xs)
  case Nil
  then show ?case by simp
next
  case (Cons x xs)
  then show ?case
    by (auto simp: fun_eq_iff seq_def split: prod.splits sum.splits)
qed

text \<open>A loop whose body does nothing at each element does nothing.\<close>

lemma for_each_idle:
  "(\<And>x. x \<in> set xs \<Longrightarrow> f x s = (Inr (), s)) \<Longrightarrow> for_each f xs s = (Inr (), s)"
  by (induction xs) (simp_all add: eff_defs)

lemma transaction_Inl_state:
  "transaction ops s = (Inl e, t) \<Longrightarrow> t = s"
  by (auto simp: transaction_def split: prod.splits sum.splits)

lemma transaction_eq_Inr:
  "transaction ops s = (Inr (), t) \<longleftrightarrow> for_each (\<lambda>m. m) ops s = (Inr (), t)"
  by (auto simp: transaction_def split: prod.splits sum.splits)

subsection \<open>Hoare triples with an exceptional postcondition\<close>

definition hoare :: "('s \<Rightarrow> bool) \<Rightarrow> ('s, 'e, 'a) eff \<Rightarrow>
    ('a \<Rightarrow> 's \<Rightarrow> bool) \<Rightarrow> ('e \<Rightarrow> 's \<Rightarrow> bool) \<Rightarrow> bool" where
  "hoare P m Q E \<longleftrightarrow>
     (\<forall>s. P s \<longrightarrow> (case m s of (Inl e, t) \<Rightarrow> E e t | (Inr x, t) \<Rightarrow> Q x t))"

text \<open>An invariant kept on every path, the exceptional ones included.\<close>

definition keeps :: "('s \<Rightarrow> bool) \<Rightarrow> ('s, 'e, 'a) eff \<Rightarrow> bool" where
  "keeps P m \<longleftrightarrow> (\<forall>s. P s \<longrightarrow> P (snd (m s)))"

lemma keeps_hoare: "keeps P m \<longleftrightarrow> hoare P m (\<lambda>_. P) (\<lambda>_. P)"
  unfolding keeps_def hoare_def
  by (intro iff_allI imp_cong refl) (simp add: split_beta split: sum.splits)

lemma hoareI:
  assumes "\<And>s x t. P s \<Longrightarrow> m s = (Inr x, t) \<Longrightarrow> Q x t"
    and "\<And>s e t. P s \<Longrightarrow> m s = (Inl e, t) \<Longrightarrow> E e t"
  shows "hoare P m Q E"
  using assms by (auto simp: hoare_def split: prod.splits sum.splits)

lemma hoare_Inr: "hoare P m Q E \<Longrightarrow> P s \<Longrightarrow> m s = (Inr x, t) \<Longrightarrow> Q x t"
  by (auto simp: hoare_def split: prod.splits sum.splits)

lemma hoare_Inl: "hoare P m Q E \<Longrightarrow> P s \<Longrightarrow> m s = (Inl e, t) \<Longrightarrow> E e t"
  by (auto simp: hoare_def split: prod.splits sum.splits)

lemma hoare_weaken:
  "hoare P' m Q' E' \<Longrightarrow> (\<And>s. P s \<Longrightarrow> P' s) \<Longrightarrow> (\<And>x s. Q' x s \<Longrightarrow> Q x s) \<Longrightarrow>
   (\<And>e s. E' e s \<Longrightarrow> E e s) \<Longrightarrow> hoare P m Q E"
  by (fastforce simp: hoare_def split: prod.splits sum.splits)

lemma hoare_ret [hoare_rules]: "(\<And>s. P s \<Longrightarrow> Q x s) \<Longrightarrow> hoare P (ret x) Q E"
  by (simp add: hoare_def ret_def)

lemma hoare_throw [hoare_rules]: "(\<And>s. P s \<Longrightarrow> E e s) \<Longrightarrow> hoare P (throw e) Q E"
  by (simp add: hoare_def throw_def)

lemma hoare_seq:
  "hoare P m R E \<Longrightarrow> (\<And>x. hoare (R x) (f x) Q E) \<Longrightarrow> hoare P (seq m f) Q E"
  by (fastforce simp: hoare_def seq_def split: prod.splits sum.splits)

lemma hoare_reads [hoare_rules]:
  "(\<And>x. hoare (\<lambda>s. P s \<and> x = g s) (f x) Q E) \<Longrightarrow> hoare P (seq (reads g) f) Q E"
  by (fastforce simp: hoare_def seq_def reads_def)

lemma hoare_lift [hoare_rules]:
  "(\<And>x. r = Inr x \<Longrightarrow> hoare P (f x) Q E) \<Longrightarrow>
   (\<And>e s. r = Inl e \<Longrightarrow> P s \<Longrightarrow> E e s) \<Longrightarrow> hoare P (seq (lift r) f) Q E"
  by (cases r) (auto simp: hoare_throw)

lemma hoare_if [hoare_rules]:
  "(b \<Longrightarrow> hoare P m Q E) \<Longrightarrow> (\<not> b \<Longrightarrow> hoare P n Q E) \<Longrightarrow> hoare P (if b then m else n) Q E"
  by simp

lemma hoare_for_each:
  assumes "\<And>x xs. hoare (I (x # xs)) (f x) (\<lambda>_. I xs) E"
  shows "hoare (I xs) (for_each f xs) (\<lambda>_. I []) E"
proof (induction xs)
  case Nil
  show ?case by (simp add: hoare_ret)
next
  case (Cons x xs)
  then show ?case using assms by (auto intro: hoare_seq)
qed

lemma keeps_ret [hoare_rules]: "keeps P (ret x)"
  by (simp add: keeps_def ret_def)

lemma keeps_throw [hoare_rules]: "keeps P (throw e)"
  by (simp add: keeps_def throw_def)

lemma keeps_reads [hoare_rules]: "keeps P (reads f)"
  by (simp add: keeps_def reads_def)

lemma keeps_lift [hoare_rules]: "keeps P (lift r)"
  by (simp add: keeps_def lift_def)

lemma keeps_seq [hoare_rules]:
  "keeps P m \<Longrightarrow> (\<And>x. keeps P (f x)) \<Longrightarrow> keeps P (seq m f)"
  by (fastforce simp: keeps_def seq_def split: prod.splits sum.splits)

lemma keeps_attempt [hoare_rules]:
  "keeps P m \<Longrightarrow> (\<And>e. keeps P (h e)) \<Longrightarrow> keeps P (attempt m h)"
  by (fastforce simp: keeps_def attempt_def split: prod.splits sum.splits)

lemma keeps_if [hoare_rules]:
  "keeps P m \<Longrightarrow> keeps P n \<Longrightarrow> keeps P (if b then m else n)"
  by simp

lemma keeps_for_each [hoare_rules]:
  "(\<And>x. x \<in> set xs \<Longrightarrow> keeps P (f x)) \<Longrightarrow> keeps P (for_each f xs)"
  by (induction xs) (auto intro: keeps_ret keeps_seq)

lemma keeps_transaction:
  "(\<And>m. m \<in> set ops \<Longrightarrow> keeps P m) \<Longrightarrow> keeps P (transaction ops)"
proof -
  assume "\<And>m. m \<in> set ops \<Longrightarrow> keeps P m"
  then have "keeps P (for_each (\<lambda>m. m) ops)" by (rule keeps_for_each)
  then show ?thesis
    by (fastforce simp: keeps_def transaction_def split: prod.splits sum.splits)
qed

section \<open>Rows of a table\<close>

text \<open>
  A table is the list of its rows, in the order a scan returns them. A row is found by the
  first match; an update rewrites every row that satisfies the condition.
\<close>

definition update_rows :: "('r \<Rightarrow> bool) \<Rightarrow> ('r \<Rightarrow> 'r) \<Rightarrow> 'r list \<Rightarrow> 'r list" where
  "update_rows p f t = map (\<lambda>r. if p r then f r else r) t"

lemma length_update_rows [table_simps]: "length (update_rows p f t) = length t"
  by (simp add: update_rows_def)

lemma update_rows_append [table_simps]:
  "update_rows p f (t @ u) = update_rows p f t @ update_rows p f u"
  by (simp add: update_rows_def)

lemma update_rows_idle [table_simps]:
  "(\<And>r. r \<in> set t \<Longrightarrow> \<not> p r) \<Longrightarrow> update_rows p f t = t"
  by (simp add: update_rows_def map_idI)

lemma set_update_rows:
  "set (update_rows p f t) = {if p r then f r else r | r. r \<in> set t}"
  by (auto simp: update_rows_def)

lemma map_update_rows [table_simps]:
  "(\<And>r. p r \<Longrightarrow> g (f r) = g r) \<Longrightarrow> map g (update_rows p f t) = map g t"
  by (simp add: update_rows_def)

lemma find_append:
  "find p (t @ u) = (case find p t of None \<Rightarrow> find p u | Some r \<Rightarrow> Some r)"
  by (induction t) auto

lemma find_update_rows:
  "(\<And>r. p r \<Longrightarrow> q (f r) = q r) \<Longrightarrow>
   find q (update_rows p f t) = map_option (\<lambda>r. if p r then f r else r) (find q t)"
  by (induction t) (auto simp: update_rows_def)

lemma find_SomeD: "find p t = Some r \<Longrightarrow> r \<in> set t \<and> p r"
  by (induction t) (auto split: if_splits)

lemma find_None_iff_all: "find p t = None \<longleftrightarrow> (\<forall>r \<in> set t. \<not> p r)"
  by (induction t) auto

lemma find_unique:
  assumes "r \<in> set t" and "p r" and "\<And>r'. r' \<in> set t \<Longrightarrow> p r' \<Longrightarrow> r' = r"
  shows "find p t = Some r"
proof (cases "find p t")
  case None
  with assms(1,2) show ?thesis by (auto simp: find_None_iff_all)
next
  case (Some r')
  with assms(3) [of r'] show ?thesis using find_SomeD [OF Some] by simp
qed

lemma find_key:
  assumes "distinct (map key t)" and "r \<in> set t"
  shows "find (\<lambda>x. key x = key r) t = Some r"
  using assms by (intro find_unique) (auto simp: distinct_map inj_on_def)

lemma distinct_key_eq:
  "distinct (map key t) \<Longrightarrow> r \<in> set t \<Longrightarrow> r' \<in> set t \<Longrightarrow> key r = key r' \<Longrightarrow> r = r'"
  by (auto simp: distinct_map inj_on_def)

section \<open>Strings\<close>

text \<open>
  The model's strings are ASCII. \<open>String.prototype.toLowerCase\<close>, \<open>trim\<close>,
  \<open>startsWith\<close> and \<open>slice\<close> on such strings.
\<close>

definition to_lower_char :: "char \<Rightarrow> char" where
  "to_lower_char c =
     (let n = (of_char c :: nat) in if 65 \<le> n \<and> n \<le> 90 then char_of (n + 32) else c)"

definition to_lower :: "string \<Rightarrow> string" where
  "to_lower s = map to_lower_char s"

definition is_space :: "char \<Rightarrow> bool" where
  "is_space c = (let n = (of_char c :: nat) in n = 32 \<or> (9 \<le> n \<and> n \<le> 13))"

definition trim :: "string \<Rightarrow> string" where
  "trim s = rev (dropWhile is_space (rev (dropWhile is_space s)))"

definition starts_with :: "string \<Rightarrow> string \<Rightarrow> bool" where
  "starts_with s p = (take (length p) s = p)"

lemma starts_with_append [simp]: "starts_with (p @ s) p"
  by (simp add: starts_with_def)

lemma length_to_lower [simp]: "length (to_lower s) = length s"
  by (simp add: to_lower_def)

lemma to_lower_char_idem [simp]: "to_lower_char (to_lower_char c) = to_lower_char c"
  by (auto simp: to_lower_char_def Let_def)

lemma to_lower_idem [simp]: "to_lower (to_lower s) = to_lower s"
  by (simp add: to_lower_def)

definition is_digit :: "char \<Rightarrow> bool" where
  "is_digit c = (let n = (of_char c :: nat) in 48 \<le> n \<and> n \<le> 57)"

definition digit_value :: "char \<Rightarrow> nat" where
  "digit_value c = (of_char c :: nat) - 48"

text \<open>The number a string of decimal digits denotes.\<close>

fun digits_value :: "nat \<Rightarrow> string \<Rightarrow> nat" where
  "digits_value acc [] = acc"
| "digits_value acc (c # s) = digits_value (10 * acc + digit_value c) s"

definition is_alpha :: "char \<Rightarrow> bool" where
  "is_alpha c = (let n = (of_char c :: nat) in (65 \<le> n \<and> n \<le> 90) \<or> (97 \<le> n \<and> n \<le> 122))"

text \<open>\<open>Buffer.toString('hex')\<close>: two lower-case digits a byte.\<close>

definition hex_digit :: "nat \<Rightarrow> char" where
  "hex_digit n = ''0123456789abcdef'' ! (n mod 16)"

definition hex_encode :: "nat list \<Rightarrow> string" where
  "hex_encode bytes = concat (map (\<lambda>b. [hex_digit (b div 16), hex_digit b]) bytes)"

lemma length_hex_encode [simp]: "length (hex_encode bytes) = 2 * length bytes"
  by (induction bytes) (simp_all add: hex_encode_def)

end
