(* ===== verification/App_Errors.thy ===== *)
theory App_Errors
  imports Prelude
begin

text \<open>
  Errors: \<open>packages/shared/src/errors\<close> (the \<open>AppError\<close> hierarchy and its wire
  format) and the API's exception filter
  (\<open>apps/api/src/common/errors/app-exception.filter.ts\<close>). Every exception of the model
  is a value of \<open>thrown\<close>: an \<open>AppError\<close>, an error of the database client, or any
  other thrown value with the message it carries.
\<close>

section \<open>The AppError hierarchy\<close>

datatype error_class =
    ValidationError | UnauthorizedError | ForbiddenError | NotFoundError | ConflictError
  | RateLimitedError | InternalError | InvalidStateTransitionError | PlainAppError

text \<open>The two shapes of \<open>details\<close> the source attaches to an error.\<close>

datatype details =
    Transition string string
  | FieldIssues "(string \<times> string) list"

record app_error =
  ae_class :: error_class
  ae_code :: string
  ae_message :: string
  ae_httpStatus :: int
  ae_details :: "details option"
  ae_cause :: "string option"

datatype db_error =
    UniqueViolation
  | RecordNotFound
  | InconsistentRelation

datatype thrown =
    AppThrown app_error
  | DbThrown db_error
  | OtherThrown string

definition mk_error :: "error_class \<Rightarrow> string \<Rightarrow> string \<Rightarrow> int \<Rightarrow> details option \<Rightarrow> string option \<Rightarrow> app_error" where
  "mk_error cls code message httpStatus dets cause =
     \<lparr>ae_class = cls, ae_code = code, ae_message = message, ae_httpStatus = httpStatus,
      ae_details = dets, ae_cause = cause\<rparr>"

definition validation_error :: "string \<Rightarrow> details option \<Rightarrow> app_error" where
  "validation_error message dets = mk_error ValidationError ''validation_error'' message 400 dets None"

definition unauthorized_error :: "string \<Rightarrow> app_error" where
  "unauthorized_error message = mk_error UnauthorizedError ''unauthorized'' message 401 None None"

definition forbidden_error :: "string \<Rightarrow> app_error" where
  "forbidden_error message = mk_error ForbiddenError ''forbidden'' message 403 None None"

definition not_found_error :: "string \<Rightarrow> app_error" where
  "not_found_error message = mk_error NotFoundError ''not_found'' message 404 None None"

definition conflict_error :: "string \<Rightarrow> app_error" where
  "conflict_error message = mk_error ConflictError ''conflict'' message 409 None None"

definition rate_limited_error :: "string \<Rightarrow> app_error" where
  "rate_limited_error message = mk_error RateLimitedError ''rate_limited'' message 429 None None"

definition internal_error :: "string \<Rightarrow> string option \<Rightarrow> app_error" where
  "internal_error message cause = mk_error InternalError ''internal_error'' message 500 None cause"

definition invalid_state_transition_error :: "string \<Rightarrow> details option \<Rightarrow> app_error" where
  "invalid_state_transition_error message dets =
     mk_error InvalidStateTransitionError ''invalid_state_transition'' message 409 dets None"

lemmas error_defs = mk_error_def validation_error_def unauthorized_error_def
  forbidden_error_def not_found_error_def conflict_error_def rate_limited_error_def
  internal_error_def invalid_state_transition_error_def

text \<open>\<open>error instanceof NotFoundError\<close>, the check the confirmation loops make.\<close>

definition is_NotFoundError :: "thrown \<Rightarrow> bool" where
  "is_NotFoundError e = (case e of AppThrown a \<Rightarrow> ae_class a = NotFoundError | _ \<Rightarrow> False)"

fun isAppError :: "thrown \<Rightarrow> bool" where
  "isAppError (AppThrown _) = True"
| "isAppError _ = False"

text \<open>What an unexpected exception says of itself; it is kept as the wrapped error's cause.\<close>

fun thrown_message :: "thrown \<Rightarrow> string" where
  "thrown_message (AppThrown a) = ae_message a"
| "thrown_message (DbThrown UniqueViolation) = ''Unique constraint failed''"
| "thrown_message (DbThrown RecordNotFound) = ''Record to update not found''"
| "thrown_message (DbThrown InconsistentRelation) = ''Inconsistent query result''"
| "thrown_message (OtherThrown m) = m"

fun toAppError :: "thrown \<Rightarrow> app_error" where
  "toAppError (AppThrown a) = a"
| "toAppError e = internal_error ''An unexpected error occurred'' (Some (thrown_message e))"

section \<open>The wire format\<close>

record api_error_response =
  er_code :: string
  er_message :: string
  er_request_id :: string
  er_details :: "details option"

definition toApiErrorResponse :: "app_error \<Rightarrow> string \<Rightarrow> api_error_response" where
  "toApiErrorResponse e requestId =
     \<lparr>er_code = ae_code e, er_message = ae_message e, er_request_id = requestId,
      er_details = ae_details e\<rparr>"

section \<open>The exception filter\<close>

text \<open>
  A NestJS \<open>HttpException\<close>: its status, its response (a string, or an object whose
  \<open>message\<close> is a list of strings, a string, or something else) and its own message.
\<close>

datatype response_message = MessageList "string list" | MessageString string | MessageOther

datatype http_response = ResponseString string | ResponseObject response_message

record http_exception =
  he_status :: int
  he_response :: http_response
  he_message :: string

datatype exception = HttpException http_exception | Thrown thrown

fun CODE_BY_STATUS :: "int \<Rightarrow> string option" where
  "CODE_BY_STATUS s =
     (if s = 400 then Some ''bad_request''
      else if s = 401 then Some ''unauthorized''
      else if s = 403 then Some ''forbidden''
      else if s = 404 then Some ''not_found''
      else if s = 405 then Some ''method_not_allowed''
      else if s = 409 then Some ''conflict''
      else if s = 429 then Some ''rate_limited''
      else None)"

fun join :: "string \<Rightarrow> string list \<Rightarrow> string" where
  "join sep [] = []"
| "join sep [x] = x"
| "join sep (x # xs) = x @ sep @ join sep xs"

definition mapHttpException :: "http_exception \<Rightarrow> app_error" where
  "mapHttpException h =
     (let message =
        (case he_response h of
           ResponseString m \<Rightarrow> m
         | ResponseObject (MessageList ms) \<Rightarrow> join '', '' ms
         | ResponseObject (MessageString m) \<Rightarrow> m
         | ResponseObject MessageOther \<Rightarrow> he_message h)
      in mk_error PlainAppError
           (case CODE_BY_STATUS (he_status h) of None \<Rightarrow> ''http_error'' | Some c \<Rightarrow> c)
           message (he_status h) None None)"

text \<open>The filter's reply: the HTTP status and the body that is sent.\<close>

definition exception_filter :: "exception \<Rightarrow> string \<Rightarrow> int \<times> api_error_response" where
  "exception_filter ex requestId =
     (let e = (case ex of HttpException h \<Rightarrow> mapHttpException h | Thrown t \<Rightarrow> toAppError t)
      in (ae_httpStatus e, toApiErrorResponse e requestId))"

section \<open>Properties\<close>

text \<open>An exception that is not an AppError never reaches the client: the reply is a
  status 500 \<open>internal_error\<close> with a fixed message and no details, the same for every
  such exception, so nothing of the exception's own message can be read off it.\<close>

theorem unexpected_error_not_leaked:
  assumes "\<not> isAppError t"
  shows "exception_filter (Thrown t) requestId =
    (500, \<lparr>er_code = ''internal_error'', er_message = ''An unexpected error occurred'',
           er_request_id = requestId, er_details = None\<rparr>)"
  using assms
  by (cases t) (simp_all add: exception_filter_def toApiErrorResponse_def error_defs)

theorem unexpected_error_not_leaked_witness:
  "\<not> isAppError (OtherThrown ''connect ECONNREFUSED 10.0.0.5:5432'') \<and>
   fst (exception_filter (Thrown (OtherThrown ''connect ECONNREFUSED 10.0.0.5:5432'')) ''req_1'') = 500"
  using unexpected_error_not_leaked [of "OtherThrown ''connect ECONNREFUSED 10.0.0.5:5432''" "''req_1''"]
  by simp

lemma exception_filter_app_error:
  "exception_filter (Thrown (AppThrown a)) requestId =
   (ae_httpStatus a, toApiErrorResponse a requestId)"
  by (simp add: exception_filter_def)

end
