(* ===== verification/Status_Machines.thy ===== *)
theory Status_Machines
  imports App_Errors
begin

text \<open>
  The two explicit state machines of \<open>packages/payments\<close>
  (\<open>invoice-state-machine.ts\<close>, \<open>payment-state-machine.ts\<close>): the transition maps, the
  tests and the assertions every status change in the services goes through. The locale
  \<open>status_machine\<close> states what the rest of the system relies on (statuses advance
  through phases, and only named statuses may be revisited); both maps are interpretations.
\<close>

section \<open>What a status machine promises\<close>

text \<open>
  \<open>successors\<close> is the transition map, \<open>phase\<close> grows along it, and a step inside one
  phase is between two statuses that \<open>may_repeat\<close>. A history is a list of statuses each
  of which is a legal transition from the one before.
\<close>

locale status_machine =
  fixes successors :: "'s \<Rightarrow> 's list"
    and phase :: "'s \<Rightarrow> nat"
    and may_repeat :: "'s \<Rightarrow> bool"
  assumes phase_mono: "t \<in> set (successors s) \<Longrightarrow> phase s \<le> phase t"
    and phase_level: "t \<in> set (successors s) \<Longrightarrow> phase s = phase t \<Longrightarrow> may_repeat s \<and> may_repeat t"
begin

lemma history_phases:
  "successively (\<lambda>s t. t \<in> set (successors s)) (s # ss) \<Longrightarrow> u \<in> set ss \<Longrightarrow> phase s \<le> phase u"
proof (induction ss arbitrary: s)
  case Nil
  then show ?case by simp
next
  case (Cons t ss)
  then have "phase s \<le> phase t" by (simp add: phase_mono)
  moreover have "u = t \<or> phase t \<le> phase u" using Cons by auto
  ultimately show ?case by auto
qed

lemma not_revisited:
  assumes "successively (\<lambda>s t. t \<in> set (successors s)) (s # ss)" and "\<not> may_repeat s"
  shows "s \<notin> set ss"
proof (cases ss)
  case Nil
  then show ?thesis by simp
next
  case (Cons t ts)
  with assms(1) have step: "t \<in> set (successors s)"
    and rest: "successively (\<lambda>s t. t \<in> set (successors s)) (t # ts)" by simp_all
  have "phase s < phase t"
    using phase_mono [OF step] phase_level [OF step] assms(2) by force
  moreover have "u \<in> set ss \<Longrightarrow> phase t \<le> phase u" for u
    using Cons history_phases [OF rest] by auto
  ultimately show ?thesis by force
qed

lemma count_at_most_once:
  "successively (\<lambda>s t. t \<in> set (successors s)) ss \<Longrightarrow> \<not> may_repeat s \<Longrightarrow> count_list ss s \<le> 1"
proof (induction ss)
  case Nil
  then show ?case by simp
next
  case (Cons t ss)
  from Cons.prems(1) have "successively (\<lambda>s t. t \<in> set (successors s)) ss"
    by (cases ss) simp_all
  then have "count_list ss s \<le> 1" using Cons.IH Cons.prems(2) by blast
  moreover have "t = s \<Longrightarrow> count_list ss s = 0"
    using not_revisited [OF Cons.prems(1)] Cons.prems(2) by (simp add: count_list_0_iff)
  ultimately show ?case by auto
qed

end

text \<open>A machine in which no status may be revisited: histories are bounded by the phases.\<close>

locale one_way_machine = status_machine successors phase "\<lambda>_. False"
  for successors :: "'s \<Rightarrow> 's list" and phase :: "'s \<Rightarrow> nat"
begin

lemma phase_strict: "t \<in> set (successors s) \<Longrightarrow> phase s < phase t"
  using phase_mono phase_level by (meson le_neq_implies_less)

lemma history_distinct:
  "successively (\<lambda>s t. t \<in> set (successors s)) ss \<Longrightarrow> distinct ss"
proof (induction ss)
  case Nil
  then show ?case by simp
next
  case (Cons s ss)
  from Cons.prems have "successively (\<lambda>s t. t \<in> set (successors s)) ss"
    by (cases ss) simp_all
  then have "distinct ss" by (rule Cons.IH)
  with not_revisited [OF Cons.prems] show ?case by simp
qed

lemma history_length:
  "successively (\<lambda>s t. t \<in> set (successors s)) (s # ss) \<Longrightarrow>
   phase s + length ss \<le> phase (last (s # ss))"
proof (induction ss arbitrary: s)
  case Nil
  then show ?case by simp
next
  case (Cons t ss)
  then have "phase s < phase t" by (simp add: phase_strict)
  moreover have "phase t + length ss \<le> phase (last (t # ss))" using Cons by simp
  ultimately show ?case by simp
qed

end

section \<open>Invoices\<close>

datatype invoice_status =
    Inv_CREATED | Inv_PENDING | Inv_DETECTED | Inv_CONFIRMING | Inv_PAID | Inv_UNDERPAID
  | Inv_OVERPAID | Inv_EXPIRED | Inv_FAILED | Inv_CANCELLED | Inv_REFUNDED

fun invoice_status_name :: "invoice_status \<Rightarrow> string" where
  "invoice_status_name Inv_CREATED = ''CREATED''"
| "invoice_status_name Inv_PENDING = ''PENDING''"
| "invoice_status_name Inv_DETECTED = ''DETECTED''"
| "invoice_status_name Inv_CONFIRMING = ''CONFIRMING''"
| "invoice_status_name Inv_PAID = ''PAID''"
| "invoice_status_name Inv_UNDERPAID = ''UNDERPAID''"
| "invoice_status_name Inv_OVERPAID = ''OVERPAID''"
| "invoice_status_name Inv_EXPIRED = ''EXPIRED''"
| "invoice_status_name Inv_FAILED = ''FAILED''"
| "invoice_status_name Inv_CANCELLED = ''CANCELLED''"
| "invoice_status_name Inv_REFUNDED = ''REFUNDED''"

fun INVOICE_TRANSITIONS :: "invoice_status \<Rightarrow> invoice_status list" where
  "INVOICE_TRANSITIONS Inv_CREATED = [Inv_PENDING]"
| "INVOICE_TRANSITIONS Inv_PENDING = [Inv_DETECTED, Inv_EXPIRED, Inv_CANCELLED]"
| "INVOICE_TRANSITIONS Inv_DETECTED = [Inv_CONFIRMING, Inv_FAILED]"
| "INVOICE_TRANSITIONS Inv_CONFIRMING = [Inv_PAID, Inv_UNDERPAID, Inv_OVERPAID, Inv_FAILED]"
| "INVOICE_TRANSITIONS Inv_UNDERPAID = [Inv_REFUNDED]"
| "INVOICE_TRANSITIONS Inv_OVERPAID = [Inv_REFUNDED]"
| "INVOICE_TRANSITIONS Inv_PAID = [Inv_REFUNDED]"
| "INVOICE_TRANSITIONS Inv_EXPIRED = []"
| "INVOICE_TRANSITIONS Inv_FAILED = []"
| "INVOICE_TRANSITIONS Inv_CANCELLED = []"
| "INVOICE_TRANSITIONS Inv_REFUNDED = []"

definition canTransitionInvoice :: "invoice_status \<Rightarrow> invoice_status \<Rightarrow> bool" where
  "canTransitionInvoice s t = (t \<in> set (INVOICE_TRANSITIONS s))"

definition assertInvoiceTransition :: "invoice_status \<Rightarrow> invoice_status \<Rightarrow> thrown + unit" where
  "assertInvoiceTransition s t =
     (if \<not> canTransitionInvoice s t
      then Inl (AppThrown (invalid_state_transition_error
             (''Invoice cannot transition from '' @ invoice_status_name s @ '' to '' @ invoice_status_name t)
             (Some (Transition (invoice_status_name s) (invoice_status_name t)))))
      else Inr ())"

text \<open>The phase of an invoice: how far along its life it is.\<close>

fun invoice_phase :: "invoice_status \<Rightarrow> nat" where
  "invoice_phase Inv_CREATED = 0"
| "invoice_phase Inv_PENDING = 1"
| "invoice_phase Inv_DETECTED = 2"
| "invoice_phase Inv_CONFIRMING = 3"
| "invoice_phase Inv_PAID = 4"
| "invoice_phase Inv_UNDERPAID = 4"
| "invoice_phase Inv_OVERPAID = 4"
| "invoice_phase _ = 5"

interpretation invoice_machine: one_way_machine INVOICE_TRANSITIONS invoice_phase
proof
  fix s t
  assume "t \<in> set (INVOICE_TRANSITIONS s)"
  then have "invoice_phase s < invoice_phase t" by (cases s) auto
  then show "invoice_phase s \<le> invoice_phase t"
    and "invoice_phase s = invoice_phase t \<Longrightarrow> False \<and> False" by simp_all
qed

lemma invoice_phase_le: "invoice_phase s \<le> 5"
  by (cases s) simp_all

text \<open>The invoice machine is one-way: in any sequence of legal invoice transitions no
  status occurs twice, and the sequence has at most six statuses. An invoice can never
  come back to a status it has left.\<close>

theorem invoice_history_one_way:
  assumes "successively canTransitionInvoice ss"
  shows "distinct ss \<and> length ss \<le> 6"
proof (cases ss)
  case Nil
  then show ?thesis by simp
next
  case (Cons s ss')
  from assms have hist: "successively (\<lambda>s t. t \<in> set (INVOICE_TRANSITIONS s)) ss"
    by (simp add: canTransitionInvoice_def [abs_def])
  then have "distinct ss" by (rule invoice_machine.history_distinct)
  moreover have "length ss' \<le> 5"
    using invoice_machine.history_length [of s ss'] hist Cons invoice_phase_le [of "last ss"]
    by simp
  ultimately show ?thesis using Cons by simp
qed

theorem invoice_history_one_way_witness:
  "length [Inv_CREATED, Inv_PENDING, Inv_DETECTED, Inv_CONFIRMING, Inv_PAID, Inv_REFUNDED] \<le> 6"
  using invoice_history_one_way
    [of "[Inv_CREATED, Inv_PENDING, Inv_DETECTED, Inv_CONFIRMING, Inv_PAID, Inv_REFUNDED]"]
  by (simp add: canTransitionInvoice_def)

lemma assertInvoiceTransition_ok:
  "assertInvoiceTransition s t = Inr () \<longleftrightarrow> canTransitionInvoice s t"
  by (simp add: assertInvoiceTransition_def)

lemma assertInvoiceTransition_simps [simp]:
  "assertInvoiceTransition Inv_CREATED Inv_PENDING = Inr ()"
  "assertInvoiceTransition Inv_PENDING Inv_DETECTED = Inr ()"
  "assertInvoiceTransition Inv_PENDING Inv_EXPIRED = Inr ()"
  "assertInvoiceTransition Inv_DETECTED Inv_CONFIRMING = Inr ()"
  "assertInvoiceTransition Inv_DETECTED Inv_FAILED = Inr ()"
  "assertInvoiceTransition Inv_CONFIRMING Inv_PAID = Inr ()"
  "assertInvoiceTransition Inv_CONFIRMING Inv_UNDERPAID = Inr ()"
  "assertInvoiceTransition Inv_CONFIRMING Inv_OVERPAID = Inr ()"
  "assertInvoiceTransition Inv_CONFIRMING Inv_FAILED = Inr ()"
  by (simp_all add: assertInvoiceTransition_ok canTransitionInvoice_def)

section \<open>Payments\<close>

datatype payment_status =
    Pay_PENDING | Pay_DETECTED | Pay_CONFIRMING | Pay_CONFIRMED | Pay_UNDERPAID
  | Pay_OVERPAID | Pay_FAILED | Pay_REORG_DETECTED

fun payment_status_name :: "payment_status \<Rightarrow> string" where
  "payment_status_name Pay_PENDING = ''PENDING''"
| "payment_status_name Pay_DETECTED = ''DETECTED''"
| "payment_status_name Pay_CONFIRMING = ''CONFIRMING''"
| "payment_status_name Pay_CONFIRMED = ''CONFIRMED''"
| "payment_status_name Pay_UNDERPAID = ''UNDERPAID''"
| "payment_status_name Pay_OVERPAID = ''OVERPAID''"
| "payment_status_name Pay_FAILED = ''FAILED''"
| "payment_status_name Pay_REORG_DETECTED = ''REORG_DETECTED''"

fun PAYMENT_TRANSITIONS :: "payment_status \<Rightarrow> payment_status list" where
  "PAYMENT_TRANSITIONS Pay_PENDING = [Pay_DETECTED, Pay_FAILED]"
| "PAYMENT_TRANSITIONS Pay_DETECTED = [Pay_CONFIRMING, Pay_FAILED]"
| "PAYMENT_TRANSITIONS Pay_CONFIRMING =
     [Pay_CONFIRMED, Pay_UNDERPAID, Pay_OVERPAID, Pay_REORG_DETECTED, Pay_FAILED]"
| "PAYMENT_TRANSITIONS Pay_REORG_DETECTED = [Pay_CONFIRMING, Pay_FAILED]"
| "PAYMENT_TRANSITIONS Pay_CONFIRMED = []"
| "PAYMENT_TRANSITIONS Pay_UNDERPAID = []"
| "PAYMENT_TRANSITIONS Pay_OVERPAID = []"
| "PAYMENT_TRANSITIONS Pay_FAILED = []"

definition canTransitionPayment :: "payment_status \<Rightarrow> payment_status \<Rightarrow> bool" where
  "canTransitionPayment s t = (t \<in> set (PAYMENT_TRANSITIONS s))"

definition assertPaymentTransition :: "payment_status \<Rightarrow> payment_status \<Rightarrow> thrown + unit" where
  "assertPaymentTransition s t =
     (if \<not> canTransitionPayment s t
      then Inl (AppThrown (invalid_state_transition_error
             (''Payment cannot transition from '' @ payment_status_name s @ '' to '' @ payment_status_name t)
             (Some (Transition (payment_status_name s) (payment_status_name t)))))
      else Inr ())"

fun payment_phase :: "payment_status \<Rightarrow> nat" where
  "payment_phase Pay_PENDING = 0"
| "payment_phase Pay_DETECTED = 1"
| "payment_phase Pay_CONFIRMING = 2"
| "payment_phase Pay_REORG_DETECTED = 2"
| "payment_phase _ = 3"

text \<open>The two statuses a reorganisation of the chain can move a payment between.\<close>

fun awaiting_finality :: "payment_status \<Rightarrow> bool" where
  "awaiting_finality Pay_CONFIRMING = True"
| "awaiting_finality Pay_REORG_DETECTED = True"
| "awaiting_finality _ = False"

interpretation payment_machine: status_machine PAYMENT_TRANSITIONS payment_phase awaiting_finality
proof
  fix s t
  assume step: "t \<in> set (PAYMENT_TRANSITIONS s)"
  show "payment_phase s \<le> payment_phase t" using step by (cases s) auto
  show "payment_phase s = payment_phase t \<Longrightarrow> awaiting_finality s \<and> awaiting_finality t"
    using step by (cases s) auto
qed

text \<open>In any sequence of legal payment transitions every status occurs at most once,
  except CONFIRMING and REORG_DETECTED: a payment that was confirmed, underpaid, overpaid
  or failed is never reopened, and only a chain reorganisation makes it go round.\<close>

theorem payment_history_settles:
  assumes "successively canTransitionPayment ss" and "s \<noteq> Pay_CONFIRMING" and "s \<noteq> Pay_REORG_DETECTED"
  shows "count_list ss s \<le> 1"
proof -
  have "successively (\<lambda>s t. t \<in> set (PAYMENT_TRANSITIONS s)) ss"
    using assms(1) by (simp add: canTransitionPayment_def [abs_def])
  moreover have "\<not> awaiting_finality s" using assms(2,3) by (cases s) simp_all
  ultimately show ?thesis by (rule payment_machine.count_at_most_once)
qed

theorem payment_history_settles_witness:
  "count_list [Pay_PENDING, Pay_DETECTED, Pay_CONFIRMING, Pay_REORG_DETECTED, Pay_CONFIRMING, Pay_CONFIRMED]
     Pay_CONFIRMED \<le> 1"
  by (rule payment_history_settles) (simp_all add: canTransitionPayment_def)

lemma assertPaymentTransition_ok:
  "assertPaymentTransition s t = Inr () \<longleftrightarrow> canTransitionPayment s t"
  by (simp add: assertPaymentTransition_def)

lemma assertPaymentTransition_simps [simp]:
  "assertPaymentTransition Pay_PENDING Pay_DETECTED = Inr ()"
  "assertPaymentTransition Pay_DETECTED Pay_CONFIRMING = Inr ()"
  "assertPaymentTransition Pay_DETECTED Pay_FAILED = Inr ()"
  "assertPaymentTransition Pay_CONFIRMING Pay_CONFIRMED = Inr ()"
  "assertPaymentTransition Pay_CONFIRMING Pay_UNDERPAID = Inr ()"
  "assertPaymentTransition Pay_CONFIRMING Pay_OVERPAID = Inr ()"
  "assertPaymentTransition Pay_CONFIRMING Pay_REORG_DETECTED = Inr ()"
  "assertPaymentTransition Pay_CONFIRMING Pay_FAILED = Inr ()"
  "assertPaymentTransition Pay_REORG_DETECTED Pay_CONFIRMING = Inr ()"
  "assertPaymentTransition Pay_REORG_DETECTED Pay_FAILED = Inr ()"
  by (simp_all add: assertPaymentTransition_ok canTransitionPayment_def)

end
