(* ===== verification/Payment_Rules.thy ===== *)
theory Payment_Rules
  imports Status_Machines
begin

text \<open>
  The payment rules of \<open>packages/payments\<close>: classifying a received amount
  (\<open>payment-amount.ts\<close>) and choosing the invoice an incoming transfer pays
  (\<open>payment-matching.ts\<close>). The source's structural interfaces are extensible records, so
  a full \<open>invoice\<close> row and a full \<open>token_transfer\<close> are passed where the source passes them.
\<close>

section \<open>Amounts\<close>

datatype payment_amount_match = Exact | Underpaid | Overpaid

text \<open>\<open>Decimal.comparedTo\<close>: -1, 0 or 1.\<close>

definition comparedTo :: "decimal \<Rightarrow> decimal \<Rightarrow> int" where
  "comparedTo a b = (if a < b then -1 else if a = b then 0 else 1)"

definition evaluatePaymentAmount :: "decimal \<Rightarrow> decimal \<Rightarrow> payment_amount_match" where
  "evaluatePaymentAmount expectedAmount receivedAmount =
     (let comparison = comparedTo receivedAmount expectedAmount
      in if comparison = 0 then Exact
         else if comparison < 0 then Underpaid else Overpaid)"

text \<open>The classification of an amount is exactly the comparison with the expected
  amount: equal, below, above; there is no tolerance in either direction.\<close>

theorem evaluatePaymentAmount_exact:
  "(evaluatePaymentAmount e r = Exact) = (r = e) \<and>
   (evaluatePaymentAmount e r = Underpaid) = (r < e) \<and>
   (evaluatePaymentAmount e r = Overpaid) = (e < r)"
  by (auto simp: evaluatePaymentAmount_def comparedTo_def Let_def)

lemma evaluatePaymentAmount_cases:
  "(evaluatePaymentAmount e r = Exact) = (r = e)"
  "(evaluatePaymentAmount e r = Underpaid) = (r < e)"
  "(evaluatePaymentAmount e r = Overpaid) = (e < r)"
  by (auto simp: evaluatePaymentAmount_def comparedTo_def Let_def)

section \<open>Matching a transfer to an invoice\<close>

record invoice_target =
  inv_network :: string
  inv_token :: string
  inv_paymentAddress :: string

record pending_candidate = invoice_target +
  inv_id :: ident
  inv_amount :: decimal
  inv_createdAt :: millis

record detected_transfer =
  tr_network :: string
  tr_token :: string
  tr_toAddress :: string

record amount_transfer = detected_transfer +
  tr_amount :: decimal

definition matchesInvoice :: "'a invoice_target_scheme \<Rightarrow> 'b detected_transfer_scheme \<Rightarrow> bool" where
  "matchesInvoice target transfer =
     (inv_network target = tr_network transfer \<and>
      inv_token target = tr_token transfer \<and>
      to_lower (inv_paymentAddress target) = to_lower (tr_toAddress transfer))"

definition selectMatchingInvoice ::
    "'a pending_candidate_scheme list \<Rightarrow> 'b amount_transfer_scheme \<Rightarrow> 'a pending_candidate_scheme option" where
  "selectMatchingInvoice candidates transfer =
     (let matching = filter (\<lambda>c. matchesInvoice c transfer) candidates
      in if matching = [] then None
         else case find (\<lambda>c. inv_amount c = tr_amount transfer) matching of
                Some exact \<Rightarrow> Some exact
              | None \<Rightarrow>
                  (case sort_key inv_createdAt matching of
                     [] \<Rightarrow> None
                   | oldest # _ \<Rightarrow> Some oldest))"

text \<open>What the selection promises, stated without the algorithm.\<close>

definition best_candidate ::
    "'a pending_candidate_scheme list \<Rightarrow> 'b amount_transfer_scheme \<Rightarrow> 'a pending_candidate_scheme \<Rightarrow> bool" where
  "best_candidate cs t c \<longleftrightarrow>
     c \<in> set cs \<and> matchesInvoice c t \<and>
     (if \<exists>d \<in> set cs. matchesInvoice d t \<and> inv_amount d = tr_amount t
      then inv_amount c = tr_amount t
      else \<forall>d \<in> set cs. matchesInvoice d t \<longrightarrow> inv_createdAt c \<le> inv_createdAt d)"

lemma sort_key_first:
  assumes "sort_key f xs = x # ys"
  shows "x \<in> set xs" and "y \<in> set xs \<Longrightarrow> f x \<le> f y"
proof -
  have "set (x # ys) = set xs" and "sorted (map f (x # ys))"
    using assms by (metis set_sort) (metis assms sorted_sort_key)
  then show "x \<in> set xs" and "y \<in> set xs \<Longrightarrow> f x \<le> f y" by auto
qed

lemma selectMatchingInvoice_None:
  "selectMatchingInvoice cs t = None \<longleftrightarrow> (\<forall>c \<in> set cs. \<not> matchesInvoice c t)"
proof -
  have "sort_key inv_createdAt ms \<noteq> [] \<longleftrightarrow> ms \<noteq> []" for ms :: "'a pending_candidate_scheme list"
    by (metis length_0_conv length_sort)
  then show ?thesis
    by (auto simp: selectMatchingInvoice_def Let_def filter_empty_conv
        split: option.splits list.splits)
qed

lemma selectMatchingInvoice_best:
  assumes "selectMatchingInvoice cs t = Some c"
  shows "best_candidate cs t c"
proof -
  let ?ms = "filter (\<lambda>c. matchesInvoice c t) cs"
  show ?thesis
  proof (cases "find (\<lambda>c. inv_amount c = tr_amount t) ?ms")
    case (Some d)
    with assms have "d = c"
      by (auto simp: selectMatchingInvoice_def Let_def split: if_splits)
    with find_SomeD [OF Some] show ?thesis by (auto simp: best_candidate_def)
  next
    case None
    with assms obtain ys where "sort_key inv_createdAt ?ms = c # ys"
      by (auto simp: selectMatchingInvoice_def Let_def split: if_splits list.splits)
    with None show ?thesis
      using sort_key_first [of inv_createdAt ?ms c ys]
      by (auto simp: best_candidate_def find_None_iff_all)
  qed
qed

text \<open>The selection refines its contract: it returns an invoice exactly when some
  candidate agrees with the transfer on network, token and destination address (letter case
  of the address aside); the invoice returned is such a candidate, its amount is the
  transferred amount whenever some such candidate has it, and otherwise it is an oldest one.\<close>

theorem selectMatchingInvoice_refines:
  "(selectMatchingInvoice cs t = None) = (\<nexists>c. c \<in> set cs \<and> matchesInvoice c t) \<and>
   (selectMatchingInvoice cs t = Some c \<longrightarrow> best_candidate cs t c)"
  using selectMatchingInvoice_None [of cs t] selectMatchingInvoice_best [of cs t c] by blast

definition example_candidate :: "ident \<Rightarrow> decimal \<Rightarrow> millis \<Rightarrow> pending_candidate" where
  "example_candidate i a c =
     \<lparr>inv_network = ''base'', inv_token = ''USDC'', inv_paymentAddress = ''0xAb'',
      inv_id = i, inv_amount = a, inv_createdAt = c\<rparr>"

definition example_transfer :: amount_transfer where
  "example_transfer =
     \<lparr>tr_network = ''base'', tr_token = ''USDC'', tr_toAddress = ''0xaB'', tr_amount = 5\<rparr>"

theorem selectMatchingInvoice_refines_witness:
  "best_candidate [example_candidate ''a'' 3 10, example_candidate ''b'' 5 20] example_transfer
     (example_candidate ''b'' 5 20)"
proof -
  have "to_lower ''0xAb'' = to_lower ''0xaB''" by code_simp
  then have "selectMatchingInvoice [example_candidate ''a'' 3 10, example_candidate ''b'' 5 20] example_transfer =
      Some (example_candidate ''b'' 5 20)"
    by (simp add: selectMatchingInvoice_def matchesInvoice_def example_candidate_def
        example_transfer_def Let_def)
  with selectMatchingInvoice_refines show ?thesis by blast
qed

lemma selectMatchingInvoice_Some:
  assumes "selectMatchingInvoice cs t = Some c"
  shows "c \<in> set cs" and "matchesInvoice c t"
  using selectMatchingInvoice_best [OF assms] by (auto simp: best_candidate_def)

lemma selectMatchingInvoice_Nil [simp]: "selectMatchingInvoice [] t = None"
  by (simp add: selectMatchingInvoice_None)

end
