(* ===== verification/Shared_Ids.thy ===== *)
theory Shared_Ids
  imports Prelude
begin

text \<open>
  \<open>packages/shared/src/ids.ts\<close> and \<open>roles.ts\<close>: the opaque public identifiers and
  the role and scope vocabularies. The bytes \<open>randomBytes\<close> returns are an argument.
\<close>

section \<open>Roles, scopes, statuses\<close>

datatype membership_role = OWNER | ADMIN | MEMBER

datatype api_key_scope =
    Invoices_read | Invoices_write | Payments_read | PaymentLinks_read | PaymentLinks_write
  | Webhooks_read | Webhooks_write

datatype api_key_environment = Env_test | Env_live

text \<open>Declared for the administration and for organizations; no code reads them.\<close>

definition ADMIN_ROLES :: "string list" where
  "ADMIN_ROLES = [''SUPER_ADMIN'', ''ADMIN'', ''SUPPORT'', ''FINANCE'', ''SECURITY'', ''READ_ONLY'']"

definition ORGANIZATION_STATUSES :: "string list" where
  "ORGANIZATION_STATUSES = [''ACTIVE'', ''SUSPENDED'', ''PENDING_REVIEW'', ''CLOSED'']"

text \<open>Exhaustive evaluation over the roles: the type is an instance of \<open>enum\<close>.\<close>

instantiation membership_role :: enum
begin

definition enum_membership_role :: "membership_role list" where
  "enum_membership_role = [OWNER, ADMIN, MEMBER]"

definition enum_all_membership_role :: "(membership_role \<Rightarrow> bool) \<Rightarrow> bool" where
  "enum_all_membership_role P = (P OWNER \<and> P ADMIN \<and> P MEMBER)"

definition enum_ex_membership_role :: "(membership_role \<Rightarrow> bool) \<Rightarrow> bool" where
  "enum_ex_membership_role P = (P OWNER \<or> P ADMIN \<or> P MEMBER)"

instance
proof
  fix P :: "membership_role \<Rightarrow> bool"
  have all: "x \<in> {OWNER, ADMIN, MEMBER}" for x :: membership_role by (cases x) auto
  show "UNIV = set (enum_class.enum :: membership_role list)"
    using all by (auto simp: enum_membership_role_def)
  show "distinct (enum_class.enum :: membership_role list)"
    by (simp add: enum_membership_role_def)
  show "enum_class.enum_all P \<longleftrightarrow> Ball UNIV P"
    using all by (auto simp: enum_all_membership_role_def) (metis membership_role.exhaust)
  show "enum_class.enum_ex P \<longleftrightarrow> Bex UNIV P"
    using all by (auto simp: enum_ex_membership_role_def) (metis membership_role.exhaust)
qed

end

section \<open>Identifiers\<close>

definition ALPHABET :: string where
  "ALPHABET = ''0123456789abcdefghijklmnopqrstuvwxyzABCDEFGHIJKLMNOPQRSTUVWXYZ''"

text \<open>
  \<open>generateId(prefix, length)\<close>, on the bytes that \<open>randomBytes(length)\<close> returned; the
  loop appends one alphabet character per byte.
\<close>

definition generateId :: "string \<Rightarrow> nat list \<Rightarrow> ident" where
  "generateId prefix bytes =
     prefix @ ''_'' @ map (\<lambda>b. ALPHABET ! (b mod length ALPHABET)) bytes"

lemma length_ALPHABET [simp]: "length ALPHABET = 62"
  by (simp add: ALPHABET_def)

lemma distinct_ALPHABET: "distinct ALPHABET"
  by (simp add: ALPHABET_def)

lemma underscore_not_in_ALPHABET: "CHR ''_'' \<notin> set ALPHABET"
  by (simp add: ALPHABET_def)

text \<open>Every identifier has the shape the prefix and the byte count promise.\<close>

lemma generateId_shape:
  "length (generateId prefix bytes) = length prefix + 1 + length bytes"
  "starts_with (generateId prefix bytes) (prefix @ ''_'')"
  "set (drop (length prefix + 1) (generateId prefix bytes)) \<subseteq> set ALPHABET"
proof -
  show "length (generateId prefix bytes) = length prefix + 1 + length bytes"
    by (simp add: generateId_def)
  show "starts_with (generateId prefix bytes) (prefix @ ''_'')"
    by (simp add: generateId_def starts_with_def)
  show "set (drop (length prefix + 1) (generateId prefix bytes)) \<subseteq> set ALPHABET"
    by (auto simp: generateId_def intro!: nth_mem)
qed

text \<open>Two identifiers drawn from the same number of bytes are equal exactly when
  their prefixes are equal and their bytes agree modulo the alphabet's 62 characters: an
  identifier loses nothing of its byte string but that reduction.\<close>

theorem generateId_eq_iff:
  assumes "length bs = length cs"
  shows "generateId p bs = generateId q cs \<longleftrightarrow>
    p = q \<and> map (\<lambda>b. b mod 62) bs = map (\<lambda>b. b mod 62) cs"
proof -
  have chars: "map (\<lambda>b. ALPHABET ! (b mod 62)) bs = map (\<lambda>b. ALPHABET ! (b mod 62)) cs \<longleftrightarrow>
      map (\<lambda>b. b mod 62) bs = map (\<lambda>b. b mod 62) cs"
    using assms by (induction bs cs rule: list_induct2) (auto simp: nth_eq_iff_index_eq distinct_ALPHABET)
  show ?thesis
  proof
    assume eq: "generateId p bs = generateId q cs"
    then have "length p = length q"
      using assms generateId_shape(1) [of p bs] generateId_shape(1) [of q cs] by simp
    with eq show "p = q \<and> map (\<lambda>b. b mod 62) bs = map (\<lambda>b. b mod 62) cs"
      using chars by (simp add: generateId_def)
  next
    assume "p = q \<and> map (\<lambda>b. b mod 62) bs = map (\<lambda>b. b mod 62) cs"
    then show "generateId p bs = generateId q cs"
      using chars by (simp add: generateId_def)
  qed
qed

theorem generateId_eq_iff_witness:
  "generateId ''inv'' [0, 1] = generateId ''inv'' [62, 63]"
  using generateId_eq_iff [of "[0, 1]" "[62, 63]" "''inv''" "''inv''"] by simp

end
