(* ===== verification/Store.thy ===== *)
theory Store
  imports Payment_Rules Shared_Ids
begin

text \<open>
  The relational store: one record per model of \<open>packages/database/prisma/schema.prisma\<close>
  the services use, the store that holds the tables, and the operations of the Prisma
  client the source calls (\<open>findUnique\<close>, \<open>findMany\<close>, \<open>create\<close>, \<open>update\<close>,
  \<open>updateMany\<close>), each over one table. A table is the list of its rows in the order a
  scan returns them. \<open>create\<close> throws when a unique constraint of the schema is violated,
  \<open>update\<close> throws when no row matches. Foreign keys are not enforced by the model: every
  row the services create refers to a row they have just read.

  The locale \<open>table\<close> is what the services rely on of a table; it is interpreted for
  every table the model writes.
\<close>

section \<open>Rows\<close>

record invoice = pending_candidate +
  inv_organizationId :: ident
  inv_externalId :: "string option"
  inv_status :: invoice_status
  inv_description :: "string option"
  inv_currency :: string
  inv_successUrl :: "string option"
  inv_cancelUrl :: "string option"
  inv_metadata :: "(string \<times> json_scalar) list option"
  inv_expiresAt :: millis
  inv_paidAt :: "millis option"
  inv_updatedAt :: millis

record payment =
  pay_id :: ident
  pay_invoiceId :: ident
  pay_organizationId :: ident
  pay_network :: string
  pay_token :: string
  pay_expectedAmount :: decimal
  pay_receivedAmount :: "decimal option"
  pay_txHash :: "string option"
  pay_fromAddress :: "string option"
  pay_toAddress :: string
  pay_blockNumber :: "int option"
  pay_confirmations :: int
  pay_status :: payment_status
  pay_detectedAt :: "millis option"
  pay_confirmedAt :: "millis option"
  pay_createdAt :: millis
  pay_updatedAt :: millis

record wallet_address =
  wal_id :: ident
  wal_organizationId :: ident
  wal_network :: string
  wal_token :: string
  wal_address :: string
  wal_createdAt :: millis
  wal_updatedAt :: millis

text \<open>The cursor's \<open>updatedAt\<close> column is read nowhere and left out.\<close>

record scan_cursor =
  cur_network :: string
  cur_lastScannedBlock :: int

text \<open>The JSON \<open>data\<close> of a webhook event, as \<open>createWebhookEvent\<close> builds it.\<close>

record event_data =
  ed_invoice_id :: ident
  ed_external_id :: "string option"
  ed_amount :: string
  ed_currency :: string
  ed_network :: string
  ed_status :: string
  ed_tx_hash :: "string option"

record webhook_event =
  evt_id :: ident
  evt_organizationId :: ident
  evt_invoiceId :: ident
  evt_type :: string
  evt_data :: event_data
  evt_createdAt :: millis

record webhook_endpoint =
  we_id :: ident
  we_organizationId :: ident
  we_url :: string
  we_enabled :: bool
  we_secretEnc :: string
  we_revokedAt :: "millis option"
  we_createdAt :: millis
  we_updatedAt :: millis

datatype delivery_status = Whd_PENDING | Whd_SUCCEEDED | Whd_FAILED | Whd_EXHAUSTED

record webhook_delivery =
  whd_id :: ident
  whd_eventId :: ident
  whd_endpointId :: ident
  whd_attempt :: int
  whd_status :: delivery_status
  whd_statusCode :: "int option"
  whd_responseTimeMs :: "int option"
  whd_error :: "string option"
  whd_nextRetryAt :: "millis option"
  whd_deliveredAt :: "millis option"
  whd_createdAt :: millis

datatype user_status = PENDING_VERIFICATION | ACTIVE | LOCKED | SUSPENDED

record user =
  usr_id :: ident
  usr_email :: string
  usr_status :: user_status
  usr_passwordHash :: string
  usr_emailVerifiedAt :: "millis option"
  usr_twoFactorEnabled :: bool
  usr_twoFactorSecretEnc :: "string option"
  usr_failedLoginAttempts :: int
  usr_lockedUntil :: "millis option"
  usr_lastLoginAt :: "millis option"

record refresh_token =
  rt_id :: ident
  rt_userId :: ident
  rt_tokenHash :: string
  rt_familyId :: ident
  rt_replacedById :: "ident option"
  rt_revokedAt :: "millis option"
  rt_expiresAt :: millis
  rt_userAgent :: "string option"
  rt_ipAddress :: "string option"

record email_token =
  et_id :: ident
  et_userId :: ident
  et_tokenHash :: string
  et_expiresAt :: millis
  et_consumedAt :: "millis option"

record organization =
  org_id :: ident
  org_name :: string
  org_slug :: string

record membership =
  mem_id :: ident
  mem_userId :: ident
  mem_organizationId :: ident
  mem_role :: membership_role
  mem_createdAt :: millis

record api_key =
  key_id :: ident
  key_organizationId :: ident
  key_name :: string
  key_environment :: api_key_environment
  key_prefix :: string
  key_hash :: string
  key_scopes :: "api_key_scope list"
  key_lastUsedAt :: "millis option"
  key_expiresAt :: "millis option"
  key_revokedAt :: "millis option"
  key_createdAt :: millis

record audit_log =
  aud_organizationId :: "ident option"
  aud_actorId :: "ident option"
  aud_actorType :: string
  aud_action :: string
  aud_resourceType :: string
  aud_resourceId :: "ident option"
  aud_ip :: "string option"
  aud_userAgent :: "string option"
  aud_metadata :: "(string \<times> json) list option"

record store =
  invoices :: "invoice list"
  payments :: "payment list"
  wallets :: "wallet_address list"
  cursors :: "scan_cursor list"
  events :: "webhook_event list"
  endpoints :: "webhook_endpoint list"
  deliveries :: "webhook_delivery list"
  users :: "user list"
  refreshTokens :: "refresh_token list"
  emailTokens :: "email_token list"
  organizations :: "organization list"
  memberships :: "membership list"
  apiKeys :: "api_key list"
  auditLogs :: "audit_log list"

definition empty_store :: store where
  "empty_store =
     \<lparr>invoices = [], payments = [], wallets = [], cursors = [], events = [], endpoints = [],
      deliveries = [], users = [], refreshTokens = [], emailTokens = [], organizations = [],
      memberships = [], apiKeys = [], auditLogs = []\<rparr>"

type_synonym 'a db_op = "(store, thrown, 'a) eff"

section \<open>The client's operations on one table\<close>

text \<open>
  A table is given by its record selector \<open>rows\<close> and update \<open>upd\<close>; \<open>clash r r'\<close>
  says that the two rows violate a unique constraint together.
\<close>

definition create_row ::
    "('d \<Rightarrow> 'r list) \<Rightarrow> (('r list \<Rightarrow> 'r list) \<Rightarrow> 'd \<Rightarrow> 'd) \<Rightarrow> ('r \<Rightarrow> 'r \<Rightarrow> bool) \<Rightarrow> 'r \<Rightarrow> ('d, thrown, unit) eff" where
  [eff_defs]: "create_row rows upd clash r =
     (\<lambda>d. if list_ex (\<lambda>r'. clash r r') (rows d) then (Inl (DbThrown UniqueViolation), d)
          else (Inr (), upd (\<lambda>t. t @ [r]) d))"

definition update_row ::
    "('d \<Rightarrow> 'r list) \<Rightarrow> (('r list \<Rightarrow> 'r list) \<Rightarrow> 'd \<Rightarrow> 'd) \<Rightarrow> ('r \<Rightarrow> bool) \<Rightarrow> ('r \<Rightarrow> 'r) \<Rightarrow> ('d, thrown, unit) eff" where
  [eff_defs]: "update_row rows upd p f =
     (\<lambda>d. if list_ex p (rows d) then (Inr (), upd (update_rows p f) d)
          else (Inl (DbThrown RecordNotFound), d))"

definition update_many ::
    "(('r list \<Rightarrow> 'r list) \<Rightarrow> 'd \<Rightarrow> 'd) \<Rightarrow> ('r \<Rightarrow> bool) \<Rightarrow> ('r \<Rightarrow> 'r) \<Rightarrow> ('d, thrown, unit) eff" where
  [eff_defs]: "update_many upd p f = (\<lambda>d. (Inr (), upd (update_rows p f) d))"

section \<open>What the services rely on of a table\<close>

locale table =
  fixes rows :: "'d \<Rightarrow> 'r list"
    and upd :: "('r list \<Rightarrow> 'r list) \<Rightarrow> 'd \<Rightarrow> 'd"
    and clash :: "'r \<Rightarrow> 'r \<Rightarrow> bool"
    and key :: "'r \<Rightarrow> 'k"
  assumes rows_upd: "rows (upd f d) = f (rows d)"
    and key_unique: "key r = key r' \<Longrightarrow> clash r r'"
begin

text \<open>A created row is found by its key, and every other key finds what it found before.\<close>

lemma find_after_create:
  assumes "create_row rows upd clash r d = (Inr (), d')"
  shows "find (\<lambda>x. key x = k) (rows d') =
    (if k = key r then Some r else find (\<lambda>x. key x = k) (rows d))"
proof -
  from assms have fresh: "\<forall>r' \<in> set (rows d). \<not> clash r r'" and d': "d' = upd (\<lambda>t. t @ [r]) d"
    by (auto simp: create_row_def list_ex_iff split: if_splits)
  from fresh have "\<forall>r' \<in> set (rows d). key r' \<noteq> key r"
    using key_unique by metis
  then have "k = key r \<Longrightarrow> find (\<lambda>x. key x = k) (rows d) = None"
    by (auto simp: find_None_iff_all)
  then show ?thesis
    by (auto simp: d' rows_upd find_append split: option.splits)
qed

lemma rows_after_create:
  "create_row rows upd clash r d = (Inr (), d') \<Longrightarrow> rows d' = rows d @ [r]"
  by (auto simp: create_row_def rows_upd split: if_splits)

lemma rows_after_update:
  "update_row rows upd p f d = (Inr (), d') \<Longrightarrow> rows d' = update_rows p f (rows d)"
  by (auto simp: update_row_def rows_upd split: if_splits)

text \<open>The primary key stays unique under both operations, whether or not they throw.\<close>

lemma create_keeps_key:
  "distinct (map key (rows d)) \<Longrightarrow> distinct (map key (rows (snd (create_row rows upd clash r d))))"
  using key_unique by (auto simp: create_row_def rows_upd list_ex_iff)

lemma update_keeps_key:
  "(\<And>r. p r \<Longrightarrow> key (f r) = key r) \<Longrightarrow> distinct (map key (rows d)) \<Longrightarrow>
   distinct (map key (rows (snd (update_row rows upd p f d))))"
  by (simp add: update_row_def rows_upd map_update_rows)

lemma find_after_update:
  assumes "update_row rows upd p f d = (Inr (), d')" and "\<And>r. p r \<Longrightarrow> key (f r) = key r"
  shows "find (\<lambda>x. key x = k) (rows d') =
    map_option (\<lambda>r. if p r then f r else r) (find (\<lambda>x. key x = k) (rows d))"
  using assms by (auto simp: rows_after_update find_update_rows)

end

section \<open>The tables\<close>

definition invoice_clash :: "invoice \<Rightarrow> invoice \<Rightarrow> bool" where
  "invoice_clash r s \<longleftrightarrow>
     inv_id r = inv_id s \<or>
     (inv_externalId r \<noteq> None \<and> inv_externalId r = inv_externalId s \<and>
      inv_organizationId r = inv_organizationId s)"

definition payment_clash :: "payment \<Rightarrow> payment \<Rightarrow> bool" where
  "payment_clash r s \<longleftrightarrow>
     pay_id r = pay_id s \<or>
     (pay_txHash r \<noteq> None \<and> pay_txHash r = pay_txHash s \<and> pay_network r = pay_network s)"

definition wallet_clash :: "wallet_address \<Rightarrow> wallet_address \<Rightarrow> bool" where
  "wallet_clash r s \<longleftrightarrow>
     wal_id r = wal_id s \<or>
     (wal_organizationId r = wal_organizationId s \<and> wal_network r = wal_network s \<and>
      wal_token r = wal_token s)"

definition delivery_clash :: "webhook_delivery \<Rightarrow> webhook_delivery \<Rightarrow> bool" where
  "delivery_clash r s \<longleftrightarrow>
     whd_id r = whd_id s \<or>
     (whd_eventId r = whd_eventId s \<and> whd_endpointId r = whd_endpointId s)"

definition user_clash :: "user \<Rightarrow> user \<Rightarrow> bool" where
  "user_clash r s \<longleftrightarrow> usr_id r = usr_id s \<or> usr_email r = usr_email s"

definition refresh_clash :: "refresh_token \<Rightarrow> refresh_token \<Rightarrow> bool" where
  "refresh_clash r s \<longleftrightarrow> rt_id r = rt_id s \<or> rt_tokenHash r = rt_tokenHash s \<or>
     (rt_replacedById r \<noteq> None \<and> rt_replacedById r = rt_replacedById s)"

definition email_token_clash :: "email_token \<Rightarrow> email_token \<Rightarrow> bool" where
  "email_token_clash r s \<longleftrightarrow> et_id r = et_id s \<or> et_tokenHash r = et_tokenHash s"

definition organization_clash :: "organization \<Rightarrow> organization \<Rightarrow> bool" where
  "organization_clash r s \<longleftrightarrow> org_id r = org_id s \<or> org_slug r = org_slug s"

definition membership_clash :: "membership \<Rightarrow> membership \<Rightarrow> bool" where
  "membership_clash r s \<longleftrightarrow> mem_id r = mem_id s \<or>
     (mem_userId r = mem_userId s \<and> mem_organizationId r = mem_organizationId s)"

definition api_key_clash :: "api_key \<Rightarrow> api_key \<Rightarrow> bool" where
  "api_key_clash r s \<longleftrightarrow> key_id r = key_id s \<or> key_hash r = key_hash s"

interpretation invoice_tbl: table invoices invoices_update invoice_clash inv_id
  by unfold_locales (simp_all add: invoice_clash_def)

interpretation payment_tbl: table payments payments_update payment_clash pay_id
  by unfold_locales (simp_all add: payment_clash_def)

interpretation wallet_tbl: table wallets wallets_update wallet_clash
    "\<lambda>w. (wal_organizationId w, wal_network w, wal_token w)"
  by unfold_locales (simp_all add: wallet_clash_def)

interpretation cursor_tbl: table cursors cursors_update
    "\<lambda>r s. cur_network r = cur_network s" cur_network
  by unfold_locales simp_all

interpretation event_tbl: table events events_update "\<lambda>r s. evt_id r = evt_id s" evt_id
  by unfold_locales simp_all

interpretation endpoint_tbl: table endpoints endpoints_update "\<lambda>r s. we_id r = we_id s" we_id
  by unfold_locales simp_all

interpretation delivery_tbl: table deliveries deliveries_update delivery_clash whd_id
  by unfold_locales (simp_all add: delivery_clash_def)

interpretation delivery_pair_tbl: table deliveries deliveries_update delivery_clash
    "\<lambda>d. (whd_eventId d, whd_endpointId d)"
  by unfold_locales (simp_all add: delivery_clash_def)

interpretation user_tbl: table users users_update user_clash usr_id
  by unfold_locales (simp_all add: user_clash_def)

interpretation refresh_tbl: table refreshTokens refreshTokens_update refresh_clash rt_tokenHash
  by unfold_locales (simp_all add: refresh_clash_def)

interpretation email_token_tbl: table emailTokens emailTokens_update email_token_clash et_tokenHash
  by unfold_locales (simp_all add: email_token_clash_def)

interpretation organization_tbl: table organizations organizations_update organization_clash org_slug
  by unfold_locales (simp_all add: organization_clash_def)

interpretation membership_tbl: table memberships memberships_update membership_clash
    "\<lambda>m. (mem_userId m, mem_organizationId m)"
  by unfold_locales (simp_all add: membership_clash_def)

interpretation api_key_tbl: table apiKeys apiKeys_update api_key_clash key_hash
  by unfold_locales (simp_all add: api_key_clash_def)

section \<open>What one pass takes from its environment\<close>

text \<open>
  A pass reads the clock, draws random bytes for the identifiers it generates (named here by
  the identifier's prefix and the object it is for), and prints decimals
  (\<open>Decimal.toString\<close> of decimal.js). One clock reading stands for a whole pass.
\<close>

record pass_env =
  pe_now :: millis
  pe_randomBytes :: "string \<Rightarrow> string \<Rightarrow> nat list"
  pe_decimalToString :: "decimal \<Rightarrow> string"

definition newId :: "pass_env \<Rightarrow> string \<Rightarrow> string \<Rightarrow> ident" where
  "newId env prefix object = generateId prefix (pe_randomBytes env prefix object)"

section \<open>The updates the pipeline makes\<close>

text \<open>
  \<open>prisma.invoice.update({ where: { id }, data })\<close> and its payment counterpart; Prisma
  sets the \<open>@updatedAt\<close> column of a row it updates.
\<close>

definition update_invoice :: "millis \<Rightarrow> ident \<Rightarrow> (invoice \<Rightarrow> invoice) \<Rightarrow> unit db_op" where
  [eff_defs]: "update_invoice now i f =
     update_row invoices invoices_update (\<lambda>r. inv_id r = i) (\<lambda>r. (f r)\<lparr>inv_updatedAt := now\<rparr>)"

definition update_payment :: "millis \<Rightarrow> ident \<Rightarrow> (payment \<Rightarrow> payment) \<Rightarrow> unit db_op" where
  [eff_defs]: "update_payment now i f =
     update_row payments payments_update (\<lambda>r. pay_id r = i) (\<lambda>r. (f r)\<lparr>pay_updatedAt := now\<rparr>)"

definition create_payment :: "payment \<Rightarrow> unit db_op" where
  [eff_defs]: "create_payment r = create_row payments payments_update payment_clash r"

definition create_event :: "webhook_event \<Rightarrow> unit db_op" where
  [eff_defs]: "create_event r = create_row events events_update (\<lambda>r s. evt_id r = evt_id s) r"

end
