(* ===== verification/Chain.thy ===== *)
theory Chain
  imports Store
begin

text \<open>
  \<open>packages/blockchain\<close>: the \<open>BlockchainAdapter\<close> interface
  (\<open>blockchain-adapter.ts\<close>), the in-memory fake chain (\<open>fake-blockchain-adapter.ts\<close>),
  the EVM adapter (\<open>evm-blockchain-adapter.ts\<close>), the token registry and the adapter
  registry. The RPC client and the address and unit helpers of viem are a parameter (the
  record \<open>viem\<close>); the clock and the random bytes are arguments.

  The locale \<open>chain_source\<close> is what the payment pipeline relies on of an adapter; both
  adapters are interpretations of it.
\<close>

section \<open>The adapter interface\<close>

record token_transfer = amount_transfer +
  tr_txHash :: string
  tr_fromAddress :: string
  tr_blockNumber :: int

datatype transaction_status = Tx_pending | Tx_success | Tx_failed

record blockchain_transaction =
  tx_hash :: string
  tx_blockNumber :: int
  tx_status :: transaction_status

text \<open>
  An adapter as the pipeline sees it during one pass: what each of its methods answers.
\<close>

record chain_adapter =
  validateAddress :: "string \<Rightarrow> bool"
  getLatestBlock :: "thrown + int"
  getTransaction :: "string \<Rightarrow> thrown + blockchain_transaction option"
  getTokenTransfers :: "int \<Rightarrow> int \<Rightarrow> thrown + token_transfer list"
  getConfirmations :: "string \<Rightarrow> thrown + int"

text \<open>
  The contract: a ranged scan returns transfers of the range only, and a confirmation count
  is never negative. \<open>ok\<close> is the adapter's own well-formedness.
\<close>

locale chain_source =
  fixes ok :: "'c \<Rightarrow> bool"
    and adapter :: "'c \<Rightarrow> chain_adapter"
  assumes transfers_in_range:
      "ok c \<Longrightarrow> getTokenTransfers (adapter c) a b = Inr ts \<Longrightarrow> t \<in> set ts \<Longrightarrow>
       a \<le> tr_blockNumber t \<and> tr_blockNumber t \<le> b"
    and confirmations_nonneg:
      "ok c \<Longrightarrow> getConfirmations (adapter c) h = Inr n \<Longrightarrow> 0 \<le> n"
begin

text \<open>Consecutive ranges never return the same block twice.\<close>

lemma ranges_disjoint:
  assumes "ok c" and "ok d" and "b < a'"
    and "getTokenTransfers (adapter c) a b = Inr ts" and "getTokenTransfers (adapter d) a' b' = Inr us"
    and "t \<in> set ts" and "u \<in> set us"
  shows "tr_blockNumber t < tr_blockNumber u"
proof -
  have "tr_blockNumber t \<le> b" using transfers_in_range assms(1,4,6) by blast
  moreover have "a' \<le> tr_blockNumber u" using transfers_in_range assms(2,5,7) by blast
  ultimately show ?thesis using assms(3) by linarith
qed

lemma empty_range:
  assumes "ok c" and "b < a" and "getTokenTransfers (adapter c) a b = Inr ts"
  shows "ts = []"
proof (cases ts)
  case Nil
  then show ?thesis .
next
  case (Cons t ts')
  with assms transfers_in_range [OF assms(1,3), of t] show ?thesis by simp
qed

end

section \<open>The fake chain\<close>

record fake_chain =
  fc_blockTimeMs :: int
  fc_genesisTimestamp :: millis
  fc_transfersByTxHash :: "string \<rightharpoonup> token_transfer"
  fc_transfersByBlock :: "int \<rightharpoonup> token_transfer list"

definition new_fake_chain :: "int option \<Rightarrow> millis \<Rightarrow> fake_chain" where
  "new_fake_chain blockTimeMs now =
     \<lparr>fc_blockTimeMs = (case blockTimeMs of None \<Rightarrow> 2000 | Some b \<Rightarrow> b),
      fc_genesisTimestamp = now,
      fc_transfersByTxHash = Map.empty, fc_transfersByBlock = Map.empty\<rparr>"

definition fake_currentBlock :: "fake_chain \<Rightarrow> millis \<Rightarrow> int" where
  "fake_currentBlock fc now = max 0 ((now - fc_genesisTimestamp fc) div fc_blockTimeMs fc)"

definition is_hex_char :: "char \<Rightarrow> bool" where
  "is_hex_char c =
     (let n = (of_char c :: nat)
      in (48 \<le> n \<and> n \<le> 57) \<or> (65 \<le> n \<and> n \<le> 70) \<or> (97 \<le> n \<and> n \<le> 102))"

definition fake_validateAddress :: "string \<Rightarrow> bool" where
  "fake_validateAddress address =
     (take 2 address = ''0x'' \<and> length address = 42 \<and> list_all is_hex_char (drop 2 address))"

definition fake_getTransaction :: "fake_chain \<Rightarrow> string \<Rightarrow> thrown + blockchain_transaction option" where
  "fake_getTransaction fc txHash =
     (case fc_transfersByTxHash fc txHash of
        None \<Rightarrow> Inr None
      | Some t \<Rightarrow> Inr (Some \<lparr>tx_hash = tr_txHash t, tx_blockNumber = tr_blockNumber t,
                                tx_status = Tx_success\<rparr>))"

definition fake_blockTransfers :: "fake_chain \<Rightarrow> int \<Rightarrow> token_transfer list" where
  "fake_blockTransfers fc block =
     (case fc_transfersByBlock fc block of None \<Rightarrow> [] | Some ts \<Rightarrow> ts)"

definition fake_getTokenTransfers :: "fake_chain \<Rightarrow> int \<Rightarrow> int \<Rightarrow> thrown + token_transfer list" where
  "fake_getTokenTransfers fc fromBlock toBlock =
     Inr (concat (map (fake_blockTransfers fc) [fromBlock..toBlock]))"

definition fake_getConfirmations :: "fake_chain \<Rightarrow> millis \<Rightarrow> string \<Rightarrow> thrown + int" where
  "fake_getConfirmations fc now txHash =
     (case fc_transfersByTxHash fc txHash of
        None \<Rightarrow> Inl (AppThrown (not_found_error (''No fake transaction found for tx hash '' @ txHash)))
      | Some t \<Rightarrow> Inr (max 0 (fake_currentBlock fc now - tr_blockNumber t)))"

definition fake_adapter :: "fake_chain \<Rightarrow> millis \<Rightarrow> chain_adapter" where
  "fake_adapter fc now =
     \<lparr>validateAddress = fake_validateAddress,
      getLatestBlock = Inr (fake_currentBlock fc now),
      getTransaction = fake_getTransaction fc,
      getTokenTransfers = fake_getTokenTransfers fc,
      getConfirmations = fake_getConfirmations fc now\<rparr>"

text \<open>
  \<open>simulatePayment\<close>: \<open>randomHex\<close> is \<open>randomBytes(28).toString('hex')\<close> and
  \<open>fakeAddress\<close> the result of \<open>generateFakeAddress()\<close>.
\<close>

record simulate_input = amount_transfer +
  sim_fromAddress :: "string option"

definition fake_simulatePayment ::
    "fake_chain \<Rightarrow> millis \<Rightarrow> string \<Rightarrow> string \<Rightarrow> simulate_input \<Rightarrow> token_transfer \<times> fake_chain" where
  "fake_simulatePayment fc now randomHex fakeAddress input =
     (let transfer =
        \<lparr>tr_network = tr_network input, tr_token = tr_token input,
         tr_toAddress = tr_toAddress input, tr_amount = tr_amount input,
         tr_txHash = ''0xfake'' @ randomHex,
         tr_fromAddress = (case sim_fromAddress input of None \<Rightarrow> fakeAddress | Some a \<Rightarrow> a),
         tr_blockNumber = fake_currentBlock fc now\<rparr>;
        atBlock = fake_blockTransfers fc (tr_blockNumber transfer)
      in (transfer,
          fc\<lparr>fc_transfersByTxHash := (fc_transfersByTxHash fc)(tr_txHash transfer \<mapsto> transfer),
             fc_transfersByBlock :=
               (fc_transfersByBlock fc)(tr_blockNumber transfer \<mapsto> atBlock @ [transfer])\<rparr>))"

text \<open>Well-formedness: every recorded transfer sits under its own block and hash.\<close>

definition fake_wf :: "fake_chain \<Rightarrow> bool" where
  "fake_wf fc \<longleftrightarrow>
     0 < fc_blockTimeMs fc \<and>
     (\<forall>b. \<forall>t \<in> set (fake_blockTransfers fc b). tr_blockNumber t = b) \<and>
     (\<forall>h t. fc_transfersByTxHash fc h = Some t \<longrightarrow>
        tr_txHash t = h \<and> t \<in> set (fake_blockTransfers fc (tr_blockNumber t)))"

lemma new_fake_chain_wf: "0 < (case b of None \<Rightarrow> 2000 | Some b \<Rightarrow> b) \<Longrightarrow> fake_wf (new_fake_chain b now)"
  by (simp add: fake_wf_def new_fake_chain_def fake_blockTransfers_def)

lemma fake_simulatePayment_blocks:
  "fake_blockTransfers (snd (fake_simulatePayment fc now hex addr input)) b =
   (if b = fake_currentBlock fc now
    then fake_blockTransfers fc b @ [fst (fake_simulatePayment fc now hex addr input)]
    else fake_blockTransfers fc b)"
  by (simp add: fake_simulatePayment_def fake_blockTransfers_def Let_def)

lemma fake_simulatePayment_transfer:
  "tr_blockNumber (fst (fake_simulatePayment fc now hex addr input)) = fake_currentBlock fc now"
  "tr_txHash (fst (fake_simulatePayment fc now hex addr input)) = ''0xfake'' @ hex"
  "tr_network (fst (fake_simulatePayment fc now hex addr input)) = tr_network input"
  "tr_token (fst (fake_simulatePayment fc now hex addr input)) = tr_token input"
  "tr_toAddress (fst (fake_simulatePayment fc now hex addr input)) = tr_toAddress input"
  "tr_amount (fst (fake_simulatePayment fc now hex addr input)) = tr_amount input"
  by (simp_all add: fake_simulatePayment_def Let_def)

lemma fake_simulatePayment_byTxHash:
  "fc_transfersByTxHash (snd (fake_simulatePayment fc now hex addr input)) =
   (fc_transfersByTxHash fc)(''0xfake'' @ hex \<mapsto> fst (fake_simulatePayment fc now hex addr input))"
  by (simp add: fake_simulatePayment_def Let_def)

lemma fake_simulatePayment_clock:
  "fc_blockTimeMs (snd (fake_simulatePayment fc now hex addr input)) = fc_blockTimeMs fc"
  "fake_currentBlock (snd (fake_simulatePayment fc now hex addr input)) = fake_currentBlock fc"
  by (simp_all add: fake_simulatePayment_def fake_currentBlock_def Let_def fun_eq_iff)

lemma fake_simulatePayment_wf:
  assumes "fake_wf fc"
  shows "fake_wf (snd (fake_simulatePayment fc now hex addr input))"
proof -
  have old: "tr_txHash t = h \<and> t \<in> set (fake_blockTransfers fc (tr_blockNumber t))"
    if "fc_transfersByTxHash fc h = Some t" for h t
    using assms that by (auto simp: fake_wf_def)
  have "tr_txHash t = h \<and>
      t \<in> set (fake_blockTransfers (snd (fake_simulatePayment fc now hex addr input)) (tr_blockNumber t))"
    if "fc_transfersByTxHash (snd (fake_simulatePayment fc now hex addr input)) h = Some t" for h t
  proof (cases "h = ''0xfake'' @ hex")
    case True
    with that show ?thesis
      by (auto simp: fake_simulatePayment_byTxHash fake_simulatePayment_blocks
          fake_simulatePayment_transfer)
  next
    case False
    with that have "fc_transfersByTxHash fc h = Some t"
      by (simp add: fake_simulatePayment_byTxHash split: if_splits)
    from old [OF this] show ?thesis by (auto simp: fake_simulatePayment_blocks)
  qed
  with assms show ?thesis
    by (auto simp: fake_wf_def fake_simulatePayment_blocks fake_simulatePayment_transfer
        fake_simulatePayment_clock)
qed

interpretation fake_source: chain_source "\<lambda>(fc, now). fake_wf fc" "\<lambda>(fc, now). fake_adapter fc now"
proof
  fix c :: "fake_chain \<times> millis" and a b ts t h n
  obtain fc now where c: "c = (fc, now)" by (cases c)
  assume ok: "case c of (fc, now) \<Rightarrow> fake_wf fc"
  show "a \<le> tr_blockNumber t \<and> tr_blockNumber t \<le> b"
    if "getTokenTransfers (case c of (fc, now) \<Rightarrow> fake_adapter fc now) a b = Inr ts" and "t \<in> set ts"
    using that ok by (auto simp: c fake_adapter_def fake_getTokenTransfers_def fake_wf_def)
  show "0 \<le> n"
    if "getConfirmations (case c of (fc, now) \<Rightarrow> fake_adapter fc now) h = Inr n"
    using that by (auto simp: c fake_adapter_def fake_getConfirmations_def split: option.splits)
qed

lemma fake_currentBlock_mono:
  assumes "fake_wf fc" and "t \<le> t'"
  shows "fake_currentBlock fc t \<le> fake_currentBlock fc t'"
proof -
  have "(t - fc_genesisTimestamp fc) div fc_blockTimeMs fc \<le> (t' - fc_genesisTimestamp fc) div fc_blockTimeMs fc"
    using assms by (intro zdiv_mono1) (auto simp: fake_wf_def)
  then show ?thesis by (simp add: fake_currentBlock_def)
qed

section \<open>The token registry\<close>

record token_config =
  tc_contractAddress :: string
  tc_decimals :: nat

definition TOKEN_REGISTRY :: "(string \<times> (string \<times> token_config) list) list" where
  "TOKEN_REGISTRY =
     [(''base'',
       [(''USDC'', \<lparr>tc_contractAddress = ''0x036CbD53842c5426634e7929541eC2318f3dCF7e'',
                     tc_decimals = 6\<rparr>)])]"

definition getTokensForNetwork :: "string \<Rightarrow> (string \<times> token_config) list" where
  "getTokensForNetwork network =
     (case map_of TOKEN_REGISTRY network of None \<Rightarrow> [] | Some ts \<Rightarrow> ts)"

definition getTokenConfig :: "string \<Rightarrow> string \<Rightarrow> thrown + token_config" where
  "getTokenConfig network token =
     (case Option.bind (map_of TOKEN_REGISTRY network) (\<lambda>ts. map_of ts token) of
        None \<Rightarrow> Inl (AppThrown (validation_error
                  (''No token contract configured for '' @ token @ '' on '' @ network) None))
      | Some config \<Rightarrow> Inr config)"

section \<open>The EVM adapter\<close>

record evm_receipt =
  rcp_transactionHash :: string
  rcp_blockNumber :: int
  rcp_success :: bool

datatype receipt_answer = Receipt evm_receipt | ReceiptNotFound | ReceiptFailed thrown

record evm_log =
  log_transactionHash :: "string option"
  log_blockNumber :: "int option"
  log_from :: string
  log_to :: string
  log_value :: int

text \<open>
  What the adapter uses of viem: the RPC calls (a call may throw) and the helpers
  \<open>isAddress\<close> and \<open>formatUnits\<close>.
\<close>

record viem =
  vm_isAddress :: "string \<Rightarrow> bool"
  vm_formatUnits :: "int \<Rightarrow> nat \<Rightarrow> decimal"
  vm_getBlockNumber :: "thrown + int"
  vm_getTransactionReceipt :: "string \<Rightarrow> receipt_answer"
  vm_getTransaction :: "string \<Rightarrow> thrown + (string \<times> int option)"
  vm_getLogs :: "string \<Rightarrow> int \<Rightarrow> int \<Rightarrow> thrown + evm_log list"

definition evm_getTransaction :: "viem \<Rightarrow> string \<Rightarrow> thrown + blockchain_transaction option" where
  "evm_getTransaction v txHash =
     (case vm_getTransactionReceipt v txHash of
        Receipt r \<Rightarrow>
          Inr (Some \<lparr>tx_hash = rcp_transactionHash r, tx_blockNumber = rcp_blockNumber r,
                     tx_status = (if rcp_success r then Tx_success else Tx_failed)\<rparr>)
      | ReceiptFailed e \<Rightarrow> Inl e
      | ReceiptNotFound \<Rightarrow>
          (case vm_getTransaction v txHash of
             Inr (h, b) \<Rightarrow>
               Inr (Some \<lparr>tx_hash = h, tx_blockNumber = (case b of None \<Rightarrow> 0 | Some n \<Rightarrow> n),
                          tx_status = Tx_pending\<rparr>)
           | Inl _ \<Rightarrow> Inr None))"

definition evm_decode_log ::
    "viem \<Rightarrow> string \<Rightarrow> string \<Rightarrow> token_config \<Rightarrow> evm_log \<Rightarrow> token_transfer list" where
  "evm_decode_log v network token config l =
     (case (log_transactionHash l, log_blockNumber l) of
        (Some h, Some b) \<Rightarrow>
          if h = [] then []
          else [\<lparr>tr_network = network, tr_token = token, tr_toAddress = log_to l,
                 tr_amount = vm_formatUnits v (log_value l) (tc_decimals config),
                 tr_txHash = h, tr_fromAddress = log_from l, tr_blockNumber = b\<rparr>]
      | _ \<Rightarrow> [])"

fun evm_scan_tokens ::
    "viem \<Rightarrow> string \<Rightarrow> int \<Rightarrow> int \<Rightarrow> (string \<times> token_config) list \<Rightarrow> thrown + token_transfer list" where
  "evm_scan_tokens v network fromBlock toBlock [] = Inr []"
| "evm_scan_tokens v network fromBlock toBlock ((token, config) # tokens) =
     (case vm_getLogs v (tc_contractAddress config) fromBlock toBlock of
        Inl e \<Rightarrow> Inl e
      | Inr logs \<Rightarrow>
          (case evm_scan_tokens v network fromBlock toBlock tokens of
             Inl e \<Rightarrow> Inl e
           | Inr rest \<Rightarrow> Inr (concat (map (evm_decode_log v network token config) logs) @ rest)))"

definition evm_getTokenTransfers :: "viem \<Rightarrow> string \<Rightarrow> int \<Rightarrow> int \<Rightarrow> thrown + token_transfer list" where
  "evm_getTokenTransfers v network fromBlock toBlock =
     evm_scan_tokens v network fromBlock toBlock (getTokensForNetwork network)"

definition evm_getConfirmations :: "viem \<Rightarrow> string \<Rightarrow> thrown + int" where
  "evm_getConfirmations v txHash =
     (case vm_getTransactionReceipt v txHash of
        ReceiptNotFound \<Rightarrow>
          Inl (AppThrown (not_found_error (''No transaction found for tx hash '' @ txHash)))
      | ReceiptFailed e \<Rightarrow> Inl e
      | Receipt r \<Rightarrow>
          (case vm_getBlockNumber v of
             Inl e \<Rightarrow> Inl e
           | Inr latestBlock \<Rightarrow> Inr (max 0 (latestBlock - rcp_blockNumber r + 1))))"

definition evm_adapter :: "viem \<Rightarrow> string \<Rightarrow> chain_adapter" where
  "evm_adapter v network =
     \<lparr>validateAddress = vm_isAddress v,
      getLatestBlock = vm_getBlockNumber v,
      getTransaction = evm_getTransaction v,
      getTokenTransfers = evm_getTokenTransfers v network,
      getConfirmations = evm_getConfirmations v\<rparr>"

text \<open>
  Documented behaviour of \<open>eth_getLogs\<close>: the logs returned are of blocks in the range.
\<close>

definition getLogs_documented :: "viem \<Rightarrow> bool" where
  "getLogs_documented v \<longleftrightarrow>
     (\<forall>address a b logs l n. vm_getLogs v address a b = Inr logs \<longrightarrow> l \<in> set logs \<longrightarrow>
        log_blockNumber l = Some n \<longrightarrow> a \<le> n \<and> n \<le> b)"

lemma evm_decode_log_simps:
  "t \<in> set (evm_decode_log v network token config l) \<Longrightarrow>
   log_blockNumber l = Some (tr_blockNumber t) \<and> tr_network t = network \<and> tr_token t = token"
  by (auto simp: evm_decode_log_def split: option.splits if_splits)

lemma evm_scan_tokens_range:
  assumes "getLogs_documented v"
  shows "evm_scan_tokens v network a b tokens = Inr ts \<Longrightarrow> t \<in> set ts \<Longrightarrow>
    a \<le> tr_blockNumber t \<and> tr_blockNumber t \<le> b"
proof (induction tokens arbitrary: ts)
  case Nil
  then show ?case by simp
next
  case (Cons tok tokens)
  obtain token config where tok: "tok = (token, config)" by (cases tok)
  from Cons.prems(1) obtain logs rest where
    logs: "vm_getLogs v (tc_contractAddress config) a b = Inr logs"
    and rest: "evm_scan_tokens v network a b tokens = Inr rest"
    and ts: "ts = concat (map (evm_decode_log v network token config) logs) @ rest"
    by (auto simp: tok split: sum.splits)
  have "a \<le> tr_blockNumber t \<and> tr_blockNumber t \<le> b"
    if "l \<in> set logs" and "t \<in> set (evm_decode_log v network token config l)" for l
    using assms logs that evm_decode_log_simps unfolding getLogs_documented_def by metis
  then show ?case using Cons.IH [OF rest] Cons.prems(2) by (auto simp: ts)
qed

interpretation evm_source: chain_source getLogs_documented "\<lambda>v. evm_adapter v network"
proof
  fix c :: viem and a b ts t h n
  assume ok: "getLogs_documented c"
  show "a \<le> tr_blockNumber t \<and> tr_blockNumber t \<le> b"
    if "getTokenTransfers (evm_adapter c network) a b = Inr ts" and "t \<in> set ts"
    using that evm_scan_tokens_range [OF ok]
    by (simp add: evm_adapter_def evm_getTokenTransfers_def)
  show "0 \<le> n" if "getConfirmations (evm_adapter c network) h = Inr n"
    using that
    by (auto simp: evm_adapter_def evm_getConfirmations_def split: receipt_answer.splits sum.splits)
qed

text \<open>Every transfer the EVM adapter reports is of a token the registry names.\<close>

lemma evm_scan_tokens_registered:
  "evm_scan_tokens v network a b tokens = Inr ts \<Longrightarrow> t \<in> set ts \<Longrightarrow>
   tr_network t = network \<and> tr_token t \<in> fst ` set tokens"
proof (induction tokens arbitrary: ts)
  case Nil
  then show ?case by simp
next
  case (Cons tok tokens)
  obtain token config where tok: "tok = (token, config)" by (cases tok)
  from Cons.prems(1) obtain logs rest where
    rest: "evm_scan_tokens v network a b tokens = Inr rest"
    and ts: "ts = concat (map (evm_decode_log v network token config) logs) @ rest"
    by (auto simp: tok split: sum.splits)
  show ?case using Cons.IH [OF rest] Cons.prems(2)
    by (auto simp: ts tok dest: evm_decode_log_simps)
qed

section \<open>The adapter registry\<close>

datatype blockchain_mode = Mode_fake | Mode_evm

datatype adapter_instance = FakeBlockchainAdapter fake_chain | EvmBlockchainAdapter string

definition createBlockchainAdapterRegistry ::
    "blockchain_mode \<Rightarrow> int \<Rightarrow> millis \<Rightarrow> (string \<rightharpoonup> adapter_instance)" where
  "createBlockchainAdapterRegistry mode blockTimeMs now =
     [''base'' \<mapsto>
        (case mode of
           Mode_evm \<Rightarrow> EvmBlockchainAdapter ''base''
         | Mode_fake \<Rightarrow> FakeBlockchainAdapter (new_fake_chain (Some blockTimeMs) now))]"

definition registry_get :: "(string \<rightharpoonup> 'a) \<Rightarrow> string \<Rightarrow> thrown + 'a" where
  "registry_get registry network =
     (case registry network of
        None \<Rightarrow> Inl (AppThrown (validation_error (''Unsupported network: '' @ network) None))
      | Some a \<Rightarrow> Inr a)"

fun adapter_of :: "viem \<Rightarrow> millis \<Rightarrow> adapter_instance \<Rightarrow> chain_adapter" where
  "adapter_of v now (FakeBlockchainAdapter fc) = fake_adapter fc now"
| "adapter_of v now (EvmBlockchainAdapter network) = evm_adapter v network"

text \<open>On the fake chain a confirmation count only grows with time.\<close>

lemma fake_confirmations_grow:
  assumes "fake_wf fc" and "now \<le> now'"
    and "fake_getConfirmations fc now h = Inr n" and "fake_getConfirmations fc now' h = Inr n'"
  shows "n \<le> n'"
  using assms fake_currentBlock_mono [OF assms(1,2)]
  by (auto simp: fake_getConfirmations_def split: option.splits)

end
