(* ===== verification/Payment_Detect.thy ===== *)
theory Payment_Detect
  imports Chain
begin

text \<open>
  The worker's block scanner (\<open>apps/worker/src/queues/blockchain-scan.queue.ts\<close>):
  \<open>tryMatchTransfer\<close> records a payment for a transfer, \<open>runBlockchainScan\<close> drives it
  over the blocks that have not been scanned. Log calls are left out.
\<close>

section \<open>One transfer\<close>

text \<open>The rows the scanner's \<open>findMany\<close> returns for a transfer.\<close>

definition pending_candidates :: "token_transfer \<Rightarrow> store \<Rightarrow> invoice list" where
  "pending_candidates transfer s =
     filter (\<lambda>i. inv_paymentAddress i = tr_toAddress transfer \<and>
                 inv_network i = tr_network transfer \<and>
                 inv_token i = tr_token transfer \<and>
                 inv_status i = Inv_PENDING) (invoices s)"

text \<open>\<open>payment.findUnique({ where: { network_txHash } })\<close>.\<close>

definition payment_of_tx :: "string \<Rightarrow> string \<Rightarrow> store \<Rightarrow> payment option" where
  "payment_of_tx network txHash s =
     find (\<lambda>p. pay_network p = network \<and> pay_txHash p = Some txHash) (payments s)"

definition detected_payment :: "pass_env \<Rightarrow> token_transfer \<Rightarrow> invoice \<Rightarrow> payment" where
  "detected_payment env transfer i =
     \<lparr>pay_id = newId env ''pay'' (tr_txHash transfer),
      pay_invoiceId = inv_id i,
      pay_organizationId = inv_organizationId i,
      pay_network = inv_network i,
      pay_token = tr_token transfer,
      pay_expectedAmount = inv_amount i,
      pay_receivedAmount = Some (tr_amount transfer),
      pay_txHash = Some (tr_txHash transfer),
      pay_fromAddress = Some (tr_fromAddress transfer),
      pay_toAddress = tr_toAddress transfer,
      pay_blockNumber = Some (tr_blockNumber transfer),
      pay_confirmations = 0,
      pay_status = Pay_DETECTED,
      pay_detectedAt = Some (pe_now env),
      pay_confirmedAt = None,
      pay_createdAt = pe_now env,
      pay_updatedAt = pe_now env\<rparr>"

definition tryMatchTransfer :: "pass_env \<Rightarrow> token_transfer \<Rightarrow> unit db_op" where
  "tryMatchTransfer env transfer =
     seq (reads (pending_candidates transfer)) (\<lambda>candidates.
       case selectMatchingInvoice candidates transfer of
         None \<Rightarrow> ret ()
       | Some i \<Rightarrow>
           seq (reads (payment_of_tx (inv_network i) (tr_txHash transfer))) (\<lambda>alreadySeen.
             if alreadySeen \<noteq> None then ret ()
             else
               seq (lift (assertPaymentTransition Pay_PENDING Pay_DETECTED)) (\<lambda>_.
               seq (lift (assertInvoiceTransition Inv_PENDING Inv_DETECTED)) (\<lambda>_.
               transaction
                 [create_payment (detected_payment env transfer i),
                  update_invoice (pe_now env) (inv_id i)
                    (\<lambda>r. r\<lparr>inv_status := Inv_DETECTED\<rparr>)]))))"

section \<open>One scan\<close>

definition cursor_of :: "string \<Rightarrow> store \<Rightarrow> scan_cursor option" where
  "cursor_of network s = find (\<lambda>c. cur_network c = network) (cursors s)"

text \<open>\<open>blockchainScanCursor.upsert\<close>: a new cursor starts at the schema's default -1.\<close>

definition upsert_cursor :: "string \<Rightarrow> scan_cursor db_op" where
  "upsert_cursor network =
     seq (reads (cursor_of network)) (\<lambda>c.
       case c of
         Some cursor \<Rightarrow> ret cursor
       | None \<Rightarrow>
           seq (create_row cursors cursors_update (\<lambda>r s. cur_network r = cur_network s)
                  \<lparr>cur_network = network, cur_lastScannedBlock = -1\<rparr>) (\<lambda>_.
           ret \<lparr>cur_network = network, cur_lastScannedBlock = -1\<rparr>))"

definition set_cursor :: "string \<Rightarrow> int \<Rightarrow> unit db_op" where
  "set_cursor network block =
     update_row cursors cursors_update (\<lambda>c. cur_network c = network)
       (\<lambda>c. c\<lparr>cur_lastScannedBlock := block\<rparr>)"

definition runBlockchainScan :: "pass_env \<Rightarrow> chain_adapter \<Rightarrow> string \<Rightarrow> unit db_op" where
  "runBlockchainScan env adapter network =
     seq (upsert_cursor network) (\<lambda>cursor.
     seq (lift (getLatestBlock adapter)) (\<lambda>latestBlock.
       let fromBlock = cur_lastScannedBlock cursor + 1
       in if latestBlock < fromBlock then ret ()
          else
            seq (lift (getTokenTransfers adapter fromBlock latestBlock)) (\<lambda>transfers.
            seq (for_each (tryMatchTransfer env) transfers) (\<lambda>_.
            set_cursor network latestBlock))))"

section \<open>What one transfer does\<close>

text \<open>The store after a transfer was matched to the invoice \<open>i\<close>.\<close>

definition detect :: "pass_env \<Rightarrow> token_transfer \<Rightarrow> invoice \<Rightarrow> store \<Rightarrow> store" where
  "detect env transfer i s =
     s\<lparr>invoices := update_rows (\<lambda>r. inv_id r = inv_id i)
         (\<lambda>r. r\<lparr>inv_status := Inv_DETECTED, inv_updatedAt := pe_now env\<rparr>) (invoices s),
       payments := payments s @ [detected_payment env transfer i]\<rparr>"

lemma pending_candidates_selected:
  assumes "selectMatchingInvoice (pending_candidates transfer s) transfer = Some i"
  shows "i \<in> set (invoices s)" and "inv_status i = Inv_PENDING"
    and "inv_network i = tr_network transfer" and "inv_token i = tr_token transfer"
    and "inv_paymentAddress i = tr_toAddress transfer"
  using selectMatchingInvoice_Some(1) [OF assms] by (auto simp: pending_candidates_def)

lemma transaction_detect:
  assumes "i \<in> set (invoices s)"
  shows "transaction
      [create_payment (detected_payment env transfer i),
       update_invoice (pe_now env) (inv_id i) (\<lambda>r. r\<lparr>inv_status := Inv_DETECTED\<rparr>)] s =
    (if \<exists>p \<in> set (payments s). payment_clash (detected_payment env transfer i) p
     then (Inl (DbThrown UniqueViolation), s) else (Inr (), detect env transfer i s))"
  using assms
  by (auto simp: transaction_def create_payment_def update_invoice_def create_row_def update_row_def
      eff_defs list_ex_iff detect_def)

text \<open>The complete case split of \<open>tryMatchTransfer\<close>: nothing to match, a duplicate, an
  identifier collision, or a detection.\<close>

lemma tryMatchTransfer_eq:
  "tryMatchTransfer env transfer s =
   (case selectMatchingInvoice (pending_candidates transfer s) transfer of
      None \<Rightarrow> (Inr (), s)
    | Some i \<Rightarrow>
        if payment_of_tx (inv_network i) (tr_txHash transfer) s \<noteq> None then (Inr (), s)
        else if \<exists>p \<in> set (payments s). payment_clash (detected_payment env transfer i) p
        then (Inl (DbThrown UniqueViolation), s)
        else (Inr (), detect env transfer i s))"
proof (cases "selectMatchingInvoice (pending_candidates transfer s) transfer")
  case None
  then show ?thesis by (simp add: tryMatchTransfer_def seq_reads ret_def)
next
  case (Some i)
  show ?thesis
    by (simp add: tryMatchTransfer_def seq_reads Some ret_def
        transaction_detect [OF pending_candidates_selected(1) [OF Some]])
qed

lemma tryMatchTransfer_cases:
  obtains (idle) "tryMatchTransfer env transfer s = (Inr (), s)"
  | (clash) "tryMatchTransfer env transfer s = (Inl (DbThrown UniqueViolation), s)"
  | (detected) i where
      "tryMatchTransfer env transfer s = (Inr (), detect env transfer i s)"
      "selectMatchingInvoice (pending_candidates transfer s) transfer = Some i"
      "\<forall>p \<in> set (payments s). \<not> payment_clash (detected_payment env transfer i) p"
  by (atomize_elim, subst (1 2 3) tryMatchTransfer_eq) (auto split: option.splits)

end
