(* ===== verification/Payment_Confirm.thy ===== *)
theory Payment_Confirm
  imports Chain
begin

text \<open>
  The worker's confirmation pass (\<open>apps/worker/src/queues/payment-confirm.queue.ts\<close>):
  expiry of overdue invoices, then one step for every payment that is not final. A payment
  is processed from the snapshot \<open>findMany\<close> returned with its invoice; the writes go to the
  store. Log calls are left out.
\<close>

definition REORG_GRACE_MS :: int where
  "REORG_GRACE_MS = 10 * 60 * 1000"

section \<open>Webhook events\<close>

definition event_for ::
    "pass_env \<Rightarrow> invoice \<Rightarrow> string \<Rightarrow> invoice_status \<Rightarrow> string option \<Rightarrow> webhook_event" where
  "event_for env i type status txHash =
     \<lparr>evt_id = newId env ''evt'' (inv_id i),
      evt_organizationId = inv_organizationId i,
      evt_invoiceId = inv_id i,
      evt_type = type,
      evt_data =
        \<lparr>ed_invoice_id = inv_id i,
         ed_external_id = inv_externalId i,
         ed_amount = pe_decimalToString env (inv_amount i),
         ed_currency = inv_currency i,
         ed_network = inv_network i,
         ed_status = to_lower (invoice_status_name status),
         ed_tx_hash = txHash\<rparr>,
      evt_createdAt = pe_now env\<rparr>"

definition createWebhookEvent ::
    "pass_env \<Rightarrow> invoice \<Rightarrow> string \<Rightarrow> invoice_status \<Rightarrow> string option \<Rightarrow> unit db_op" where
  "createWebhookEvent env i type status txHash = create_event (event_for env i type status txHash)"

section \<open>Expiry\<close>

definition overdue_invoices :: "millis \<Rightarrow> store \<Rightarrow> invoice list" where
  "overdue_invoices now s = filter (\<lambda>i. inv_status i = Inv_PENDING \<and> inv_expiresAt i < now) (invoices s)"

definition expire_invoice :: "pass_env \<Rightarrow> invoice \<Rightarrow> unit db_op" where
  "expire_invoice env i =
     seq (lift (assertInvoiceTransition Inv_PENDING Inv_EXPIRED)) (\<lambda>_.
     transaction
       [update_invoice (pe_now env) (inv_id i) (\<lambda>r. r\<lparr>inv_status := Inv_EXPIRED\<rparr>),
        createWebhookEvent env i ''invoice.expired'' Inv_EXPIRED None])"

definition expireOverdueInvoices :: "pass_env \<Rightarrow> unit db_op" where
  "expireOverdueInvoices env =
     seq (reads (overdue_invoices (pe_now env))) (for_each (expire_invoice env))"

section \<open>The steps of a payment\<close>

definition failPayment :: "pass_env \<Rightarrow> payment \<Rightarrow> invoice \<Rightarrow> unit db_op" where
  "failPayment env p i =
     seq (lift (assertPaymentTransition (pay_status p) Pay_FAILED)) (\<lambda>_.
     seq (lift (assertInvoiceTransition (inv_status i) Inv_FAILED)) (\<lambda>_.
     transaction
       [update_payment (pe_now env) (pay_id p) (\<lambda>r. r\<lparr>pay_status := Pay_FAILED\<rparr>),
        update_invoice (pe_now env) (pay_invoiceId p) (\<lambda>r. r\<lparr>inv_status := Inv_FAILED\<rparr>)]))"

definition handleMissingTransaction :: "pass_env \<Rightarrow> payment \<Rightarrow> invoice \<Rightarrow> unit db_op" where
  "handleMissingTransaction env p i =
     (if pay_status p = Pay_DETECTED then failPayment env p i
      else if pay_status p = Pay_CONFIRMING then
        seq (lift (assertPaymentTransition Pay_CONFIRMING Pay_REORG_DETECTED)) (\<lambda>_.
        update_payment (pe_now env) (pay_id p) (\<lambda>r. r\<lparr>pay_status := Pay_REORG_DETECTED\<rparr>))
      else if pe_now env - pay_updatedAt p \<ge> REORG_GRACE_MS then failPayment env p i
      else ret ())"

definition moveToConfirming :: "pass_env \<Rightarrow> payment \<Rightarrow> invoice \<Rightarrow> int \<Rightarrow> unit db_op" where
  "moveToConfirming env p i confirmations =
     seq (lift (assertPaymentTransition (pay_status p) Pay_CONFIRMING)) (\<lambda>_.
     seq (if inv_status i \<noteq> Inv_CONFIRMING
          then lift (assertInvoiceTransition (inv_status i) Inv_CONFIRMING)
          else ret ()) (\<lambda>_.
     transaction
       [update_payment (pe_now env) (pay_id p)
          (\<lambda>r. r\<lparr>pay_status := Pay_CONFIRMING, pay_confirmations := confirmations\<rparr>),
        update_invoice (pe_now env) (pay_invoiceId p) (\<lambda>r. r\<lparr>inv_status := Inv_CONFIRMING\<rparr>)]))"

text \<open>The three outcomes of an amount, as \<open>finalizePayment\<close> maps them.\<close>

fun final_payment_status :: "payment_amount_match \<Rightarrow> payment_status" where
  "final_payment_status Exact = Pay_CONFIRMED"
| "final_payment_status Underpaid = Pay_UNDERPAID"
| "final_payment_status Overpaid = Pay_OVERPAID"

fun final_invoice_status :: "payment_amount_match \<Rightarrow> invoice_status" where
  "final_invoice_status Exact = Inv_PAID"
| "final_invoice_status Underpaid = Inv_UNDERPAID"
| "final_invoice_status Overpaid = Inv_OVERPAID"

fun final_event_type :: "payment_amount_match \<Rightarrow> string" where
  "final_event_type Exact = ''payment.paid''"
| "final_event_type Underpaid = ''payment.underpaid''"
| "final_event_type Overpaid = ''payment.overpaid''"

definition payment_outcome :: "payment \<Rightarrow> payment_amount_match" where
  "payment_outcome p =
     evaluatePaymentAmount (pay_expectedAmount p)
       (case pay_receivedAmount p of None \<Rightarrow> 0 | Some a \<Rightarrow> a)"

definition finalizePayment :: "pass_env \<Rightarrow> payment \<Rightarrow> invoice \<Rightarrow> int \<Rightarrow> unit db_op" where
  "finalizePayment env p i confirmations =
     (let outcome = payment_outcome p;
          paymentStatus = final_payment_status outcome;
          invoiceStatus = final_invoice_status outcome;
          eventType = final_event_type outcome
      in seq (lift (assertPaymentTransition Pay_CONFIRMING paymentStatus)) (\<lambda>_.
         seq (lift (assertInvoiceTransition Inv_CONFIRMING invoiceStatus)) (\<lambda>_.
         transaction
           [update_payment (pe_now env) (pay_id p)
              (\<lambda>r. r\<lparr>pay_status := paymentStatus, pay_confirmations := confirmations,
                     pay_confirmedAt := Some (pe_now env)\<rparr>),
            update_invoice (pe_now env) (pay_invoiceId p)
              (\<lambda>r. if invoiceStatus = Inv_PAID
                   then r\<lparr>inv_status := invoiceStatus, inv_paidAt := Some (pe_now env)\<rparr>
                   else r\<lparr>inv_status := invoiceStatus\<rparr>),
            createWebhookEvent env i eventType invoiceStatus (pay_txHash p)])))"

section \<open>The pass\<close>

text \<open>\<open>findMany({ where: { status: { in: [...] } }, include: { invoice: true } })\<close>.\<close>

definition is_active :: "payment \<Rightarrow> bool" where
  "is_active p \<longleftrightarrow> pay_status p \<in> {Pay_DETECTED, Pay_CONFIRMING, Pay_REORG_DETECTED}"

fun attach_invoices :: "store \<Rightarrow> payment list \<Rightarrow> thrown + (payment \<times> invoice) list" where
  "attach_invoices s [] = Inr []"
| "attach_invoices s (p # ps) =
     (case find (\<lambda>i. inv_id i = pay_invoiceId p) (invoices s) of
        None \<Rightarrow> Inl (DbThrown InconsistentRelation)
      | Some i \<Rightarrow>
          (case attach_invoices s ps of Inl e \<Rightarrow> Inl e | Inr rest \<Rightarrow> Inr ((p, i) # rest)))"

definition confirm_payment ::
    "pass_env \<Rightarrow> chain_adapter \<Rightarrow> int \<Rightarrow> payment \<times> invoice \<Rightarrow> unit db_op" where
  "confirm_payment env adapter requiredConfirmations = (\<lambda>(p, i).
     (case pay_txHash p of
        None \<Rightarrow> ret ()
      | Some txHash \<Rightarrow>
          if txHash = [] then ret ()
          else
            (case getConfirmations adapter txHash of
               Inl e \<Rightarrow>
                 if is_NotFoundError e then handleMissingTransaction env p i else throw e
             | Inr confirmations \<Rightarrow>
                 if pay_status p = Pay_REORG_DETECTED then moveToConfirming env p i confirmations
                 else if pay_status p = Pay_DETECTED then moveToConfirming env p i confirmations
                 else if confirmations < requiredConfirmations then
                   (if confirmations \<noteq> pay_confirmations p
                    then update_payment (pe_now env) (pay_id p)
                           (\<lambda>r. r\<lparr>pay_confirmations := confirmations\<rparr>)
                    else ret ())
                 else finalizePayment env p i confirmations)))"

definition runPaymentConfirm :: "pass_env \<Rightarrow> chain_adapter \<Rightarrow> int \<Rightarrow> unit db_op" where
  "runPaymentConfirm env adapter requiredConfirmations =
     seq (expireOverdueInvoices env) (\<lambda>_.
     seq (\<lambda>s. (attach_invoices s (filter is_active (payments s)), s)) (\<lambda>active.
     for_each (confirm_payment env adapter requiredConfirmations) active))"

end
