(* ===== verification/Pipeline.thy ===== *)
theory Pipeline
  imports Payment_Detect Payment_Confirm
begin

text \<open>
  The contract of the payment pipeline. \<open>life_step\<close> is the abstract life of one invoice:
  its status, the statuses of its payments and the webhook events that were emitted for it.
  \<open>pipe_step\<close> lists the writes a pipeline makes to the store, each to the rows of one
  invoice; \<open>pipeline_inv\<close> is the invariant the writes keep. A pass of the worker or of the
  API's in-process pipeline is shown to be a sequence of such writes, whether it ends
  normally or with an exception, so what is proved here of \<open>pipe_step\<close> holds for both.
\<close>

section \<open>The rows of one invoice\<close>

definition inv_row :: "store \<Rightarrow> ident \<Rightarrow> invoice option" where
  "inv_row s k = find (\<lambda>i. inv_id i = k) (invoices s)"

definition pays_of :: "store \<Rightarrow> ident \<Rightarrow> payment list" where
  "pays_of s k = filter (\<lambda>p. pay_invoiceId p = k) (payments s)"

definition evts_of :: "store \<Rightarrow> ident \<Rightarrow> webhook_event list" where
  "evts_of s k = filter (\<lambda>e. evt_invoiceId e = k) (events s)"

text \<open>A write to the rows of the invoice \<open>k\<close> only.\<close>

definition touch ::
    "ident \<Rightarrow> (invoice \<Rightarrow> invoice) \<Rightarrow> (payment \<Rightarrow> payment) \<Rightarrow> payment list \<Rightarrow> webhook_event list \<Rightarrow>
     store \<Rightarrow> store" where
  "touch k F G ps es s =
     s\<lparr>invoices := update_rows (\<lambda>i. inv_id i = k) F (invoices s),
       payments := update_rows (\<lambda>p. pay_invoiceId p = k) G (payments s) @ ps,
       events := events s @ es\<rparr>"

text \<open>The shape of a write: keys stay, and what is added belongs to the invoice.\<close>

definition local_write ::
    "ident \<Rightarrow> (invoice \<Rightarrow> invoice) \<Rightarrow> (payment \<Rightarrow> payment) \<Rightarrow> payment list \<Rightarrow> webhook_event list \<Rightarrow> bool" where
  "local_write k F G ps es \<longleftrightarrow>
     (\<forall>i. inv_id (F i) = inv_id i) \<and>
     (\<forall>p. pay_id (G p) = pay_id p \<and> pay_invoiceId (G p) = pay_invoiceId p \<and>
          pay_network (G p) = pay_network p \<and> pay_txHash (G p) = pay_txHash p) \<and>
     (\<forall>p \<in> set ps. pay_invoiceId p = k) \<and> (\<forall>e \<in> set es. evt_invoiceId e = k)"

lemma update_rows_id [simp]: "update_rows p id t = t" "update_rows p (\<lambda>r. r) t = t"
  by (simp_all add: update_rows_def map_idI)

lemma filter_update_rows_same:
  "(\<And>r. key (f r) = key r) \<Longrightarrow>
   filter (\<lambda>r. key r = k) (update_rows (\<lambda>r. key r = k) f t) = map f (filter (\<lambda>r. key r = k) t)"
  by (induction t) (auto simp: update_rows_def)

lemma filter_update_rows_other:
  "(\<And>r. key (f r) = key r) \<Longrightarrow> k' \<noteq> k \<Longrightarrow>
   filter (\<lambda>r. key r = k') (update_rows (\<lambda>r. key r = k) f t) = filter (\<lambda>r. key r = k') t"
  by (induction t) (auto simp: update_rows_def)

lemma inv_row_touch:
  assumes "local_write k F G ps es"
  shows "inv_row (touch k F G ps es s) k' = (if k' = k then map_option F (inv_row s k) else inv_row s k')"
proof -
  have "inv_row (touch k F G ps es s) k' =
      map_option (\<lambda>r. if inv_id r = k then F r else r) (inv_row s k')"
    using assms by (simp add: inv_row_def touch_def local_write_def find_update_rows)
  also have "\<dots> = (if k' = k then map_option F (inv_row s k) else inv_row s k')"
    by (auto simp: inv_row_def dest!: find_SomeD split: option.splits intro!: map_option_idI
        option.map_cong simp: option.map_ident_strong)
  finally show ?thesis .
qed

lemma pays_of_touch:
  assumes "local_write k F G ps es"
  shows "pays_of (touch k F G ps es s) k' =
    (if k' = k then map G (pays_of s k) @ ps else pays_of s k')"
  using assms
  by (auto simp: pays_of_def touch_def local_write_def filter_update_rows_same
      filter_update_rows_other filter_id_conv filter_empty_conv)

lemma evts_of_touch:
  assumes "local_write k F G ps es"
  shows "evts_of (touch k F G ps es s) k' = (if k' = k then evts_of s k @ es else evts_of s k')"
  using assms by (auto simp: evts_of_def touch_def local_write_def filter_id_conv filter_empty_conv)

lemmas touch_views = inv_row_touch pays_of_touch evts_of_touch

section \<open>The abstract life of an invoice\<close>

type_synonym life = "invoice_status \<times> payment_status list \<times> string list"

inductive life_step :: "life \<Rightarrow> life \<Rightarrow> bool" where
  expires: "life_step (Inv_PENDING, [], []) (Inv_EXPIRED, [], [''invoice.expired''])"
| detected: "life_step (Inv_PENDING, [], []) (Inv_DETECTED, [Pay_DETECTED], [])"
| confirming: "life_step (Inv_DETECTED, [Pay_DETECTED], []) (Inv_CONFIRMING, [Pay_CONFIRMING], [])"
| vanished: "life_step (Inv_CONFIRMING, [Pay_CONFIRMING], []) (Inv_CONFIRMING, [Pay_REORG_DETECTED], [])"
| reappeared: "life_step (Inv_CONFIRMING, [Pay_REORG_DETECTED], []) (Inv_CONFIRMING, [Pay_CONFIRMING], [])"
| paid: "life_step (Inv_CONFIRMING, [Pay_CONFIRMING], []) (Inv_PAID, [Pay_CONFIRMED], [''payment.paid''])"
| underpaid: "life_step (Inv_CONFIRMING, [Pay_CONFIRMING], [])
    (Inv_UNDERPAID, [Pay_UNDERPAID], [''payment.underpaid''])"
| overpaid: "life_step (Inv_CONFIRMING, [Pay_CONFIRMING], [])
    (Inv_OVERPAID, [Pay_OVERPAID], [''payment.overpaid''])"
| failed_detected: "life_step (Inv_DETECTED, [Pay_DETECTED], []) (Inv_FAILED, [Pay_FAILED], [])"
| failed_confirming: "life_step (Inv_CONFIRMING, [Pay_CONFIRMING], []) (Inv_FAILED, [Pay_FAILED], [])"
| failed_reorg: "life_step (Inv_CONFIRMING, [Pay_REORG_DETECTED], []) (Inv_FAILED, [Pay_FAILED], [])"

inductive_simps life_step_from_pending: "life_step (Inv_PENDING, ps, es) l"
inductive_simps life_step_from_detected: "life_step (Inv_DETECTED, ps, es) l"
inductive_simps life_step_from_confirming: "life_step (Inv_CONFIRMING, ps, es) l"

abbreviation life_reaches :: "life \<Rightarrow> life \<Rightarrow> bool" where
  "life_reaches \<equiv> life_step\<^sup>*\<^sup>*"

text \<open>Every abstract step is a legal transition of both machines, or leaves the status.\<close>

lemma life_step_legal:
  "life_step (a, ps, es) (b, qs, fs) \<Longrightarrow>
   (a = b \<or> canTransitionInvoice a b) \<and>
   (ps = [] \<or> (\<exists>p q. ps = [p] \<and> qs = [q] \<and> canTransitionPayment p q)) \<and> (es = [] \<and> length fs \<le> 1)"
  by (erule life_step.cases) (auto simp: canTransitionInvoice_def canTransitionPayment_def)

definition settled :: "invoice_status \<Rightarrow> bool" where
  "settled st \<longleftrightarrow> st \<in> {Inv_PAID, Inv_UNDERPAID, Inv_OVERPAID, Inv_EXPIRED, Inv_FAILED}"

lemma settled_final: "settled a \<Longrightarrow> \<not> life_step (a, ps, es) l"
  by (auto simp: settled_def elim: life_step.cases)

section \<open>The invariant\<close>

fun invoice_status_of :: "payment_status \<Rightarrow> invoice_status" where
  "invoice_status_of Pay_PENDING = Inv_PENDING"
| "invoice_status_of Pay_DETECTED = Inv_DETECTED"
| "invoice_status_of Pay_CONFIRMING = Inv_CONFIRMING"
| "invoice_status_of Pay_REORG_DETECTED = Inv_CONFIRMING"
| "invoice_status_of Pay_CONFIRMED = Inv_PAID"
| "invoice_status_of Pay_UNDERPAID = Inv_UNDERPAID"
| "invoice_status_of Pay_OVERPAID = Inv_OVERPAID"
| "invoice_status_of Pay_FAILED = Inv_FAILED"

fun status_events :: "invoice_status \<Rightarrow> string list" where
  "status_events Inv_EXPIRED = [''invoice.expired'']"
| "status_events Inv_PAID = [''payment.paid'']"
| "status_events Inv_UNDERPAID = [''payment.underpaid'']"
| "status_events Inv_OVERPAID = [''payment.overpaid'']"
| "status_events _ = []"

text \<open>A payment agrees with its invoice, and a final one is justified by what arrived.\<close>

definition payment_ok :: "int \<Rightarrow> invoice \<Rightarrow> payment \<Rightarrow> bool" where
  "payment_ok req i p \<longleftrightarrow>
     pay_organizationId p = inv_organizationId i \<and>
     pay_network p = inv_network i \<and> pay_token p = inv_token i \<and>
     pay_toAddress p = inv_paymentAddress i \<and>
     pay_expectedAmount p = inv_amount i \<and>
     pay_receivedAmount p \<noteq> None \<and> pay_txHash p \<noteq> None \<and>
     pay_status p \<noteq> Pay_PENDING \<and>
     (pay_status p \<in> {Pay_CONFIRMED, Pay_UNDERPAID, Pay_OVERPAID} \<longrightarrow>
        req \<le> pay_confirmations p \<and> pay_status p = final_payment_status (payment_outcome p))"

definition event_ok :: "invoice \<Rightarrow> payment list \<Rightarrow> webhook_event \<Rightarrow> bool" where
  "event_ok i ps e \<longleftrightarrow>
     evt_organizationId e = inv_organizationId i \<and>
     ed_invoice_id (evt_data e) = inv_id i \<and>
     ed_status (evt_data e) = to_lower (invoice_status_name (inv_status i)) \<and>
     ed_tx_hash (evt_data e) = (case ps of [] \<Rightarrow> None | p # _ \<Rightarrow> pay_txHash p)"

fun invoice_ok :: "int \<Rightarrow> invoice \<Rightarrow> payment list \<Rightarrow> webhook_event list \<Rightarrow> bool" where
  "invoice_ok req i [] es \<longleftrightarrow>
     (inv_status i = Inv_PENDING \<or> inv_status i = Inv_EXPIRED) \<and>
     map evt_type es = status_events (inv_status i) \<and> list_all (event_ok i []) es"
| "invoice_ok req i [p] es \<longleftrightarrow>
     inv_status i = invoice_status_of (pay_status p) \<and> payment_ok req i p \<and>
     map evt_type es = status_events (inv_status i) \<and> list_all (event_ok i [p]) es"
| "invoice_ok req i (p # q # ps) es \<longleftrightarrow> False"

definition pipeline_inv :: "int \<Rightarrow> store \<Rightarrow> bool" where
  "pipeline_inv req s \<longleftrightarrow>
     distinct (map inv_id (invoices s)) \<and>
     distinct (map pay_id (payments s)) \<and>
     distinct (map (\<lambda>p. (pay_network p, pay_txHash p)) (payments s)) \<and>
     (\<forall>p \<in> set (payments s). inv_row s (pay_invoiceId p) \<noteq> None) \<and>
     (\<forall>e \<in> set (events s). inv_row s (evt_invoiceId e) \<noteq> None) \<and>
     (\<forall>k i. inv_row s k = Some i \<longrightarrow> invoice_ok req i (pays_of s k) (evts_of s k))"

lemma pipeline_invD:
  assumes "pipeline_inv req s"
  shows "distinct (map inv_id (invoices s))" "distinct (map pay_id (payments s))"
    "distinct (map (\<lambda>p. (pay_network p, pay_txHash p)) (payments s))"
    "p \<in> set (payments s) \<Longrightarrow> \<exists>i. inv_row s (pay_invoiceId p) = Some i"
    "inv_row s k = Some i \<Longrightarrow> invoice_ok req i (pays_of s k) (evts_of s k)"
  using assms by (auto simp: pipeline_inv_def)

lemma inv_rowD: "inv_row s k = Some i \<Longrightarrow> i \<in> set (invoices s) \<and> inv_id i = k"
  unfolding inv_row_def by (rule find_SomeD)

lemma inv_row_iff:
  assumes "pipeline_inv req s"
  shows "inv_row s k = Some i \<longleftrightarrow> i \<in> set (invoices s) \<and> inv_id i = k"
  using find_key [OF pipeline_invD(1) [OF assms]] inv_rowD [of s k i] by (auto simp: inv_row_def)

lemma pipeline_inv_empty: "pipeline_inv req empty_store"
  by (simp add: pipeline_inv_def empty_store_def inv_row_def)

text \<open>A local write keeps the invariant when the invoice it touches stays consistent.\<close>

lemma touch_keeps_inv:
  assumes inv: "pipeline_inv req s" and row: "inv_row s k = Some i"
    and loc: "local_write k F G ps es"
    and ok: "invoice_ok req (F i) (map G (pays_of s k) @ ps) (evts_of s k @ es)"
    and fresh: "distinct (map pay_id ps)" "distinct (map (\<lambda>p. (pay_network p, pay_txHash p)) ps)"
      "\<And>p q. p \<in> set ps \<Longrightarrow> q \<in> set (payments s) \<Longrightarrow> \<not> payment_clash p q"
      "\<And>p. p \<in> set ps \<Longrightarrow> pay_txHash p \<noteq> None"
  shows "pipeline_inv req (touch k F G ps es s)"
proof -
  let ?s = "touch k F G ps es s"
  have keys: "map inv_id (invoices ?s) = map inv_id (invoices s)"
    "map pay_id (payments ?s) = map pay_id (payments s) @ map pay_id ps"
    "map (\<lambda>p. (pay_network p, pay_txHash p)) (payments ?s) =
     map (\<lambda>p. (pay_network p, pay_txHash p)) (payments s) @ map (\<lambda>p. (pay_network p, pay_txHash p)) ps"
    using loc by (simp_all add: touch_def local_write_def map_update_rows)
  have rows: "inv_row ?s k' \<noteq> None \<longleftrightarrow> inv_row s k' \<noteq> None" for k'
    using row by (simp add: inv_row_touch [OF loc])
  have "distinct (map inv_id (invoices ?s))" using pipeline_invD(1) [OF inv] by (simp add: keys)
  moreover have "distinct (map pay_id (payments ?s))"
    using pipeline_invD(2) [OF inv] fresh(1,3) unfolding keys
    by (force simp: payment_clash_def)
  moreover have "distinct (map (\<lambda>p. (pay_network p, pay_txHash p)) (payments ?s))"
    using pipeline_invD(3) [OF inv] fresh(2,3,4) unfolding keys
    by (force simp: payment_clash_def)
  moreover have "inv_row ?s (pay_invoiceId p) \<noteq> None" if "p \<in> set (payments ?s)" for p
  proof -
    from that have "pay_invoiceId p \<in> insert k (pay_invoiceId ` set (payments s))"
      using loc by (auto simp: touch_def local_write_def set_update_rows split: if_splits)
    then have "inv_row s (pay_invoiceId p) \<noteq> None" using inv row by (auto simp: pipeline_inv_def)
    then show ?thesis using rows by blast
  qed
  moreover have "inv_row ?s (evt_invoiceId e) \<noteq> None" if "e \<in> set (events ?s)" for e
  proof -
    from that have "evt_invoiceId e \<in> insert k (evt_invoiceId ` set (events s))"
      using loc by (auto simp: touch_def local_write_def)
    then have "inv_row s (evt_invoiceId e) \<noteq> None" using inv row by (auto simp: pipeline_inv_def)
    then show ?thesis using rows by blast
  qed
  moreover have "invoice_ok req j (pays_of ?s k') (evts_of ?s k')" if "inv_row ?s k' = Some j" for k' j
    using that ok row pipeline_invD(5) [OF inv, of k' j]
    by (auto simp: touch_views [OF loc] split: if_splits)
  ultimately show ?thesis unfolding pipeline_inv_def by blast
qed

text \<open>What the invariant says of the payments of one invoice.\<close>

lemma pending_no_payments:
  "pipeline_inv req s \<Longrightarrow> inv_row s k = Some i \<Longrightarrow> inv_status i = Inv_PENDING \<Longrightarrow>
   pays_of s k = [] \<and> evts_of s k = []"
proof -
  assume "pipeline_inv req s" "inv_row s k = Some i" "inv_status i = Inv_PENDING"
  then have "invoice_ok req i (pays_of s k) (evts_of s k)" "inv_status i = Inv_PENDING"
    by (auto intro: pipeline_invD)
  then show ?thesis
    by (cases "(req, i, pays_of s k, evts_of s k)" rule: invoice_ok.cases)
      (auto simp: payment_ok_def elim: invoice_status_of.elims)
qed

lemma at_most_one_payment:
  assumes "pipeline_inv req s" "inv_row s k = Some i"
  shows "length (pays_of s k) \<le> 1"
  using pipeline_invD(5) [OF assms]
  by (cases "(req, i, pays_of s k, evts_of s k)" rule: invoice_ok.cases) auto

lemma payment_single:
  assumes "pipeline_inv req s" "p \<in> set (payments s)" "inv_row s (pay_invoiceId p) = Some i"
  shows "pays_of s (pay_invoiceId p) = [p]"
proof -
  have "p \<in> set (pays_of s (pay_invoiceId p))" using assms(2) by (simp add: pays_of_def)
  with at_most_one_payment [OF assms(1,3)] show ?thesis
    by (cases "pays_of s (pay_invoiceId p)") auto
qed

lemma payment_single_ok:
  assumes "pipeline_inv req s" "inv_row s k = Some i" "pays_of s k = [p]"
  shows "inv_status i = invoice_status_of (pay_status p)" "payment_ok req i p"
    "map evt_type (evts_of s k) = status_events (inv_status i)"
    "list_all (event_ok i [p]) (evts_of s k)"
    "inv_id i = k" "pay_invoiceId p = k"
proof -
  have "p \<in> set (pays_of s k)" using assms(3) by simp
  then show "pay_invoiceId p = k" by (simp add: pays_of_def)
qed (use pipeline_invD(5) [OF assms(1,2)] inv_rowD [OF assms(2)] assms(3) in auto)

section \<open>The writes of a pipeline\<close>

definition inv_moves :: "invoice_status \<Rightarrow> millis \<Rightarrow> invoice \<Rightarrow> invoice" where
  "inv_moves st now i = i\<lparr>inv_status := st, inv_updatedAt := now\<rparr>"

definition inv_finalized :: "invoice_status \<Rightarrow> millis \<Rightarrow> invoice \<Rightarrow> invoice" where
  "inv_finalized st now i =
     (if st = Inv_PAID then i\<lparr>inv_status := st, inv_paidAt := Some now, inv_updatedAt := now\<rparr>
      else i\<lparr>inv_status := st, inv_updatedAt := now\<rparr>)"

definition pay_moves :: "payment_status \<Rightarrow> millis \<Rightarrow> payment \<Rightarrow> payment" where
  "pay_moves st now p = p\<lparr>pay_status := st, pay_updatedAt := now\<rparr>"

definition pay_counts :: "int \<Rightarrow> millis \<Rightarrow> payment \<Rightarrow> payment" where
  "pay_counts c now p = p\<lparr>pay_confirmations := c, pay_updatedAt := now\<rparr>"

definition pay_confirming :: "int \<Rightarrow> millis \<Rightarrow> payment \<Rightarrow> payment" where
  "pay_confirming c now p =
     p\<lparr>pay_status := Pay_CONFIRMING, pay_confirmations := c, pay_updatedAt := now\<rparr>"

definition pay_finalized :: "payment_status \<Rightarrow> int \<Rightarrow> millis \<Rightarrow> payment \<Rightarrow> payment" where
  "pay_finalized st c now p =
     p\<lparr>pay_status := st, pay_confirmations := c, pay_confirmedAt := Some now, pay_updatedAt := now\<rparr>"

lemmas write_defs = inv_moves_def inv_finalized_def pay_moves_def pay_counts_def
  pay_confirming_def pay_finalized_def

inductive pipe_step :: "int \<Rightarrow> ident \<Rightarrow> store \<Rightarrow> store \<Rightarrow> bool" for req :: int where
  expire:
    "inv_row s k = Some i \<Longrightarrow> inv_status i = Inv_PENDING \<Longrightarrow> inv_expiresAt i < pe_now env \<Longrightarrow>
     pipe_step req k s
       (touch k (inv_moves Inv_EXPIRED (pe_now env)) id []
          [event_for env i ''invoice.expired'' Inv_EXPIRED None] s)"
| detect:
    "inv_row s k = Some i \<Longrightarrow> inv_status i = Inv_PENDING \<Longrightarrow>
     inv_network i = tr_network t \<Longrightarrow> inv_token i = tr_token t \<Longrightarrow>
     inv_paymentAddress i = tr_toAddress t \<Longrightarrow>
     \<forall>p \<in> set (payments s). \<not> payment_clash (detected_payment env t i) p \<Longrightarrow>
     pipe_step req k s
       (touch k (inv_moves Inv_DETECTED (pe_now env)) id [detected_payment env t i] [] s)"
| confirming:
    "inv_row s k = Some i \<Longrightarrow> pays_of s k = [p] \<Longrightarrow>
     pay_status p = Pay_DETECTED \<or> pay_status p = Pay_REORG_DETECTED \<Longrightarrow>
     pipe_step req k s (touch k (inv_moves Inv_CONFIRMING now) (pay_confirming c now) [] [] s)"
| counting:
    "inv_row s k = Some i \<Longrightarrow> pays_of s k = [p] \<Longrightarrow> pay_status p = Pay_CONFIRMING \<Longrightarrow> c < req \<Longrightarrow>
     pipe_step req k s (touch k id (pay_counts c now) [] [] s)"
| vanishing:
    "inv_row s k = Some i \<Longrightarrow> pays_of s k = [p] \<Longrightarrow> pay_status p = Pay_CONFIRMING \<Longrightarrow>
     pipe_step req k s (touch k id (pay_moves Pay_REORG_DETECTED now) [] [] s)"
| failing:
    "inv_row s k = Some i \<Longrightarrow> pays_of s k = [p] \<Longrightarrow> is_active p \<Longrightarrow>
     pipe_step req k s (touch k (inv_moves Inv_FAILED now) (pay_moves Pay_FAILED now) [] [] s)"
| finalizing:
    "inv_row s k = Some i \<Longrightarrow> pays_of s k = [p] \<Longrightarrow> pay_status p = Pay_CONFIRMING \<Longrightarrow> req \<le> c \<Longrightarrow>
     a = payment_outcome p \<Longrightarrow>
     pipe_step req k s
       (touch k (inv_finalized (final_invoice_status a) (pe_now env))
          (pay_finalized (final_payment_status a) c (pe_now env)) []
          [event_for env i (final_event_type a) (final_invoice_status a) (pay_txHash p)] s)"
| elsewhere:
    "invoices s' = invoices s \<Longrightarrow> payments s' = payments s \<Longrightarrow> events s' = events s \<Longrightarrow>
     pipe_step req k s s'"

lemma elsewhere_views:
  assumes "invoices s' = invoices s" "payments s' = payments s" "events s' = events s"
  shows "inv_row s' = inv_row s" "pays_of s' = pays_of s" "evts_of s' = evts_of s"
    "pipeline_inv req s' = pipeline_inv req s"
  using assms by (simp_all add: inv_row_def [abs_def] pays_of_def [abs_def] evts_of_def [abs_def]
      pipeline_inv_def)

lemma local_writes [simp]:
  "local_write k (inv_moves st now) G ps es \<longleftrightarrow> local_write k id G ps es"
  "local_write k (inv_finalized st now) G ps es \<longleftrightarrow> local_write k id G ps es"
  "local_write k F (pay_moves pst now) ps es \<longleftrightarrow> local_write k F id ps es"
  "local_write k F (pay_counts c now) ps es \<longleftrightarrow> local_write k F id ps es"
  "local_write k F (pay_confirming c now) ps es \<longleftrightarrow> local_write k F id ps es"
  "local_write k F (pay_finalized pst c now) ps es \<longleftrightarrow> local_write k F id ps es"
  by (simp_all add: local_write_def write_defs)

lemma local_write_id [simp]:
  "local_write k id id ps es \<longleftrightarrow> (\<forall>p \<in> set ps. pay_invoiceId p = k) \<and> (\<forall>e \<in> set es. evt_invoiceId e = k)"
  by (simp add: local_write_def)

lemma payment_outcome_upd [simp]:
  "payment_outcome (p\<lparr>pay_status := st\<rparr>) = payment_outcome p"
  "payment_outcome (p\<lparr>pay_confirmations := c\<rparr>) = payment_outcome p"
  "payment_outcome (p\<lparr>pay_confirmedAt := t\<rparr>) = payment_outcome p"
  "payment_outcome (p\<lparr>pay_updatedAt := u\<rparr>) = payment_outcome p"
  by (simp_all add: payment_outcome_def)

lemma final_status_maps:
  "invoice_status_of (final_payment_status a) = final_invoice_status a"
  "status_events (final_invoice_status a) = [final_event_type a]"
  "final_payment_status a \<noteq> Pay_PENDING"
  by (cases a; simp)+

lemma pipe_step_keeps_inv:
  assumes "pipe_step req k s s'" and inv: "pipeline_inv req s"
  shows "pipeline_inv req s'"
  using assms(1)
proof cases
  case (expire i env)
  with pending_no_payments [OF inv expire(2,3)] inv_rowD [OF expire(2)] show ?thesis
    by (auto intro!: touch_keeps_inv [OF inv] simp: event_for_def event_ok_def inv_moves_def)
next
  case (detect i t env)
  with pending_no_payments [OF inv detect(2,3)] inv_rowD [OF detect(2)] show ?thesis
    by (auto intro!: touch_keeps_inv [OF inv]
        simp: payment_ok_def detected_payment_def inv_moves_def)
next
  case (confirming i p now c)
  with payment_single_ok [OF inv confirming(2,3)] show ?thesis
    by (auto intro!: touch_keeps_inv [OF inv] simp: payment_ok_def write_defs)
next
  case (counting i p c now)
  with payment_single_ok [OF inv counting(2,3)] show ?thesis
    by (auto intro!: touch_keeps_inv [OF inv] simp: payment_ok_def write_defs)
next
  case (vanishing i p now)
  with payment_single_ok [OF inv vanishing(2,3)] show ?thesis
    by (auto intro!: touch_keeps_inv [OF inv] simp: payment_ok_def write_defs)
next
  case (failing i p now)
  with payment_single_ok [OF inv failing(2,3)] show ?thesis
    by (auto intro!: touch_keeps_inv [OF inv] simp: payment_ok_def write_defs is_active_def)
next
  case (finalizing i p c a env)
  with payment_single_ok [OF inv finalizing(2,3)] show ?thesis
    by (cases a) (auto intro!: touch_keeps_inv [OF inv]
        simp: payment_ok_def event_for_def event_ok_def write_defs)
next
  case elsewhere
  from elsewhere_views(4) [OF this] inv show ?thesis by simp
qed

section \<open>What a write leaves alone\<close>

lemma pipe_step_touch:
  assumes "pipe_step req k s s'"
  obtains (same) "invoices s' = invoices s" "payments s' = payments s" "events s' = events s"
  | (written) F G ps es where "s' = touch k F G ps es s" "local_write k F G ps es"
    "\<And>i. inv_moves Inv_PENDING 0 (F i)\<lparr>inv_paidAt := None\<rparr> = inv_moves Inv_PENDING 0 i\<lparr>inv_paidAt := None\<rparr>"
  using assms
proof cases
  case (expire i env)
  then show ?thesis
    by (intro written [OF expire(1)]) (auto simp: write_defs event_for_def dest: inv_rowD)
next
  case (detect i t env)
  then show ?thesis
    by (intro written [OF detect(1)]) (auto simp: write_defs detected_payment_def dest: inv_rowD)
next
  case (confirming i p now c)
  then show ?thesis by (intro written [OF confirming(1)]) (auto simp: write_defs)
next
  case (counting i p c now)
  then show ?thesis by (intro written [OF counting(1)]) auto
next
  case (vanishing i p now)
  then show ?thesis by (intro written [OF vanishing(1)]) auto
next
  case (failing i p now)
  then show ?thesis by (intro written [OF failing(1)]) (auto simp: write_defs)
next
  case (finalizing i p c a env)
  then show ?thesis
    by (intro written [OF finalizing(1)]) (auto simp: write_defs event_for_def dest: inv_rowD)
next
  case elsewhere
  then show ?thesis by (rule same)
qed

text \<open>The terms of an invoice: everything but its status and the two times that go with it.\<close>

definition terms_of :: "invoice \<Rightarrow> invoice" where
  "terms_of i = i\<lparr>inv_status := Inv_PENDING, inv_paidAt := None, inv_updatedAt := 0\<rparr>"

lemma terms_of_alt: "inv_moves Inv_PENDING 0 i\<lparr>inv_paidAt := None\<rparr> = terms_of i"
  by (simp add: terms_of_def inv_moves_def)

definition current :: "store \<Rightarrow> payment \<times> invoice \<Rightarrow> bool" where
  "current s = (\<lambda>(p, i). p \<in> set (payments s) \<and> inv_row s (pay_invoiceId p) = Some i)"

lemma pipe_step_frame_all:
  assumes "pipe_step req k s s'"
  shows "(k' \<noteq> k \<longrightarrow> inv_row s' k' = inv_row s k' \<and> pays_of s' k' = pays_of s k' \<and>
      evts_of s' k' = evts_of s k') \<and>
    map_option terms_of (inv_row s' k') = map_option terms_of (inv_row s k') \<and>
    map inv_id (invoices s') = map inv_id (invoices s) \<and>
    (\<exists>es. events s' = events s @ es)"
  using assms
proof (cases rule: pipe_step_touch)
  case same
  with elsewhere_views [OF same] show ?thesis by simp
next
  case (written F G ps es)
  have F: "terms_of (F i) = terms_of i" for i using written(3) by (simp add: terms_of_alt)
  have "map inv_id (invoices s') = map inv_id (invoices s)" "\<exists>es. events s' = events s @ es"
    using written(2) by (simp_all add: written(1) touch_def local_write_def map_update_rows)
  then show ?thesis
    by (simp add: written(1) touch_views [OF written(2)] option.map_comp comp_def F)
qed

lemma pipe_step_frame:
  assumes "pipe_step req k s s'"
  shows "k' \<noteq> k \<Longrightarrow> inv_row s' k' = inv_row s k'"
    and "k' \<noteq> k \<Longrightarrow> pays_of s' k' = pays_of s k'"
    and "k' \<noteq> k \<Longrightarrow> evts_of s' k' = evts_of s k'"
    and "map_option terms_of (inv_row s' k') = map_option terms_of (inv_row s k')"
    and "map inv_id (invoices s') = map inv_id (invoices s)"
    and "\<exists>es. events s' = events s @ es"
  using pipe_step_frame_all [OF assms, of k'] by simp_all

lemma in_pays_of: "p \<in> set (payments s) \<longleftrightarrow> p \<in> set (pays_of s (pay_invoiceId p))"
  by (simp add: pays_of_def)

lemma pipe_step_current:
  assumes "pipe_step req k s s'" and "current s x" and "pay_invoiceId (fst x) \<noteq> k"
  shows "current s' x"
  using assms pipe_step_frame(1,2) [OF assms(1), of "pay_invoiceId (fst x)"]
  by (auto simp: current_def in_pays_of)

section \<open>The writes follow the abstract life\<close>

definition life_of :: "store \<Rightarrow> ident \<Rightarrow> life option" where
  "life_of s k = map_option
     (\<lambda>i. (inv_status i, map pay_status (pays_of s k), map evt_type (evts_of s k))) (inv_row s k)"

text \<open>A write is a step of the life of its invoice, or changes only a confirmation count.\<close>

lemma pipe_step_life_same:
  assumes "pipe_step req k s s'" and inv: "pipeline_inv req s"
  shows "rel_option life_step\<^sup>=\<^sup>= (life_of s k) (life_of s' k)"
  using assms(1)
proof cases
  case (expire i env)
  with pending_no_payments [OF inv expire(2,3)] inv_rowD [OF expire(2)] show ?thesis
    by (auto simp: life_of_def touch_views inv_moves_def event_for_def intro: life_step.intros)
next
  case (detect i t env)
  with pending_no_payments [OF inv detect(2,3)] inv_rowD [OF detect(2)] show ?thesis
    by (auto simp: life_of_def touch_views inv_moves_def detected_payment_def intro: life_step.intros)
next
  case (confirming i p now c)
  with payment_single_ok [OF inv confirming(2,3)] show ?thesis
    by (auto simp: life_of_def touch_views inv_moves_def pay_confirming_def intro: life_step.intros)
next
  case (counting i p c now)
  with payment_single_ok [OF inv counting(2,3)] show ?thesis
    by (auto simp: life_of_def touch_views pay_counts_def)
next
  case (vanishing i p now)
  with payment_single_ok [OF inv vanishing(2,3)] show ?thesis
    by (auto simp: life_of_def touch_views pay_moves_def intro: life_step.intros)
next
  case (failing i p now)
  with payment_single_ok [OF inv failing(2,3)] show ?thesis
    by (auto simp: life_of_def touch_views write_defs is_active_def intro: life_step.intros)
next
  case (finalizing i p c a env)
  with payment_single_ok [OF inv finalizing(2,3)] show ?thesis
    by (cases a)
      (auto simp: life_of_def touch_views write_defs event_for_def intro: life_step.intros)
next
  case elsewhere
  from elsewhere_views [OF this] show ?thesis by (simp add: life_of_def option.rel_refl)
qed

lemma pipe_step_life:
  assumes "pipe_step req k s s'" and "pipeline_inv req s"
  shows "rel_option life_step\<^sup>=\<^sup>= (life_of s j) (life_of s' j)"
proof (cases "j = k")
  case True
  then show ?thesis using pipe_step_life_same [OF assms] by simp
next
  case False
  then have "life_of s' j = life_of s j" using pipe_step_frame [OF assms(1)] by (simp add: life_of_def)
  then show ?thesis by (simp add: option.rel_refl)
qed

section \<open>Sequences of writes\<close>

definition pipe_steps :: "int \<Rightarrow> store \<Rightarrow> store \<Rightarrow> bool" where
  "pipe_steps req = (\<lambda>s s'. \<exists>k. pipe_step req k s s')\<^sup>*\<^sup>*"

lemma pipe_steps_refl [simp]: "pipe_steps req s s"
  by (simp add: pipe_steps_def)

lemma pipe_steps_step: "pipe_steps req s t \<Longrightarrow> pipe_step req k t u \<Longrightarrow> pipe_steps req s u"
  unfolding pipe_steps_def by (auto intro: rtranclp.rtrancl_into_rtrancl)

lemma pipe_steps_trans: "pipe_steps req s t \<Longrightarrow> pipe_steps req t u \<Longrightarrow> pipe_steps req s u"
  unfolding pipe_steps_def by (rule rtranclp_trans)

lemma pipe_steps_induct [consumes 1, case_names refl step]:
  assumes "pipe_steps req s s'" and "P s"
    and "\<And>t u k. pipe_steps req s t \<Longrightarrow> P t \<Longrightarrow> pipe_step req k t u \<Longrightarrow> P u"
  shows "P s'"
  using assms(1) unfolding pipe_steps_def
proof (induction rule: rtranclp_induct)
  case base
  show ?case by (rule assms(2))
next
  case (step t u)
  from step.hyps(2) obtain k where "pipe_step req k t u" by blast
  with step.hyps(1) step.IH show ?case by (auto intro: assms(3) simp: pipe_steps_def)
qed

lemma pipe_steps_inv:
  "pipe_steps req s s' \<Longrightarrow> pipeline_inv req s \<Longrightarrow> pipeline_inv req s'"
  by (induction rule: pipe_steps_induct) (auto intro: pipe_step_keeps_inv)

lemma pipe_steps_life:
  assumes "pipe_steps req s s'" and "pipeline_inv req s"
  shows "rel_option life_reaches (life_of s k) (life_of s' k)"
  using assms(1)
proof (induction rule: pipe_steps_induct)
  case refl
  then show ?case by (simp add: option.rel_refl)
next
  case (step t u j)
  have "rel_option life_step\<^sup>=\<^sup>= (life_of t k) (life_of u k)"
    by (rule pipe_step_life [OF step.hyps(2) pipe_steps_inv [OF step.hyps(1) assms(2)]])
  with step.IH show ?case
    by (cases "life_of s k"; cases "life_of t k"; cases "life_of u k")
      (auto intro: rtranclp.rtrancl_into_rtrancl)
qed

lemma pipe_steps_frame:
  assumes "pipe_steps req s s'"
  shows "map_option terms_of (inv_row s' k) = map_option terms_of (inv_row s k) \<and>
    map inv_id (invoices s') = map inv_id (invoices s) \<and>
    (\<exists>es. events s' = events s @ es)"
  using assms
proof (induction rule: pipe_steps_induct)
  case refl
  then show ?case by simp
next
  case (step t u j)
  from step.IH obtain es where "events t = events s @ es" by blast
  with pipe_step_frame(6) [OF step.hyps(2)] have "\<exists>es. events u = events s @ es" by auto
  with step.IH pipe_step_frame(4,5) [OF step.hyps(2)] show ?case by metis
qed

section \<open>Operations made of such writes\<close>

text \<open>
  \<open>pass_on st req E m\<close>: from a consistent store (\<open>st\<close> reads it off the state), whether \<open>m\<close>
  returns or throws, it has made a sequence of the writes above, and what it throws is in \<open>E\<close>.
\<close>

definition pass_on :: "('s \<Rightarrow> store) \<Rightarrow> int \<Rightarrow> (thrown \<Rightarrow> bool) \<Rightarrow> ('s, thrown, 'a) eff \<Rightarrow> bool" where
  "pass_on st req E m \<longleftrightarrow>
     (\<forall>s r s'. pipeline_inv req (st s) \<longrightarrow> m s = (r, s') \<longrightarrow>
        pipe_steps req (st s) (st s') \<and> (\<forall>e. r = Inl e \<longrightarrow> E e))"

abbreviation pass_ok :: "int \<Rightarrow> (thrown \<Rightarrow> bool) \<Rightarrow> 'a db_op \<Rightarrow> bool" where
  "pass_ok \<equiv> pass_on (\<lambda>s. s)"

lemma pass_okI:
  assumes "\<And>s r s'. pipeline_inv req (st s) \<Longrightarrow> m s = (r, s') \<Longrightarrow>
    pipe_steps req (st s) (st s') \<and> (\<forall>e. r = Inl e \<longrightarrow> E e)"
  shows "pass_on st req E m"
  using assms by (simp add: pass_on_def)

lemma pass_okD:
  assumes "pass_on st req E m" "pipeline_inv req (st s)" "m s = (r, s')"
  shows "pipe_steps req (st s) (st s')" "r = Inl e \<Longrightarrow> E e" "pipeline_inv req (st s')"
  using assms pipe_steps_inv unfolding pass_on_def by blast+

lemma pass_ok_seq:
  assumes "pass_on st req E m" "\<And>x. pass_on st req E (f x)"
  shows "pass_on st req E (seq m f)"
proof (rule pass_okI)
  fix s r s'
  assume inv: "pipeline_inv req (st s)" and run: "seq m f s = (r, s')"
  obtain q t where m: "m s = (q, t)" by (cases "m s")
  note D = pass_okD [OF assms(1) inv m]
  show "pipe_steps req (st s) (st s') \<and> (\<forall>e. r = Inl e \<longrightarrow> E e)"
  proof (cases q)
    case (Inl e)
    with run m D show ?thesis by (auto simp: seq_def)
  next
    case (Inr x)
    with run m have "f x t = (r, s')" by (simp add: seq_def)
    with assms(2) D(3) have "pipe_steps req (st t) (st s') \<and> (\<forall>e. r = Inl e \<longrightarrow> E e)"
      unfolding pass_on_def by blast
    with D(1) show ?thesis by (blast intro: pipe_steps_trans)
  qed
qed

lemma pass_ok_weaken: "pass_on st req D m \<Longrightarrow> (\<And>e. D e \<Longrightarrow> E e) \<Longrightarrow> pass_on st req E m"
  unfolding pass_on_def by blast

lemma pass_ok_same:
  assumes "\<And>s. st (snd (m s)) = st s" "\<And>s e. fst (m s) = Inl e \<Longrightarrow> E e"
  shows "pass_on st req E m"
proof (rule pass_okI)
  fix s r s'
  assume "m s = (r, s')"
  then show "pipe_steps req (st s) (st s') \<and> (\<forall>e. r = Inl e \<longrightarrow> E e)"
    using assms(1) [of s] assms(2) [of s] by simp
qed

lemma pass_ok_simps [simp]:
  "pass_on st req E (ret x)" "pass_on st req E (reads g)" "E e \<Longrightarrow> pass_on st req E (throw e)"
  "(\<And>e. r = Inl e \<Longrightarrow> E e) \<Longrightarrow> pass_on st req E (lift r)"
  "(\<And>s. st (f s) = st s) \<Longrightarrow> pass_on st req E (modify f)"
  by (rule pass_ok_same; simp add: eff_defs)+

lemma pass_ok_ensuring:
  "pass_on st req E m \<Longrightarrow> (\<And>s. st (f s) = st s) \<Longrightarrow> pass_on st req E (ensuring m f)"
  by (auto simp: pass_on_def ensuring_def split: prod.splits)

lemma pass_ok_for_each:
  "(\<And>x. x \<in> set xs \<Longrightarrow> pass_on st req E (f x)) \<Longrightarrow> pass_on st req E (for_each f xs)"
  by (induction xs) (auto intro: pass_ok_seq)

lemma pass_ok_elsewhere:
  assumes "\<And>s r s'. m s = (r, s') \<Longrightarrow>
    invoices s' = invoices s \<and> payments s' = payments s \<and> events s' = events s \<and>
    (\<forall>e. r = Inl e \<longrightarrow> E e)"
  shows "pass_ok req E m"
proof (rule pass_okI)
  fix s r s'
  assume "m s = (r, s')"
  note same = assms [OF this]
  then have "pipe_step req [] s s'" by (intro elsewhere) simp_all
  with same show "pipe_steps req s s' \<and> (\<forall>e. r = Inl e \<longrightarrow> E e)"
    using pipe_steps_step [OF pipe_steps_refl] by blast
qed

text \<open>
  A loop over a snapshot: every element names the invoice it will touch, no two elements
  the same one, and an element is handled from the row the snapshot holds. \<open>snap s x\<close> says
  that the snapshot \<open>x\<close> still is what the store holds; a write to another invoice keeps it.
\<close>

lemma snapshot_loop:
  assumes body: "\<And>x s r s'. x \<in> set xs \<Longrightarrow> pipeline_inv req s \<Longrightarrow> snap s x \<Longrightarrow> f x s = (r, s') \<Longrightarrow>
      (s' = s \<or> pipe_step req (key x) s s') \<and> (\<forall>e. r = Inl e \<longrightarrow> E e)"
    and frame: "\<And>x k s s'. snap s x \<Longrightarrow> pipe_step req k s s' \<Longrightarrow> key x \<noteq> k \<Longrightarrow> snap s' x"
    and start: "distinct (map key xs)" "\<forall>x \<in> set xs. snap s x" "pipeline_inv req s"
    and run: "for_each f xs s = (r, s')"
  shows "pipe_steps req s s' \<and> (\<forall>e. r = Inl e \<longrightarrow> E e)"
  using body start run
proof (induction xs arbitrary: s)
  case Nil
  then show ?case by (auto simp: ret_def)
next
  case (Cons x xs)
  obtain q t where fx: "f x s = (q, t)" by (cases "f x s")
  have step: "(t = s \<or> pipe_step req (key x) s t) \<and> (\<forall>e. q = Inl e \<longrightarrow> E e)"
    using Cons.prems(1) [OF _ Cons.prems(4) _ fx] Cons.prems(3) by simp
  then have steps: "pipe_steps req s t" by (auto intro: pipe_steps_step [OF pipe_steps_refl])
  show ?case
  proof (cases q)
    case (Inl e)
    with Cons.prems(5) fx step steps show ?thesis by (auto simp: seq_def)
  next
    case (Inr u)
    with Cons.prems(5) fx have rest: "for_each f xs t = (r, s')" by (simp add: seq_def)
    have "snap t y" if "y \<in> set xs" for y
    proof -
      from that have "key y \<in> set (map key xs)" by simp
      then have "key y \<noteq> key x" using Cons.prems(2) by (metis distinct.simps(2) list.simps(9))
      moreover have "snap s y" using Cons.prems(3) that by simp
      ultimately show ?thesis using step frame by blast
    qed
    then have "pipe_steps req t s' \<and> (\<forall>e. r = Inl e \<longrightarrow> E e)"
    proof (intro Cons.IH [OF _ _ _ _ rest])
      show "distinct (map key xs)" using Cons.prems(2) by simp
      show "pipeline_inv req t" by (rule pipe_steps_inv [OF steps Cons.prems(4)])
      show "(v' = v \<or> pipe_step req (key y) v v') \<and> (\<forall>e. w = Inl e \<longrightarrow> E e)"
        if "y \<in> set xs" "pipeline_inv req v" "snap v y" "f y v = (w, v')" for y v w v'
        using Cons.prems(1) [OF _ that(2,3,4)] that(1) by simp
    qed simp
    with steps show ?thesis by (blast intro: pipe_steps_trans)
  qed
qed

section \<open>Snapshots of active payments\<close>

lemma attach_invoices_current:
  assumes "pipeline_inv req s"
  shows "set ps \<subseteq> set (payments s) \<Longrightarrow>
    \<exists>xs. attach_invoices s ps = Inr xs \<and> map fst xs = ps \<and> (\<forall>x \<in> set xs. current s x)"
proof (induction ps)
  case Nil
  then show ?case by simp
next
  case (Cons p ps)
  then obtain xs where xs: "attach_invoices s ps = Inr xs" "map fst xs = ps"
    "\<forall>x \<in> set xs. current s x" by auto
  obtain i where i: "inv_row s (pay_invoiceId p) = Some i"
    using pipeline_invD(4) [OF assms] Cons.prems by auto
  have "attach_invoices s (p # ps) = Inr ((p, i) # xs)"
    using i xs(1) by (simp add: inv_row_def)
  moreover have "current s (p, i)" using i Cons.prems by (simp add: current_def)
  ultimately show ?case using xs by auto
qed

lemma distinct_invoices_of_payments:
  assumes "pipeline_inv req s"
  shows "distinct (map pay_invoiceId (payments s))"
proof -
  have "inj_on pay_invoiceId (set (payments s))"
  proof (rule inj_onI)
    fix p q
    assume pq: "p \<in> set (payments s)" "q \<in> set (payments s)" "pay_invoiceId p = pay_invoiceId q"
    obtain i where "inv_row s (pay_invoiceId p) = Some i" using pipeline_invD(4) [OF assms pq(1)] ..
    with pq payment_single [OF assms pq(1)] payment_single [OF assms pq(2)] show "p = q" by simp
  qed
  with pipeline_invD(2) [OF assms] show ?thesis by (simp add: distinct_map)
qed

lemma active_snapshot:
  assumes "pipeline_inv req s"
  obtains xs where "attach_invoices s (filter P (payments s)) = Inr xs"
    "\<forall>x \<in> set xs. current s x \<and> P (fst x)" "distinct (map (\<lambda>x. pay_invoiceId (fst x)) xs)"
proof -
  obtain xs where xs: "attach_invoices s (filter P (payments s)) = Inr xs"
    "map fst xs = filter P (payments s)" "\<forall>x \<in> set xs. current s x"
    using attach_invoices_current [OF assms, of "filter P (payments s)"] by auto
  have "fst ` set xs = set (filter P (payments s))" using xs(2) by (metis list.set_map)
  then have "\<forall>x \<in> set xs. P (fst x)" by auto
  moreover have "map (\<lambda>x. pay_invoiceId (fst x)) xs = map pay_invoiceId (filter P (payments s))"
    by (simp add: xs(2) [symmetric])
  then have "distinct (map (\<lambda>x. pay_invoiceId (fst x)) xs)"
    using distinct_invoices_of_payments [OF assms] by (simp add: distinct_map_filter)
  ultimately show ?thesis using xs that by blast
qed

text \<open>The rows a write by primary key rewrites are the rows of the payment's invoice.\<close>

lemma update_by_payment:
  assumes "pipeline_inv req s" "current s (p, i)"
  shows "update_rows (\<lambda>r. pay_id r = pay_id p) G (payments s) =
    update_rows (\<lambda>r. pay_invoiceId r = pay_invoiceId p) G (payments s)"
proof -
  have p: "p \<in> set (payments s)" using assms(2) by (simp add: current_def)
  have "pay_id r = pay_id p \<longleftrightarrow> pay_invoiceId r = pay_invoiceId p" if "r \<in> set (payments s)" for r
    using distinct_key_eq [OF pipeline_invD(2) [OF assms(1)] that p]
      distinct_key_eq [OF distinct_invoices_of_payments [OF assms(1)] that p] by auto
  then show ?thesis by (simp add: update_rows_def cong: map_cong)
qed

end
