(* ===== verification/Worker_Pipeline.thy ===== *)
theory Worker_Pipeline
  imports Pipeline
begin

text \<open>
  The worker's passes refine the pipeline's contract: each iteration of each loop is one
  \<open>pipe_step\<close> or no write at all, and the exceptions a pass can end with are the adapter's
  own and a collision of generated identifiers.
\<close>

section \<open>Transactions as local writes\<close>

lemma current_rows:
  assumes "pipeline_inv req s" "current s (p, i)"
  shows "list_ex (\<lambda>r. pay_id r = pay_id p) (payments s)"
    "list_ex (\<lambda>r. inv_id r = pay_invoiceId p) (invoices s)"
    "pays_of s (pay_invoiceId p) = [p]" "inv_row s (pay_invoiceId p) = Some i"
  using assms payment_single [OF assms(1), of p i] inv_rowD [of s "pay_invoiceId p" i]
  by (auto simp: current_def list_ex_iff)

lemma write_folds [simp]:
  "(\<lambda>r. r\<lparr>inv_status := st, inv_updatedAt := now\<rparr>) = inv_moves st now"
  "(\<lambda>r. r\<lparr>pay_status := pst, pay_updatedAt := now\<rparr>) = pay_moves pst now"
  "(\<lambda>r. r\<lparr>pay_confirmations := c, pay_updatedAt := now\<rparr>) = pay_counts c now"
  "(\<lambda>r. r\<lparr>pay_status := Pay_CONFIRMING, pay_confirmations := c, pay_updatedAt := now\<rparr>) =
   pay_confirming c now"
  "(\<lambda>r. r\<lparr>pay_status := pst, pay_confirmations := c, pay_confirmedAt := Some now,
           pay_updatedAt := now\<rparr>) = pay_finalized pst c now"
  "(\<lambda>r. (if st = Inv_PAID then r\<lparr>inv_status := st, inv_paidAt := Some now\<rparr>
          else r\<lparr>inv_status := st\<rparr>)\<lparr>inv_updatedAt := now\<rparr>) = inv_finalized st now"
  by (auto simp: write_defs fun_eq_iff)

lemma transaction_touch:
  assumes "pipeline_inv req s" "current s (p, i)"
  shows "transaction [update_payment now (pay_id p) g, update_invoice now (pay_invoiceId p) f] s =
    (Inr (), touch (pay_invoiceId p) (\<lambda>r. (f r)\<lparr>inv_updatedAt := now\<rparr>)
       (\<lambda>r. (g r)\<lparr>pay_updatedAt := now\<rparr>) [] [] s)"
  using current_rows [OF assms]
  by (simp add: transaction_def update_payment_def update_invoice_def update_row_def eff_defs
      touch_def update_by_payment [OF assms])

lemma transaction_touch_event:
  assumes "pipeline_inv req s" "current s (p, i)"
  shows "transaction [update_payment now (pay_id p) g, update_invoice now (pay_invoiceId p) f,
      createWebhookEvent env i type st h] s =
    (if \<exists>e \<in> set (events s). evt_id (event_for env i type st h) = evt_id e
     then (Inl (DbThrown UniqueViolation), s)
     else (Inr (), touch (pay_invoiceId p) (\<lambda>r. (f r)\<lparr>inv_updatedAt := now\<rparr>)
       (\<lambda>r. (g r)\<lparr>pay_updatedAt := now\<rparr>) [] [event_for env i type st h] s))"
  using current_rows [OF assms]
  by (simp add: transaction_def update_payment_def update_invoice_def update_row_def
      createWebhookEvent_def create_event_def create_row_def list_ex_iff eff_defs
      touch_def update_by_payment [OF assms])

lemma update_payment_touch:
  assumes "pipeline_inv req s" "current s (p, i)"
  shows "update_payment now (pay_id p) g s =
    (Inr (), touch (pay_invoiceId p) id (\<lambda>r. (g r)\<lparr>pay_updatedAt := now\<rparr>) [] [] s)"
  using current_rows [OF assms]
  by (simp add: update_payment_def update_row_def touch_def update_by_payment [OF assms])

lemmas touches = transaction_touch transaction_touch_event update_payment_touch

section \<open>Expiry\<close>

lemma expire_invoice_eq:
  assumes "inv_row s (inv_id i) = Some i"
  shows "expire_invoice env i s =
    (if \<exists>e \<in> set (events s). evt_id (event_for env i ''invoice.expired'' Inv_EXPIRED None) = evt_id e
     then (Inl (DbThrown UniqueViolation), s)
     else (Inr (), touch (inv_id i) (inv_moves Inv_EXPIRED (pe_now env)) id []
             [event_for env i ''invoice.expired'' Inv_EXPIRED None] s))"
proof -
  from inv_rowD [OF assms] have "list_ex (\<lambda>r. inv_id r = inv_id i) (invoices s)"
    by (auto simp: list_ex_iff)
  then show ?thesis
    by (simp add: expire_invoice_def transaction_def update_invoice_def update_row_def
        createWebhookEvent_def create_event_def create_row_def list_ex_iff eff_defs touch_def)
qed

definition overdue_snapshot :: "millis \<Rightarrow> store \<Rightarrow> invoice \<Rightarrow> bool" where
  "overdue_snapshot now s i \<longleftrightarrow>
     inv_row s (inv_id i) = Some i \<and> inv_status i = Inv_PENDING \<and> inv_expiresAt i < now"

definition collision_only :: "thrown \<Rightarrow> bool" where
  "collision_only e \<longleftrightarrow> e = DbThrown UniqueViolation"

lemma expireOverdueInvoices_ok: "pass_ok req collision_only (expireOverdueInvoices env)"
proof (rule pass_okI)
  fix s r s'
  assume inv: "pipeline_inv req s" and run: "expireOverdueInvoices env s = (r, s')"
  let ?xs = "overdue_invoices (pe_now env) s"
  have run': "for_each (expire_invoice env) ?xs s = (r, s')"
    using run by (simp add: expireOverdueInvoices_def seq_reads)
  show "pipe_steps req s s' \<and> (\<forall>e. r = Inl e \<longrightarrow> collision_only e)"
  proof (rule snapshot_loop [OF _ _ _ _ inv run'])
    show "(t = u \<or> pipe_step req (inv_id x) u t) \<and> (\<forall>e. q = Inl e \<longrightarrow> collision_only e)"
      if "overdue_snapshot (pe_now env) u x" "expire_invoice env x u = (q, t)" for x u q t
      using that expire_invoice_eq [of u x env]
      by (auto simp: overdue_snapshot_def collision_only_def intro: expire split: if_splits)
    show "overdue_snapshot (pe_now env) t x"
      if "overdue_snapshot (pe_now env) u x" "pipe_step req k u t" "inv_id x \<noteq> k" for x k u t
      using that pipe_step_frame(1) [OF that(2,3)] by (simp add: overdue_snapshot_def)
    show "distinct (map inv_id ?xs)"
      using pipeline_invD(1) [OF inv] by (simp add: overdue_invoices_def distinct_map_filter)
    show "\<forall>x \<in> set ?xs. overdue_snapshot (pe_now env) s x"
      by (auto simp: overdue_invoices_def overdue_snapshot_def inv_row_iff [OF inv])
  qed
qed

section \<open>The confirmation loop\<close>

definition confirm_throws :: "chain_adapter \<Rightarrow> thrown \<Rightarrow> bool" where
  "confirm_throws adapter e \<longleftrightarrow>
     e = DbThrown UniqueViolation \<or> (\<exists>h. getConfirmations adapter h = Inl e \<and> \<not> is_NotFoundError e)"

lemma active_statuses:
  assumes "pipeline_inv req s" "current s (p, i)"
  shows "inv_status i = invoice_status_of (pay_status p)"
  using payment_single_ok(1) [OF assms(1)] current_rows [OF assms] by blast

lemma failPayment_eq:
  assumes "pipeline_inv req s" "current s (p, i)" "is_active p"
  shows "failPayment env p i s =
    (Inr (), touch (pay_invoiceId p) (inv_moves Inv_FAILED (pe_now env))
       (pay_moves Pay_FAILED (pe_now env)) [] [] s)"
  using assms(3) active_statuses [OF assms(1,2)]
  by (auto simp: failPayment_def touches [OF assms(1,2)] is_active_def)

lemma moveToConfirming_eq:
  assumes "pipeline_inv req s" "current s (p, i)"
    and "pay_status p = Pay_DETECTED \<or> pay_status p = Pay_REORG_DETECTED"
  shows "moveToConfirming env p i c s =
    (Inr (), touch (pay_invoiceId p) (inv_moves Inv_CONFIRMING (pe_now env))
       (pay_confirming c (pe_now env)) [] [] s)"
  using assms(3) active_statuses [OF assms(1,2)]
  by (auto simp: moveToConfirming_def touches [OF assms(1,2)])

lemma final_asserts [simp]:
  "assertPaymentTransition Pay_CONFIRMING (final_payment_status a) = Inr ()"
  "assertInvoiceTransition Inv_CONFIRMING (final_invoice_status a) = Inr ()"
  by (cases a; simp)+

lemma finalizePayment_eq:
  assumes "pipeline_inv req s" "current s (p, i)"
  shows "finalizePayment env p i c s =
    (let a = payment_outcome p;
         e = event_for env i (final_event_type a) (final_invoice_status a) (pay_txHash p)
     in if \<exists>e' \<in> set (events s). evt_id e = evt_id e' then (Inl (DbThrown UniqueViolation), s)
        else (Inr (), touch (pay_invoiceId p) (inv_finalized (final_invoice_status a) (pe_now env))
                (pay_finalized (final_payment_status a) c (pe_now env)) [] [e] s))"
  by (simp add: finalizePayment_def touches [OF assms] Let_def)

lemma handleMissingTransaction_step:
  assumes inv: "pipeline_inv req s" and cur: "current s (p, i)" and act: "is_active p"
    and run: "handleMissingTransaction env p i s = (r, s')"
  shows "(s' = s \<or> pipe_step req (pay_invoiceId p) s s') \<and> r = Inr ()"
proof -
  note rows = current_rows(4,3) [OF inv cur]
  show ?thesis
  proof (cases "pay_status p = Pay_CONFIRMING")
    case True
    then have "handleMissingTransaction env p i s =
        (Inr (), touch (pay_invoiceId p) id (pay_moves Pay_REORG_DETECTED (pe_now env)) [] [] s)"
      by (simp add: handleMissingTransaction_def touches [OF inv cur])
    with run show ?thesis using vanishing [OF rows True] by auto
  next
    case False
    with run show ?thesis
      using failing [OF rows act] failPayment_eq [OF inv cur act]
      by (auto simp: handleMissingTransaction_def ret_def split: if_splits)
  qed
qed

lemma confirm_payment_step:
  assumes inv: "pipeline_inv req s" and cur: "current s (p, i)" and act: "is_active p"
    and run: "confirm_payment env adapter req (p, i) s = (r, s')"
  shows "(s' = s \<or> pipe_step req (pay_invoiceId p) s s') \<and>
    (\<forall>e. r = Inl e \<longrightarrow> confirm_throws adapter e)"
proof (cases "pay_txHash p")
  case None
  with run show ?thesis by (auto simp: confirm_payment_def ret_def)
next
  case (Some h)
  note rows = current_rows(4,3) [OF inv cur]
  show ?thesis
  proof (cases "getConfirmations adapter h")
    case (Inl e)
    with Some run show ?thesis
      using handleMissingTransaction_step [OF inv cur act, of env r s']
      by (auto simp: confirm_payment_def confirm_throws_def ret_def throw_def split: if_splits)
  next
    case (Inr c)
    consider (move) "pay_status p = Pay_DETECTED \<or> pay_status p = Pay_REORG_DETECTED"
      | (wait) "pay_status p = Pay_CONFIRMING" "c < req"
      | (finish) "pay_status p = Pay_CONFIRMING" "req \<le> c"
      using act by (fastforce simp: is_active_def)
    then show ?thesis
    proof cases
      case move
      with Some Inr run show ?thesis
        using confirming [OF rows move] moveToConfirming_eq [OF inv cur move]
        by (auto simp: confirm_payment_def ret_def split: if_splits)
    next
      case wait
      with Some Inr run show ?thesis
        using counting [OF rows wait] 
        by (auto simp: confirm_payment_def ret_def touches [OF inv cur] split: if_splits)
    next
      case finish
      with Some Inr run show ?thesis
        using finalizing [OF rows finish refl]
        by (auto simp: confirm_payment_def confirm_throws_def ret_def Let_def
            finalizePayment_eq [OF inv cur] split: if_splits)
    qed
  qed
qed

definition active_snapshot_row :: "store \<Rightarrow> payment \<times> invoice \<Rightarrow> bool" where
  "active_snapshot_row s x \<longleftrightarrow> current s x \<and> is_active (fst x)"

lemma confirm_loop:
  assumes inv: "pipeline_inv req s"
    and run: "seq (\<lambda>s. (attach_invoices s (filter is_active (payments s)), s))
      (for_each (confirm_payment env adapter req)) s = (r, s')"
  shows "pipe_steps req s s' \<and> (\<forall>e. r = Inl e \<longrightarrow> confirm_throws adapter e)"
proof -
  obtain xs where xs: "attach_invoices s (filter is_active (payments s)) = Inr xs"
    "\<forall>x \<in> set xs. current s x \<and> is_active (fst x)" "distinct (map (\<lambda>x. pay_invoiceId (fst x)) xs)"
    by (rule active_snapshot [OF inv])
  have run': "for_each (confirm_payment env adapter req) xs s = (r, s')"
    using run xs(1) by (simp add: seq_def)
  show ?thesis
  proof (rule snapshot_loop [OF _ _ xs(3) _ inv run'])
    show "(t = u \<or> pipe_step req (pay_invoiceId (fst x)) u t) \<and>
        (\<forall>e. q = Inl e \<longrightarrow> confirm_throws adapter e)"
      if "pipeline_inv req u" "active_snapshot_row u x"
        "confirm_payment env adapter req x u = (q, t)" for x u q t
      using that confirm_payment_step [of req u "fst x" "snd x" env adapter q t]
      by (simp add: active_snapshot_row_def)
    show "active_snapshot_row t x"
      if "active_snapshot_row u x" "pipe_step req k u t" "pay_invoiceId (fst x) \<noteq> k" for x k u t
      using that pipe_step_current [OF that(2)] by (simp add: active_snapshot_row_def)
    show "\<forall>x \<in> set xs. active_snapshot_row s x" using xs(2) by (simp add: active_snapshot_row_def)
  qed
qed

lemma runPaymentConfirm_ok: "pass_ok req (confirm_throws adapter) (runPaymentConfirm env adapter req)"
  unfolding runPaymentConfirm_def
proof (rule pass_ok_seq)
  show "pass_ok req (confirm_throws adapter) (expireOverdueInvoices env)"
    by (rule pass_ok_weaken [OF expireOverdueInvoices_ok])
      (simp add: collision_only_def confirm_throws_def)
  show "pass_ok req (confirm_throws adapter)
      (seq (\<lambda>s. (attach_invoices s (filter is_active (payments s)), s))
        (for_each (confirm_payment env adapter req)))"
    by (rule pass_okI) (rule confirm_loop)
qed

section \<open>The scanner\<close>

lemma detect_touch:
  "detect env t i s = touch (inv_id i) (inv_moves Inv_DETECTED (pe_now env)) id
     [detected_payment env t i] [] s"
  by (simp add: detect_def touch_def)

lemma tryMatchTransfer_ok: "pass_ok req collision_only (tryMatchTransfer env t)"
proof (rule pass_okI)
  fix s r s'
  assume inv: "pipeline_inv req s" and run: "tryMatchTransfer env t s = (r, s')"
  show "pipe_steps req s s' \<and> (\<forall>e. r = Inl e \<longrightarrow> collision_only e)"
  proof (cases rule: tryMatchTransfer_cases [of env t s])
    case idle
    with run show ?thesis by auto
  next
    case clash
    with run show ?thesis by (auto simp: collision_only_def)
  next
    case (detected i)
    note sel = pending_candidates_selected [OF detected(2)]
    have "pipe_step req (inv_id i) s (detect env t i s)"
      unfolding detect_touch
      by (rule pipe_step.detect) (use sel detected(3) inv_row_iff [OF inv] in auto)
    with detected(1) run show ?thesis by (auto intro: pipe_steps_step [OF pipe_steps_refl])
  qed
qed

definition scan_throws :: "chain_adapter \<Rightarrow> thrown \<Rightarrow> bool" where
  "scan_throws adapter e \<longleftrightarrow>
     e = DbThrown UniqueViolation \<or> e = DbThrown RecordNotFound \<or> getLatestBlock adapter = Inl e \<or>
     (\<exists>a b. getTokenTransfers adapter a b = Inl e)"

lemma runBlockchainScan_ok: "pass_ok req (scan_throws adapter) (runBlockchainScan env adapter network)"
proof -
  have up: "pass_ok req (scan_throws adapter) (upsert_cursor network)"
    by (rule pass_ok_elsewhere)
      (auto simp: upsert_cursor_def create_row_def eff_defs scan_throws_def split: option.splits if_splits)
  have set_c: "pass_ok req (scan_throws adapter) (set_cursor network b)" for b
    by (rule pass_ok_elsewhere)
      (auto simp: set_cursor_def update_row_def scan_throws_def split: if_splits)
  have matching: "pass_ok req (scan_throws adapter) (tryMatchTransfer env t)" for t
    by (rule pass_ok_weaken [OF tryMatchTransfer_ok]) (simp add: collision_only_def scan_throws_def)
  have look: "pass_ok req (scan_throws adapter) (lift (getLatestBlock adapter))"
    "pass_ok req (scan_throws adapter) (lift (getTokenTransfers adapter a b))" for a b
    by (rule pass_ok_simps(4); auto simp: scan_throws_def)+
  show ?thesis
    unfolding runBlockchainScan_def Let_def
    by (auto intro!: pass_ok_seq up set_c matching look pass_ok_for_each)
qed

end
