(* ===== verification/Api_Payments.thy ===== *)
theory Api_Payments
  imports Worker_Pipeline
begin

text \<open>
  The API's in-process pipeline (\<open>apps/api/src/payments/payments.service.ts\<close>), the one that
  runs when \<open>BLOCKCHAIN_MODE=fake\<close>. Beside the database it keeps the scan watermark and the
  re-entrancy flag in memory, and the adapter registry holds the fake chain, which
  \<open>simulatePayment\<close> writes to. \<open>viem\<close> is the RPC client of an EVM adapter.
\<close>

record api_state =
  ap_store :: store
  ap_lastScannedBlock :: int
  ap_ticking :: bool
  ap_registry :: "string \<rightharpoonup> adapter_instance"

type_synonym 'a api_op = "(api_state, thrown, 'a) eff"

definition on_store :: "'a db_op \<Rightarrow> 'a api_op" where
  "on_store m = (\<lambda>a. case m (ap_store a) of (r, s) \<Rightarrow> (r, a\<lparr>ap_store := s\<rparr>))"

definition FAKE_MODE_NETWORK :: string where
  "FAKE_MODE_NETWORK = ''base''"

text \<open>\<open>onModuleInit\<close>: only the fake mode polls in this process.\<close>

definition polls_in_process :: "blockchain_mode \<Rightarrow> bool" where
  "polls_in_process mode \<longleftrightarrow> mode = Mode_fake"

definition registry_adapter ::
    "viem \<Rightarrow> millis \<Rightarrow> (string \<rightharpoonup> adapter_instance) \<Rightarrow> string \<Rightarrow> thrown + chain_adapter" where
  "registry_adapter v now registry network =
     (case registry_get registry network of
        Inl e \<Rightarrow> Inl e
      | Inr instance_of_adapter \<Rightarrow> Inr (adapter_of v now instance_of_adapter))"

section \<open>The service's own copies of the pipeline's steps\<close>

definition api_createWebhookEvent ::
    "pass_env \<Rightarrow> invoice \<Rightarrow> string \<Rightarrow> invoice_status \<Rightarrow> string option \<Rightarrow> unit db_op" where
  "api_createWebhookEvent env i type status txHash =
     create_event
       \<lparr>evt_id = newId env ''evt'' (inv_id i),
        evt_organizationId = inv_organizationId i,
        evt_invoiceId = inv_id i,
        evt_type = type,
        evt_data =
          \<lparr>ed_invoice_id = inv_id i,
           ed_external_id = inv_externalId i,
           ed_amount = pe_decimalToString env (inv_amount i),
           ed_currency = inv_currency i,
           ed_network = inv_network i,
           ed_status = to_lower (invoice_status_name status),
           ed_tx_hash = txHash\<rparr>,
        evt_createdAt = pe_now env\<rparr>"

definition api_expireOverdueInvoices :: "pass_env \<Rightarrow> unit db_op" where
  "api_expireOverdueInvoices env =
     seq (reads (\<lambda>s. filter (\<lambda>i. inv_status i = Inv_PENDING \<and> inv_expiresAt i < pe_now env)
                       (invoices s)))
       (for_each (\<lambda>i.
          seq (lift (assertInvoiceTransition Inv_PENDING Inv_EXPIRED)) (\<lambda>_.
          transaction
            [update_invoice (pe_now env) (inv_id i) (\<lambda>r. r\<lparr>inv_status := Inv_EXPIRED\<rparr>),
             api_createWebhookEvent env i ''invoice.expired'' Inv_EXPIRED None])))"

definition api_tryMatchTransfer :: "pass_env \<Rightarrow> token_transfer \<Rightarrow> unit db_op" where
  "api_tryMatchTransfer env transfer =
     seq (reads (\<lambda>s. filter (\<lambda>i. inv_paymentAddress i = tr_toAddress transfer \<and>
                 inv_network i = tr_network transfer \<and>
                 inv_token i = tr_token transfer \<and>
                 inv_status i = Inv_PENDING) (invoices s))) (\<lambda>candidates.
       case selectMatchingInvoice candidates transfer of
         None \<Rightarrow> ret ()
       | Some i \<Rightarrow>
           seq (reads (payment_of_tx (inv_network i) (tr_txHash transfer))) (\<lambda>alreadySeen.
             if alreadySeen \<noteq> None then ret ()
             else
               seq (lift (assertPaymentTransition Pay_PENDING Pay_DETECTED)) (\<lambda>_.
               seq (lift (assertInvoiceTransition Inv_PENDING Inv_DETECTED)) (\<lambda>_.
               transaction
                 [create_payment
                    \<lparr>pay_id = newId env ''pay'' (tr_txHash transfer),
                     pay_invoiceId = inv_id i,
                     pay_organizationId = inv_organizationId i,
                     pay_network = inv_network i,
                     pay_token = tr_token transfer,
                     pay_expectedAmount = inv_amount i,
                     pay_receivedAmount = Some (tr_amount transfer),
                     pay_txHash = Some (tr_txHash transfer),
                     pay_fromAddress = Some (tr_fromAddress transfer),
                     pay_toAddress = tr_toAddress transfer,
                     pay_blockNumber = Some (tr_blockNumber transfer),
                     pay_confirmations = 0,
                     pay_status = Pay_DETECTED,
                     pay_detectedAt = Some (pe_now env),
                     pay_confirmedAt = None,
                     pay_createdAt = pe_now env,
                     pay_updatedAt = pe_now env\<rparr>,
                  update_invoice (pe_now env) (inv_id i)
                    (\<lambda>r. r\<lparr>inv_status := Inv_DETECTED\<rparr>)]))))"

definition failOrphanedPayment :: "pass_env \<Rightarrow> payment \<Rightarrow> invoice \<Rightarrow> unit db_op" where
  "failOrphanedPayment env p i =
     seq (lift (assertPaymentTransition (pay_status p) Pay_FAILED)) (\<lambda>_.
     seq (lift (assertInvoiceTransition (inv_status i) Inv_FAILED)) (\<lambda>_.
     transaction
       [update_payment (pe_now env) (pay_id p) (\<lambda>r. r\<lparr>pay_status := Pay_FAILED\<rparr>),
        update_invoice (pe_now env) (pay_invoiceId p) (\<lambda>r. r\<lparr>inv_status := Inv_FAILED\<rparr>)]))"

definition api_moveToConfirming :: "pass_env \<Rightarrow> payment \<Rightarrow> int \<Rightarrow> unit db_op" where
  "api_moveToConfirming env p confirmations =
     seq (lift (assertPaymentTransition Pay_DETECTED Pay_CONFIRMING)) (\<lambda>_.
     seq (lift (assertInvoiceTransition Inv_DETECTED Inv_CONFIRMING)) (\<lambda>_.
     transaction
       [update_payment (pe_now env) (pay_id p)
          (\<lambda>r. r\<lparr>pay_status := Pay_CONFIRMING, pay_confirmations := confirmations\<rparr>),
        update_invoice (pe_now env) (pay_invoiceId p) (\<lambda>r. r\<lparr>inv_status := Inv_CONFIRMING\<rparr>)]))"

definition api_finalizePayment :: "pass_env \<Rightarrow> payment \<Rightarrow> invoice \<Rightarrow> int \<Rightarrow> unit db_op" where
  "api_finalizePayment env p i confirmations =
     (let outcome = evaluatePaymentAmount (pay_expectedAmount p)
                      (case pay_receivedAmount p of None \<Rightarrow> 0 | Some a \<Rightarrow> a);
          paymentStatus =
            (if outcome = Exact then Pay_CONFIRMED
             else if outcome = Underpaid then Pay_UNDERPAID else Pay_OVERPAID);
          invoiceStatus =
            (if outcome = Exact then Inv_PAID
             else if outcome = Underpaid then Inv_UNDERPAID else Inv_OVERPAID);
          eventType =
            (if outcome = Exact then ''payment.paid''
             else if outcome = Underpaid then ''payment.underpaid'' else ''payment.overpaid'')
      in seq (lift (assertPaymentTransition Pay_CONFIRMING paymentStatus)) (\<lambda>_.
         seq (lift (assertInvoiceTransition Inv_CONFIRMING invoiceStatus)) (\<lambda>_.
         transaction
           [update_payment (pe_now env) (pay_id p)
              (\<lambda>r. r\<lparr>pay_status := paymentStatus, pay_confirmations := confirmations,
                     pay_confirmedAt := Some (pe_now env)\<rparr>),
            update_invoice (pe_now env) (pay_invoiceId p)
              (\<lambda>r. if invoiceStatus = Inv_PAID
                   then r\<lparr>inv_status := invoiceStatus, inv_paidAt := Some (pe_now env)\<rparr>
                   else r\<lparr>inv_status := invoiceStatus\<rparr>),
            api_createWebhookEvent env i eventType invoiceStatus (pay_txHash p)])))"

section \<open>The tick\<close>

definition detect_with :: "chain_adapter \<Rightarrow> pass_env \<Rightarrow> unit api_op" where
  "detect_with adapter env =
     seq (lift (getLatestBlock adapter)) (\<lambda>latestBlock.
     seq (reads ap_lastScannedBlock) (\<lambda>lastScannedBlock.
     seq (if latestBlock > lastScannedBlock
          then seq (lift (getTokenTransfers adapter (lastScannedBlock + 1) latestBlock)) (\<lambda>transfers.
               for_each (\<lambda>t. on_store (api_tryMatchTransfer env t)) transfers)
          else ret ()) (\<lambda>_.
     modify (\<lambda>a. a\<lparr>ap_lastScannedBlock := max (ap_lastScannedBlock a) (latestBlock - 1)\<rparr>))))"

definition detectNewPayments :: "viem \<Rightarrow> pass_env \<Rightarrow> unit api_op" where
  "detectNewPayments v env =
     seq (\<lambda>a. (registry_adapter v (pe_now env) (ap_registry a) FAKE_MODE_NETWORK, a)) (\<lambda>adapter.
     detect_with adapter env)"

definition is_advancing :: "payment \<Rightarrow> bool" where
  "is_advancing p \<longleftrightarrow> pay_status p \<in> {Pay_DETECTED, Pay_CONFIRMING}"

definition advance_payment ::
    "viem \<Rightarrow> pass_env \<Rightarrow> int \<Rightarrow> payment \<times> invoice \<Rightarrow> unit api_op" where
  "advance_payment v env requiredConfirmations = (\<lambda>(p, i) a.
     (case pay_txHash p of
        None \<Rightarrow> ret () a
      | Some txHash \<Rightarrow>
          if txHash = [] then ret () a
          else
            (case (case registry_adapter v (pe_now env) (ap_registry a) (pay_network p) of
                     Inl e \<Rightarrow> Inl e
                   | Inr adapter \<Rightarrow> getConfirmations adapter txHash) of
               Inl e \<Rightarrow>
                 if is_NotFoundError e then on_store (failOrphanedPayment env p i) a else throw e a
             | Inr confirmations \<Rightarrow>
                 if pay_status p = Pay_DETECTED
                 then on_store (api_moveToConfirming env p confirmations) a
                 else if confirmations < requiredConfirmations then
                   (if confirmations \<noteq> pay_confirmations p
                    then on_store (update_payment (pe_now env) (pay_id p)
                           (\<lambda>r. r\<lparr>pay_confirmations := confirmations\<rparr>)) a
                    else ret () a)
                 else on_store (api_finalizePayment env p i confirmations) a)))"

definition advanceConfirmations :: "viem \<Rightarrow> pass_env \<Rightarrow> int \<Rightarrow> unit api_op" where
  "advanceConfirmations v env requiredConfirmations =
     seq (on_store (\<lambda>s. (attach_invoices s (filter is_advancing (payments s)), s))) (\<lambda>active.
     for_each (advance_payment v env requiredConfirmations) active)"

definition tick :: "viem \<Rightarrow> pass_env \<Rightarrow> int \<Rightarrow> unit api_op" where
  "tick v env requiredConfirmations =
     seq (reads ap_ticking) (\<lambda>ticking.
     if ticking then ret ()
     else
       seq (modify (\<lambda>a. a\<lparr>ap_ticking := True\<rparr>)) (\<lambda>_.
       ensuring
         (seq (on_store (api_expireOverdueInvoices env)) (\<lambda>_.
          seq (detectNewPayments v env) (\<lambda>_.
          advanceConfirmations v env requiredConfirmations)))
         (\<lambda>a. a\<lparr>ap_ticking := False\<rparr>)))"

section \<open>The payment simulator\<close>

text \<open>
  \<open>amount\<close> is the request's amount when it has one; \<open>randomHex\<close> and \<open>fakeAddress\<close> are
  the random strings the fake adapter draws.
\<close>

definition doSimulatePayment ::
    "viem \<Rightarrow> pass_env \<Rightarrow> int \<Rightarrow> string \<Rightarrow> string \<Rightarrow> invoice \<Rightarrow> decimal option \<Rightarrow> invoice api_op" where
  "doSimulatePayment v env requiredConfirmations randomHex fakeAddress i amount =
     (if inv_status i \<noteq> Inv_PENDING
      then throw (AppThrown (conflict_error
             (''Invoice is '' @ invoice_status_name (inv_status i) @ '', not awaiting payment'')))
      else
        seq (\<lambda>a. (registry_get (ap_registry a) (inv_network i), a)) (\<lambda>adapter.
        case adapter of
          EvmBlockchainAdapter _ \<Rightarrow>
            throw (AppThrown (conflict_error
              ''Payment simulation is only available on the fake blockchain adapter''))
        | FakeBlockchainAdapter fc \<Rightarrow>
            seq (modify (\<lambda>a. a\<lparr>ap_registry := (ap_registry a)(inv_network i \<mapsto>
                   FakeBlockchainAdapter (snd (fake_simulatePayment fc (pe_now env) randomHex fakeAddress
                     \<lparr>tr_network = inv_network i, tr_token = inv_token i,
                      tr_toAddress = inv_paymentAddress i,
                      tr_amount = (case amount of None \<Rightarrow> inv_amount i | Some x \<Rightarrow> x),
                      sim_fromAddress = None\<rparr>)))\<rparr>)) (\<lambda>_.
            seq (tick v env requiredConfirmations) (\<lambda>_.
            \<lambda>a. (case inv_row (ap_store a) (inv_id i) of
                   None \<Rightarrow> (Inl (DbThrown RecordNotFound), a)
                 | Some j \<Rightarrow> (Inr j, a))))))"

definition simulatePayment ::
    "viem \<Rightarrow> pass_env \<Rightarrow> int \<Rightarrow> string \<Rightarrow> string \<Rightarrow> ident \<Rightarrow> ident \<Rightarrow> decimal option \<Rightarrow> invoice api_op" where
  "simulatePayment v env requiredConfirmations randomHex fakeAddress organizationId invoiceId amount =
     seq (reads (\<lambda>a. find (\<lambda>i. inv_id i = invoiceId \<and> inv_organizationId i = organizationId)
                       (invoices (ap_store a)))) (\<lambda>found.
     case found of
       None \<Rightarrow> throw (AppThrown (not_found_error ''Invoice not found''))
     | Some i \<Rightarrow> doSimulatePayment v env requiredConfirmations randomHex fakeAddress i amount)"

definition simulatePaymentForCheckout ::
    "viem \<Rightarrow> pass_env \<Rightarrow> int \<Rightarrow> string \<Rightarrow> string \<Rightarrow> ident \<Rightarrow> decimal option \<Rightarrow> invoice api_op" where
  "simulatePaymentForCheckout v env requiredConfirmations randomHex fakeAddress invoiceId amount =
     seq (reads (\<lambda>a. inv_row (ap_store a) invoiceId)) (\<lambda>found.
     case found of
       None \<Rightarrow> throw (AppThrown (not_found_error ''Invoice not found''))
     | Some i \<Rightarrow> doSimulatePayment v env requiredConfirmations randomHex fakeAddress i amount)"

section \<open>The copies agree with the worker\<close>

lemma api_createWebhookEvent_eq: "api_createWebhookEvent = createWebhookEvent"
  by (simp add: fun_eq_iff api_createWebhookEvent_def createWebhookEvent_def event_for_def)

lemma api_expireOverdueInvoices_eq: "api_expireOverdueInvoices = expireOverdueInvoices"
  by (simp add: fun_eq_iff api_expireOverdueInvoices_def expireOverdueInvoices_def
      overdue_invoices_def [abs_def] expire_invoice_def [abs_def] api_createWebhookEvent_eq)

lemma api_tryMatchTransfer_eq: "api_tryMatchTransfer = tryMatchTransfer"
  unfolding api_tryMatchTransfer_def [abs_def] tryMatchTransfer_def [abs_def]
    pending_candidates_def [abs_def] detected_payment_def ..

lemma failOrphanedPayment_eq: "failOrphanedPayment = failPayment"
  by (simp add: fun_eq_iff failOrphanedPayment_def failPayment_def)

lemma api_finalizePayment_eq: "api_finalizePayment = finalizePayment"
proof (intro ext)
  fix env p i c s
  show "api_finalizePayment env p i c s = finalizePayment env p i c s"
    by (cases "payment_outcome p")
      (simp_all add: api_finalizePayment_def finalizePayment_def api_createWebhookEvent_eq Let_def
        payment_outcome_def)
qed

text \<open>C36. The API's in-process pipeline and the worker make the same writes: their copies of
  expiry, matching, failing and finalizing are the same operations, and the API's move to
  CONFIRMING is the worker's on a DETECTED payment with a DETECTED invoice.\<close>

theorem api_steps_are_worker_steps:
  "api_expireOverdueInvoices env = expireOverdueInvoices env \<and>
   api_tryMatchTransfer env t = tryMatchTransfer env t \<and>
   failOrphanedPayment env p i = failPayment env p i \<and>
   api_finalizePayment env p i c = finalizePayment env p i c \<and>
   api_moveToConfirming env p c =
     moveToConfirming env (p\<lparr>pay_status := Pay_DETECTED\<rparr>) (i\<lparr>inv_status := Inv_DETECTED\<rparr>) c"
  by (simp add: api_expireOverdueInvoices_eq api_tryMatchTransfer_eq failOrphanedPayment_eq
      api_finalizePayment_eq api_moveToConfirming_def moveToConfirming_def)

section \<open>The tick refines the pipeline's contract\<close>

lemma pass_on_store:
  "pass_ok req E m \<Longrightarrow> pass_on ap_store req E (on_store m)"
  by (auto simp: pass_on_def on_store_def split: prod.splits)

text \<open>Everything the registry's adapters can throw.\<close>

definition adapter_throws :: "viem \<Rightarrow> millis \<Rightarrow> thrown \<Rightarrow> bool" where
  "adapter_throws v now e \<longleftrightarrow>
     e = DbThrown UniqueViolation \<or>
     (\<exists>registry network. registry_adapter v now registry network = Inl e) \<or>
     (\<exists>registry network adapter. registry_adapter v now registry network = Inr adapter \<and>
        (getLatestBlock adapter = Inl e \<or> (\<exists>x y. getTokenTransfers adapter x y = Inl e) \<or>
         (\<exists>h. getConfirmations adapter h = Inl e)))"

text \<open>The loop of \<open>advanceConfirmations\<close> only reads the registry, so it is a loop on the
  store with a fixed answer \<open>look\<close> to \<open>getConfirmations\<close>.\<close>

definition advance_row ::
    "(string \<Rightarrow> string \<Rightarrow> thrown + int) \<Rightarrow> pass_env \<Rightarrow> int \<Rightarrow> payment \<times> invoice \<Rightarrow> unit db_op" where
  "advance_row look env req = (\<lambda>(p, i).
     (case pay_txHash p of
        None \<Rightarrow> ret ()
      | Some h \<Rightarrow>
          if h = [] then ret ()
          else
            (case look (pay_network p) h of
               Inl e \<Rightarrow> if is_NotFoundError e then failPayment env p i else throw e
             | Inr c \<Rightarrow>
                 if pay_status p = Pay_DETECTED then api_moveToConfirming env p c
                 else if c < req then
                   (if c \<noteq> pay_confirmations p
                    then update_payment (pe_now env) (pay_id p) (\<lambda>r. r\<lparr>pay_confirmations := c\<rparr>)
                    else ret ())
                 else finalizePayment env p i c)))"

definition look_in :: "viem \<Rightarrow> millis \<Rightarrow> (string \<rightharpoonup> adapter_instance) \<Rightarrow> string \<Rightarrow> string \<Rightarrow> thrown + int" where
  "look_in v now registry network h =
     (case registry_adapter v now registry network of
        Inl e \<Rightarrow> Inl e
      | Inr adapter \<Rightarrow> getConfirmations adapter h)"

lemma on_store_simps:
  "on_store (ret x) = ret x" "on_store (throw e) = throw e"
  by (simp_all add: on_store_def eff_defs fun_eq_iff)

lemma advance_payment_on_store:
  "advance_payment v env req x a =
   on_store (advance_row (look_in v (pe_now env) (ap_registry a)) env req x) a"
  by (cases x)
    (simp add: advance_payment_def advance_row_def look_in_def on_store_simps failOrphanedPayment_eq
      api_finalizePayment_eq split: option.split sum.split)

lemma advance_loop_on_store:
  "for_each (advance_payment v env req) xs a =
   on_store (for_each (advance_row (look_in v (pe_now env) (ap_registry a)) env req) xs) a"
proof (induction xs arbitrary: a)
  case Nil
  then show ?case by (simp add: on_store_simps)
next
  case (Cons x xs)
  then show ?case
    by (simp add: seq_def advance_payment_on_store on_store_def split: prod.splits sum.splits)
qed

lemma adapter_collision: "adapter_throws v now (DbThrown UniqueViolation)"
  by (simp add: adapter_throws_def)

lemma look_in_throws: "look_in v now registry n h = Inl e \<Longrightarrow> adapter_throws v now e"
  by (auto simp: look_in_def adapter_throws_def split: sum.splits)

lemma api_moveToConfirming_eq:
  assumes "pipeline_inv req s" "current s (p, i)" "pay_status p = Pay_DETECTED"
  shows "api_moveToConfirming env p c s =
    (Inr (), touch (pay_invoiceId p) (inv_moves Inv_CONFIRMING (pe_now env))
       (pay_confirming c (pe_now env)) [] [] s)"
  by (simp add: api_moveToConfirming_def touches [OF assms(1,2)])

lemma advance_row_step:
  assumes inv: "pipeline_inv req s" and cur: "current s (p, i)" and act: "is_advancing p"
    and run: "advance_row look env req (p, i) s = (r, s')"
  shows "(s' = s \<or> pipe_step req (pay_invoiceId p) s s') \<and>
    (\<forall>e. r = Inl e \<longrightarrow> e = DbThrown UniqueViolation \<or> (\<exists>n h. look n h = Inl e))"
proof (cases "pay_txHash p")
  case None
  with run show ?thesis by (auto simp: advance_row_def ret_def)
next
  case (Some h)
  note rows = current_rows(4,3) [OF inv cur]
  have active: "is_active p" using act by (auto simp: is_active_def is_advancing_def)
  show ?thesis
  proof (cases "look (pay_network p) h")
    case (Inl e)
    with Some run show ?thesis
      using failing [OF rows active] failPayment_eq [OF inv cur active]
      by (auto simp: advance_row_def ret_def throw_def split: if_splits)
  next
    case (Inr c)
    consider (move) "pay_status p = Pay_DETECTED"
      | (wait) "pay_status p = Pay_CONFIRMING" "c < req"
      | (finish) "pay_status p = Pay_CONFIRMING" "req \<le> c"
      using act by (fastforce simp: is_advancing_def)
    then show ?thesis
    proof cases
      case move
      with Some Inr run show ?thesis
        using confirming [OF rows disjI1 [OF move]]
        by (auto simp: advance_row_def ret_def api_moveToConfirming_eq [OF inv cur] split: if_splits)
    next
      case wait
      with Some Inr run show ?thesis
        using counting [OF rows wait]
        by (auto simp: advance_row_def ret_def touches [OF inv cur] split: if_splits)
    next
      case finish
      with Some Inr run show ?thesis
        using finalizing [OF rows finish refl]
        by (auto simp: advance_row_def ret_def Let_def finalizePayment_eq [OF inv cur]
            split: if_splits)
    qed
  qed
qed

lemma advanceConfirmations_ok:
  "pass_on ap_store req (adapter_throws v (pe_now env)) (advanceConfirmations v env req)"
proof (rule pass_okI)
  fix a r a'
  assume inv: "pipeline_inv req (ap_store a)" and run: "advanceConfirmations v env req a = (r, a')"
  obtain xs where xs: "attach_invoices (ap_store a) (filter is_advancing (payments (ap_store a))) = Inr xs"
    "\<forall>x \<in> set xs. current (ap_store a) x \<and> is_advancing (fst x)"
    "distinct (map (\<lambda>x. pay_invoiceId (fst x)) xs)"
    by (rule active_snapshot [OF inv])
  let ?f = "advance_row (look_in v (pe_now env) (ap_registry a)) env req"
  let ?snap = "\<lambda>s x. current s x \<and> is_advancing (fst x)"
  obtain s' where loop: "for_each ?f xs (ap_store a) = (r, s')" and a': "ap_store a' = s'"
    using run xs(1)
    by (auto simp: advanceConfirmations_def seq_def on_store_def advance_loop_on_store
        split: prod.splits)
  have "pipe_steps req (ap_store a) s' \<and> (\<forall>e. r = Inl e \<longrightarrow> adapter_throws v (pe_now env) e)"
  proof (rule snapshot_loop [where snap = ?snap, OF _ _ xs(3,2) inv loop])
    show "(t = u \<or> pipe_step req (pay_invoiceId (fst x)) u t) \<and>
        (\<forall>e. q = Inl e \<longrightarrow> adapter_throws v (pe_now env) e)"
      if "pipeline_inv req u" "?snap u x" "?f x u = (q, t)" for x u q t
    proof -
      have "(t = u \<or> pipe_step req (pay_invoiceId (fst x)) u t) \<and>
          (\<forall>e. q = Inl e \<longrightarrow> e = DbThrown UniqueViolation \<or>
             (\<exists>n h. look_in v (pe_now env) (ap_registry a) n h = Inl e))"
        using advance_row_step [of req u "fst x" "snd x" _ env q t] that by simp
      then show ?thesis by (auto intro: look_in_throws adapter_collision)
    qed
    show "?snap t x"
      if "?snap u x" "pipe_step req k u t" "pay_invoiceId (fst x) \<noteq> k" for x k u t
      using that pipe_step_current [OF that(2)] by simp
  qed
  then show "pipe_steps req (ap_store a) (ap_store a') \<and>
      (\<forall>e. r = Inl e \<longrightarrow> adapter_throws v (pe_now env) e)"
    by (simp add: a')
qed

lemma detectNewPayments_ok:
  "pass_on ap_store req (adapter_throws v (pe_now env)) (detectNewPayments v env)"
proof (rule pass_okI)
  fix a r a'
  assume inv: "pipeline_inv req (ap_store a)" and run: "detectNewPayments v env a = (r, a')"
  let ?E = "adapter_throws v (pe_now env)"
  show "pipe_steps req (ap_store a) (ap_store a') \<and> (\<forall>e. r = Inl e \<longrightarrow> ?E e)"
  proof (cases "registry_adapter v (pe_now env) (ap_registry a) FAKE_MODE_NETWORK")
    case (Inl e)
    with run have "a' = a" "r = Inl e" by (auto simp: detectNewPayments_def seq_def)
    with Inl show ?thesis by (auto simp: adapter_throws_def)
  next
    case (Inr adapter)
    have E: "getLatestBlock adapter = Inl e \<Longrightarrow> ?E e" "getTokenTransfers adapter x y = Inl e \<Longrightarrow> ?E e"
      for e x y using Inr by (auto simp: adapter_throws_def)
    have look: "pass_on ap_store req ?E (lift (getLatestBlock adapter))"
      "pass_on ap_store req ?E (lift (getTokenTransfers adapter x y))" for x y
      by (rule pass_ok_simps(4), erule E)+
    have matching: "pass_on ap_store req ?E (on_store (api_tryMatchTransfer env t))" for t
      by (rule pass_on_store, simp add: api_tryMatchTransfer_eq)
        (rule pass_ok_weaken [OF tryMatchTransfer_ok], simp add: collision_only_def adapter_throws_def)
    have "pass_on ap_store req ?E (detect_with adapter env)"
      unfolding detect_with_def by (auto intro!: pass_ok_seq matching pass_ok_for_each look)
    moreover have "detect_with adapter env a = (r, a')"
      using run by (simp add: detectNewPayments_def Inr seq_def)
    ultimately show ?thesis using inv unfolding pass_on_def by blast
  qed
qed

lemma tick_ok: "pass_on ap_store req (adapter_throws v (pe_now env)) (tick v env req)"
proof -
  have "pass_on ap_store req (adapter_throws v (pe_now env)) (on_store (api_expireOverdueInvoices env))"
    by (rule pass_on_store, simp add: api_expireOverdueInvoices_eq)
      (rule pass_ok_weaken [OF expireOverdueInvoices_ok], simp add: collision_only_def adapter_throws_def)
  then show ?thesis
    unfolding tick_def
    by (auto intro!: pass_ok_seq pass_ok_ensuring detectNewPayments_ok advanceConfirmations_ok)
qed

section \<open>The tick's own state\<close>

lemma on_store_memory:
  "ap_lastScannedBlock (snd (on_store m a)) = ap_lastScannedBlock a"
  "ap_registry (snd (on_store m a)) = ap_registry a"
  by (simp_all add: on_store_def split: prod.split)

lemma keeps_on_store:
  "keeps (\<lambda>a. ap_lastScannedBlock a = n \<and> ap_registry a = g) (on_store m)"
  by (simp add: keeps_def on_store_memory)

lemma advance_memory:
  "keeps (\<lambda>a. ap_lastScannedBlock a = n \<and> ap_registry a = g) (advanceConfirmations v env req)"
  unfolding advanceConfirmations_def
  by (intro keeps_seq keeps_on_store) (auto simp: keeps_def advance_loop_on_store on_store_memory)

text \<open>The watermark a tick leaves: the old one, or one behind the latest block.\<close>

lemma detect_with_watermark:
  assumes "getLatestBlock adapter = Inr latest" and "detect_with adapter env a = (r, a')"
  shows "ap_lastScannedBlock a' \<in> {ap_lastScannedBlock a, max (ap_lastScannedBlock a) (latest - 1)} \<and>
    ap_registry a' = ap_registry a"
proof -
  let ?loop = "\<lambda>ts. for_each (\<lambda>t. on_store (api_tryMatchTransfer env t)) ts"
  have loop: "keeps (\<lambda>a. ap_lastScannedBlock a = n \<and> ap_registry a = g) (?loop ts)" for n g ts
    by (intro keeps_for_each keeps_on_store)
  let ?scan = "if latest > ap_lastScannedBlock a
    then seq (lift (getTokenTransfers adapter (ap_lastScannedBlock a + 1) latest)) ?loop else ret ()"
  have scan: "keeps (\<lambda>b. ap_lastScannedBlock b = ap_lastScannedBlock a \<and> ap_registry b = ap_registry a) ?scan"
    by (intro keeps_if keeps_seq keeps_lift keeps_ret loop)
  obtain q b where b: "?scan a = (q, b)" by (cases "?scan a")
  have "ap_lastScannedBlock b = ap_lastScannedBlock a \<and> ap_registry b = ap_registry a"
    using scan b unfolding keeps_def by (metis snd_conv)
  moreover have "seq ?scan (\<lambda>_. modify (\<lambda>a. a\<lparr>ap_lastScannedBlock := max (ap_lastScannedBlock a) (latest - 1)\<rparr>)) a = (r, a')"
    using assms by (simp add: detect_with_def seq_reads)
  ultimately show ?thesis using b by (cases q) (auto simp: seq_def modify_def)
qed

lemma tick_watermark:
  assumes "ap_registry a = [FAKE_MODE_NETWORK \<mapsto> FakeBlockchainAdapter fc]" and "tick v env req a = (r, a')"
  shows "ap_lastScannedBlock a' \<in> {ap_lastScannedBlock a,
      max (ap_lastScannedBlock a) (fake_currentBlock fc (pe_now env) - 1)}"
proof (cases "ap_ticking a")
  case True
  with assms show ?thesis by (simp add: tick_def seq_reads ret_def)
next
  case False
  let ?a = "a\<lparr>ap_ticking := True\<rparr>"
  let ?body = "seq (on_store (api_expireOverdueInvoices env)) (\<lambda>_.
          seq (detectNewPayments v env) (\<lambda>_. advanceConfirmations v env req))"
  obtain q b where b: "?body ?a = (q, b)" by (cases "?body ?a")
  have mem: "ap_lastScannedBlock a' = ap_lastScannedBlock b"
    using assms(2) False b by (auto simp: tick_def seq_reads ensuring_def) (auto simp: seq_def modify_def)
  obtain q1 a1 where a1: "on_store (api_expireOverdueInvoices env) ?a = (q1, a1)"
    by (cases "on_store (api_expireOverdueInvoices env) ?a")
  have m1: "ap_lastScannedBlock a1 = ap_lastScannedBlock a" "ap_registry a1 = ap_registry a"
    using on_store_memory [of "api_expireOverdueInvoices env" ?a] a1 by simp_all
  obtain q2 a2 where a2: "detectNewPayments v env a1 = (q2, a2)" by (cases "detectNewPayments v env a1")
  have "detect_with (fake_adapter fc (pe_now env)) env a1 = (q2, a2)"
    using a2 m1(2) assms(1)
    by (simp add: detectNewPayments_def seq_def registry_adapter_def registry_get_def)
  from detect_with_watermark [OF _ this] m1
  have m2: "ap_lastScannedBlock a2 \<in> {ap_lastScannedBlock a,
      max (ap_lastScannedBlock a) (fake_currentBlock fc (pe_now env) - 1)}"
    by (simp add: fake_adapter_def)
  have m3: "ap_lastScannedBlock (snd (advanceConfirmations v env req a2)) = ap_lastScannedBlock a2"
    using advance_memory [of "ap_lastScannedBlock a2" "ap_registry a2" v env req] unfolding keeps_def by simp
  have "ap_lastScannedBlock b \<in> {ap_lastScannedBlock a1, ap_lastScannedBlock a2}"
    using b a1 a2 m3 by (cases q1; cases q2) (auto simp: seq_def split: prod.splits)
  with m1 m2 mem show ?thesis by auto
qed

text \<open>The re-entrancy guard is released on every path: a tick leaves the flag as it found
  it, exceptions included, and a tick that finds it set does nothing at all.\<close>

theorem tick_guard:
  "ap_ticking (snd (tick v env req a)) = ap_ticking a \<and> (ap_ticking a \<longrightarrow> tick v env req a = (Inr (), a))"
  by (auto simp: tick_def reads_def ret_def ensuring_def seq_def modify_def split: prod.splits)

definition sample_viem :: viem where
  "sample_viem = \<lparr>vm_isAddress = (\<lambda>_. False), vm_formatUnits = (\<lambda>n _. of_int n), vm_getBlockNumber = Inr 0,
     vm_getTransactionReceipt = (\<lambda>_. ReceiptNotFound), vm_getTransaction = (\<lambda>_. Inl (OtherThrown [])),
     vm_getLogs = (\<lambda>_ _ _. Inr [])\<rparr>"

definition idle_env :: pass_env where
  "idle_env = \<lparr>pe_now = 5000, pe_randomBytes = (\<lambda>_ _. []), pe_decimalToString = (\<lambda>_. [])\<rparr>"

definition idle_state :: api_state where
  "idle_state = \<lparr>ap_store = empty_store, ap_lastScannedBlock = -1, ap_ticking = True,
     ap_registry = [FAKE_MODE_NETWORK \<mapsto> FakeBlockchainAdapter (new_fake_chain (Some 1000) 0)]\<rparr>"

theorem tick_guard_witness:
  "tick sample_viem idle_env 3 idle_state = (Inr (), idle_state)"
  using tick_guard [of sample_viem idle_env 3 idle_state] by (simp add: idle_state_def)

text \<open>The in-process watermark never passes a block that can still receive transfers: if
  it is behind the current block before a tick (it starts at -1), it is behind the current
  block after it, at any later time; so a transfer simulated later is among the transfers the
  next scan fetches. No simulated payment is ever skipped.\<close>

theorem simulated_transfer_not_skipped:
  assumes "fake_wf fc" and "ap_registry a = [FAKE_MODE_NETWORK \<mapsto> FakeBlockchainAdapter fc]"
    and "ap_lastScannedBlock a < fake_currentBlock fc (pe_now env)"
    and "tick v env req a = (r, a')" and "pe_now env \<le> t1" and "t1 \<le> t2"
    and "fake_simulatePayment fc t1 randomHex addr input = (transfer, fc')"
  shows "ap_lastScannedBlock a' < fake_currentBlock fc t1 \<and>
    (\<exists>ts. getTokenTransfers (fake_adapter fc' t2) (ap_lastScannedBlock a' + 1) (fake_currentBlock fc' t2) = Inr ts \<and>
          transfer \<in> set ts)"
proof -
  have mono: "fake_currentBlock fc (pe_now env) \<le> fake_currentBlock fc t1"
    "fake_currentBlock fc t1 \<le> fake_currentBlock fc t2"
    using fake_currentBlock_mono assms(1,5,6) by blast+
  have below: "ap_lastScannedBlock a' < fake_currentBlock fc t1"
    using tick_watermark [OF assms(2,4)] assms(3) mono(1) by auto
  have fc': "fc' = snd (fake_simulatePayment fc t1 randomHex addr input)"
    and tr: "transfer = fst (fake_simulatePayment fc t1 randomHex addr input)" using assms(7) by simp_all
  have "transfer \<in> set (fake_blockTransfers fc' (fake_currentBlock fc t1))"
    by (simp add: fc' tr fake_simulatePayment_blocks)
  moreover have "fake_currentBlock fc t1 \<in> set [ap_lastScannedBlock a' + 1..fake_currentBlock fc' t2]"
    using below mono(2) by (simp add: fc' fake_simulatePayment_clock)
  ultimately show ?thesis
    using below by (auto simp: fake_adapter_def fake_getTokenTransfers_def)
qed

theorem simulated_transfer_not_skipped_witness:
  "\<exists>a'. ap_lastScannedBlock a' < fake_currentBlock (new_fake_chain (Some 1000) 0) 7000 \<and>
     a' = snd (tick sample_viem idle_env 3 (idle_state\<lparr>ap_ticking := False\<rparr>))"
proof -
  have "ap_lastScannedBlock (snd (tick sample_viem idle_env 3 (idle_state\<lparr>ap_ticking := False\<rparr>))) <
      fake_currentBlock (new_fake_chain (Some 1000) 0) 7000"
    by (rule simulated_transfer_not_skipped [THEN conjunct1, OF new_fake_chain_wf [of "Some 1000" 0]
          _ _ surjective_pairing _ order_refl surjective_pairing])
      (simp_all add: idle_state_def idle_env_def fake_currentBlock_def new_fake_chain_def)
  then show ?thesis by blast
qed

end
