(* ===== verification/Validation.thy ===== *)
theory Validation
  imports App_Errors Shared_Ids
begin

text \<open>
  The request schemas of \<open>packages/validation\<close>. A schema is a function that returns the
  parsed value or \<open>None\<close>; \<open>trim\<close>, \<open>min\<close>, \<open>max\<close>, \<open>regex\<close>, \<open>toLowerCase\<close> and
  \<open>refine\<close> are read as zod documents them, and the two format checks of zod itself
  (\<open>email\<close>, \<open>url\<close>) are arguments. A decimal string denotes a rational number.
\<close>

section \<open>Strings\<close>

definition trimmed_between :: "nat \<Rightarrow> nat \<Rightarrow> string \<Rightarrow> string option" where
  "trimmed_between lo hi s =
     (let t = trim s in if lo \<le> length t \<and> length t \<le> hi then Some t else None)"

definition emailSchema :: "(string \<Rightarrow> bool) \<Rightarrow> string \<Rightarrow> string option" where
  "emailSchema is_email s =
     (let t = to_lower (trim s) in if is_email t \<and> length t \<le> 254 then Some t else None)"

definition passwordSchema :: "string \<Rightarrow> string option" where
  "passwordSchema v =
     (if 10 \<le> length v \<and> length v \<le> 256 \<and> list_ex is_alpha v \<and> list_ex is_digit v
      then Some v else None)"

definition totp_code_shape :: "string \<Rightarrow> bool" where
  "totp_code_shape s \<longleftrightarrow> length s = 6 \<and> list_all is_digit s"

text \<open>\<open>slugPattern\<close>: hyphen-separated, non-empty groups of lower-case letters and digits.\<close>

definition is_slug_char :: "char \<Rightarrow> bool" where
  "is_slug_char c \<longleftrightarrow> is_digit c \<or> (is_alpha c \<and> to_lower_char c = c)"

fun slugPattern :: "string \<Rightarrow> bool" where
  "slugPattern [] \<longleftrightarrow> False"
| "slugPattern [c] \<longleftrightarrow> is_slug_char c"
| "slugPattern (c # d # s) \<longleftrightarrow>
     is_slug_char c \<and> (if d = CHR ''-'' then slugPattern s else slugPattern (d # s))"

section \<open>Decimal amounts\<close>

text \<open>\<open>/^\d+(\.\d{1,8})?$/\<close>.\<close>

definition decimal_shape :: "string \<Rightarrow> bool" where
  "decimal_shape s =
     (let whole = takeWhile is_digit s; rest = dropWhile is_digit s
      in whole \<noteq> [] \<and>
         (case rest of
            [] \<Rightarrow> True
          | c # fraction \<Rightarrow>
              c = CHR ''.'' \<and> list_all is_digit fraction \<and> 1 \<le> length fraction \<and> length fraction \<le> 8))"

text \<open>The number a decimal string denotes, as \<open>new Decimal(s)\<close> reads it.\<close>

definition decimal_of_string :: "string \<Rightarrow> decimal" where
  "decimal_of_string s =
     (let whole = takeWhile is_digit s; fraction = drop 1 (dropWhile is_digit s)
      in of_nat (digits_value 0 (whole @ fraction)) / 10 ^ length fraction)"

text \<open>
  \<open>Number(value) > 0\<close> on a string of that shape holds exactly when the number is positive:
  the least positive one, 0.00000001, is far above the underflow threshold.
\<close>

definition decimalAmountSchema :: "string \<Rightarrow> string option" where
  "decimalAmountSchema s =
     (let t = trim s in if decimal_shape t \<and> 0 < decimal_of_string t then Some t else None)"

section \<open>Requests\<close>

text \<open>An optional field: absent, or parsed.\<close>

definition optional_field :: "('a \<Rightarrow> 'b option) \<Rightarrow> 'a option \<Rightarrow> 'b option option" where
  "optional_field schema field =
     (case field of None \<Rightarrow> Some None | Some x \<Rightarrow> map_option Some (schema x))"

definition METADATA_MAX_KEYS :: nat where "METADATA_MAX_KEYS = 20"
definition METADATA_MAX_KEY_LENGTH :: nat where "METADATA_MAX_KEY_LENGTH = 40"
definition METADATA_MAX_VALUE_LENGTH :: nat where "METADATA_MAX_VALUE_LENGTH = 500"

definition metadataSchema :: "(string \<times> json_scalar) list \<Rightarrow> (string \<times> json_scalar) list option" where
  "metadataSchema m =
     (if list_all (\<lambda>(k, v). 1 \<le> length k \<and> length k \<le> METADATA_MAX_KEY_LENGTH \<and>
            (case v of JString s \<Rightarrow> length s \<le> METADATA_MAX_VALUE_LENGTH | _ \<Rightarrow> True)) m \<and>
         length m \<le> METADATA_MAX_KEYS
      then Some m else None)"

record create_invoice_input =
  ci_externalId :: "string option"
  ci_description :: "string option"
  ci_amount :: string
  ci_currency :: string
  ci_token :: string
  ci_network :: string
  ci_successUrl :: "string option"
  ci_cancelUrl :: "string option"
  ci_metadata :: "(string \<times> json_scalar) list option"

definition urlSchema :: "(string \<Rightarrow> bool) \<Rightarrow> string \<Rightarrow> string option" where
  "urlSchema is_url s = (let t = trim s in if is_url t \<and> length t \<le> 2048 then Some t else None)"

definition createInvoiceSchema ::
    "(string \<Rightarrow> bool) \<Rightarrow> create_invoice_input \<Rightarrow> create_invoice_input option" where
  "createInvoiceSchema is_url b =
     (case (optional_field (trimmed_between 1 255) (ci_externalId b),
            optional_field (trimmed_between 0 500) (ci_description b),
            decimalAmountSchema (ci_amount b),
            trimmed_between 1 10 (ci_currency b),
            trimmed_between 1 20 (ci_token b),
            trimmed_between 1 40 (ci_network b),
            optional_field (urlSchema is_url) (ci_successUrl b),
            optional_field (urlSchema is_url) (ci_cancelUrl b),
            optional_field metadataSchema (ci_metadata b)) of
        (Some externalId, Some description, Some amount, Some currency, Some token, Some network,
         Some successUrl, Some cancelUrl, Some metadata) \<Rightarrow>
          Some \<lparr>ci_externalId = externalId, ci_description = description, ci_amount = amount,
                ci_currency = currency, ci_token = token, ci_network = network,
                ci_successUrl = successUrl, ci_cancelUrl = cancelUrl, ci_metadata = metadata\<rparr>
      | _ \<Rightarrow> None)"

record login_input =
  li_email :: string
  li_password :: string
  li_totpCode :: "string option"

definition registerSchema :: "(string \<Rightarrow> bool) \<Rightarrow> string \<Rightarrow> string \<Rightarrow> (string \<times> string) option" where
  "registerSchema is_email email password =
     (case (emailSchema is_email email, passwordSchema password) of
        (Some e, Some p) \<Rightarrow> Some (e, p)
      | _ \<Rightarrow> None)"

definition loginSchema :: "(string \<Rightarrow> bool) \<Rightarrow> login_input \<Rightarrow> login_input option" where
  "loginSchema is_email b =
     (case emailSchema is_email (li_email b) of
        None \<Rightarrow> None
      | Some e \<Rightarrow>
          if 1 \<le> length (li_password b) \<and>
             (case li_totpCode b of None \<Rightarrow> True | Some c \<Rightarrow> totp_code_shape c)
          then Some (b\<lparr>li_email := e\<rparr>) else None)"

definition organizationNameSchema :: "string \<Rightarrow> string option" where
  "organizationNameSchema = trimmed_between 2 120"

definition organizationSlugSchema :: "string \<Rightarrow> string option" where
  "organizationSlugSchema s =
     (let t = trim s in if 2 \<le> length t \<and> length t \<le> 60 \<and> slugPattern t then Some t else None)"

definition createOrganizationSchema :: "string \<Rightarrow> string option" where
  "createOrganizationSchema = organizationNameSchema"

definition updateOrganizationSchema ::
    "string option \<Rightarrow> string option \<Rightarrow> (string option \<times> string option) option" where
  "updateOrganizationSchema name slug =
     (case (optional_field organizationNameSchema name, optional_field organizationSlugSchema slug) of
        (Some n, Some g) \<Rightarrow> Some (n, g)
      | _ \<Rightarrow> None)"

text \<open>A role that is left out is \<open>MEMBER\<close>.\<close>

definition inviteMemberSchema ::
    "(string \<Rightarrow> bool) \<Rightarrow> string \<Rightarrow> membership_role option \<Rightarrow> (string \<times> membership_role) option" where
  "inviteMemberSchema is_email email role =
     map_option (\<lambda>e. (e, case role of None \<Rightarrow> MEMBER | Some r \<Rightarrow> r)) (emailSchema is_email email)"

definition verifyEmailSchema :: "string \<Rightarrow> string option" where
  "verifyEmailSchema token = (if 1 \<le> length token then Some token else None)"

definition verifyTotpSchema :: "string \<Rightarrow> string option" where
  "verifyTotpSchema code = (if totp_code_shape code then Some code else None)"

definition simulatePaymentSchema :: "string option \<Rightarrow> string option option" where
  "simulatePaymentSchema = optional_field decimalAmountSchema"

definition createWebhookEndpointSchema :: "(string \<Rightarrow> bool) \<Rightarrow> string \<Rightarrow> string option" where
  "createWebhookEndpointSchema = urlSchema"

definition createApiKeySchema ::
    "string \<Rightarrow> api_key_environment \<Rightarrow> api_key_scope list \<Rightarrow>
     (string \<times> api_key_environment \<times> api_key_scope list) option" where
  "createApiKeySchema name env scopes =
     (case trimmed_between 2 80 name of
        None \<Rightarrow> None
      | Some n \<Rightarrow> if 1 \<le> length scopes then Some (n, env, scopes) else None)"

definition setWalletAddressSchema ::
    "string \<Rightarrow> string \<Rightarrow> string \<Rightarrow> (string \<times> string \<times> string) option" where
  "setWalletAddressSchema network token address =
     (case (trimmed_between 1 40 network, trimmed_between 1 20 token, trimmed_between 1 128 address) of
        (Some n, Some t, Some a) \<Rightarrow> Some (n, t, a)
      | _ \<Rightarrow> None)"

text \<open>Query numbers after coercion; the defaults are page 1 and limit 20.\<close>

definition paginationQuerySchema :: "int option \<Rightarrow> int option \<Rightarrow> (int \<times> int) option" where
  "paginationQuerySchema page limit =
     (let p = (case page of None \<Rightarrow> 1 | Some n \<Rightarrow> n); l = (case limit of None \<Rightarrow> 20 | Some n \<Rightarrow> n)
      in if 0 < p \<and> 1 \<le> l \<and> l \<le> 100 then Some (p, l) else None)"

text \<open>The pipe that runs a schema on a request, and the error it throws.\<close>

definition formatZodIssues :: "(string list \<times> string) list \<Rightarrow> (string \<times> string) list" where
  "formatZodIssues issues = map (\<lambda>(path, message). (join ''.'' path, message)) issues"

definition toValidationError :: "(string list \<times> string) list \<Rightarrow> app_error" where
  "toValidationError issues =
     validation_error ''Request validation failed'' (Some (FieldIssues (formatZodIssues issues)))"

definition validation_pipe ::
    "('a \<Rightarrow> (string list \<times> string) list + 'b) \<Rightarrow> 'a \<Rightarrow> thrown + 'b" where
  "validation_pipe safeParse x =
     (case safeParse x of
        Inl issues \<Rightarrow> Inl (AppThrown (toValidationError issues))
      | Inr data \<Rightarrow> Inr data)"

section \<open>Properties\<close>

lemma decimal_of_string_scale:
  assumes "decimal_shape s"
  shows "\<exists>n::nat. decimal_of_string s = of_nat n / 10 ^ 8"
proof -
  let ?w = "takeWhile is_digit s" and ?f = "drop 1 (dropWhile is_digit s)"
  have len: "length ?f \<le> 8"
    using assms
    by (cases "dropWhile is_digit s")
      (simp_all add: decimal_shape_def Let_def del: dropWhile_eq_Nil_conv)
  have "decimal_of_string s = of_nat (digits_value 0 (?w @ ?f)) / 10 ^ length ?f"
    by (simp add: decimal_of_string_def Let_def)
  also have "\<dots> = of_nat (digits_value 0 (?w @ ?f) * 10 ^ (8 - length ?f)) / 10 ^ 8"
    using len power_add [of "10::rat" "length ?f" "8 - length ?f"] by (simp add: field_simps)
  finally show ?thesis by blast
qed

text \<open>An accepted amount is positive and has at most eight decimals: it is a positive
  whole number of 10^-8 units, so the database column stores it without rounding.\<close>

theorem decimalAmountSchema_units:
  assumes "decimalAmountSchema s = Some t"
  shows "\<exists>n::nat. 0 < n \<and> decimal_of_string t = of_nat n / 10 ^ 8"
proof -
  have "decimal_shape t" and pos: "0 < decimal_of_string t"
    using assms by (auto simp: decimalAmountSchema_def Let_def split: if_splits)
  from decimal_of_string_scale [OF this(1)] obtain n :: nat
    where n: "decimal_of_string t = of_nat n / 10 ^ 8" by blast
  with pos have "0 < n" by (cases n) simp_all
  with n show ?thesis by blast
qed

theorem decimalAmountSchema_units_witness:
  "\<exists>n::nat. 0 < n \<and> decimal_of_string ''49.00'' = of_nat n / 10 ^ 8"
proof (rule decimalAmountSchema_units)
  have "trim '' 49.00 '' = ''49.00''" "decimal_shape ''49.00''"
    "takeWhile is_digit ''49.00'' = ''49''" "dropWhile is_digit ''49.00'' = ''.00''"
    "digits_value 0 ''4900'' = 4900" by code_simp+
  then show "decimalAmountSchema '' 49.00 '' = Some ''49.00''"
    by (simp add: decimalAmountSchema_def decimal_of_string_def Let_def)
qed

end
