(* ===== verification/Invoices.thy ===== *)
theory Invoices
  imports Pipeline Validation
begin

text \<open>
  The API's merchant side of invoices: the audit trail
  (\<open>audit/audit.service.ts\<close>), deposit addresses
  (\<open>wallet-addresses/wallet-addresses.service.ts\<close>), creating and reading invoices
  (\<open>invoices/invoices.service.ts\<close>), and the two views of an invoice
  (\<open>invoices/invoice.presenter.ts\<close>, \<open>checkout/checkout.presenter.ts\<close>,
  \<open>checkout/checkout.service.ts\<close>). A row that the database sorts by \<open>createdAt\<close>
  descending is sorted stably.
\<close>

section \<open>Audit trail\<close>

record request_context =
  rc_ip :: string
  rc_userAgent :: "string option"

definition extractRequestContext :: "string \<Rightarrow> string option \<Rightarrow> request_context" where
  "extractRequestContext ip userAgentHeader = \<lparr>rc_ip = ip, rc_userAgent = userAgentHeader\<rparr>"

definition audit_record :: "audit_log \<Rightarrow> unit db_op" where
  "audit_record entry = modify (auditLogs_update (\<lambda>t. t @ [entry]))"

definition audit_entry ::
    "ident \<Rightarrow> ident \<Rightarrow> string \<Rightarrow> string \<Rightarrow> string \<Rightarrow> ident \<Rightarrow>
     (string \<times> json) list option \<Rightarrow> request_context \<Rightarrow> audit_log" where
  "audit_entry organizationId actorId actorType action resourceType resourceId meta ctx =
     \<lparr>aud_organizationId = Some organizationId, aud_actorId = Some actorId,
      aud_actorType = actorType, aud_action = action, aud_resourceType = resourceType,
      aud_resourceId = Some resourceId, aud_ip = Some (rc_ip ctx),
      aud_userAgent = rc_userAgent ctx, aud_metadata = meta\<rparr>"

section \<open>Deposit addresses\<close>

definition generateFakeAddress :: "nat list \<Rightarrow> string" where
  "generateFakeAddress bytes = ''0x'' @ hex_encode bytes"

definition wallet_of :: "ident \<Rightarrow> string \<Rightarrow> string \<Rightarrow> store \<Rightarrow> wallet_address option" where
  "wallet_of organizationId network token s =
     find (\<lambda>w. wal_organizationId w = organizationId \<and> wal_network w = network \<and>
               wal_token w = token) (wallets s)"

definition list_wallets :: "ident \<Rightarrow> store \<Rightarrow> wallet_address list" where
  "list_wallets organizationId s =
     sort_key (\<lambda>w. - wal_createdAt w) (filter (\<lambda>w. wal_organizationId w = organizationId) (wallets s))"

definition new_wallet :: "pass_env \<Rightarrow> ident \<Rightarrow> string \<Rightarrow> string \<Rightarrow> string \<Rightarrow> wallet_address" where
  "new_wallet env organizationId network token address =
     \<lparr>wal_id = newId env ''c'' ''wallet'', wal_organizationId = organizationId, wal_network = network,
      wal_token = token, wal_address = address, wal_createdAt = pe_now env,
      wal_updatedAt = pe_now env\<rparr>"

definition set_wallet ::
    "pass_env \<Rightarrow> (string \<rightharpoonup> chain_adapter) \<Rightarrow> ident \<Rightarrow> ident \<Rightarrow> string \<Rightarrow> string \<Rightarrow> string \<Rightarrow>
     request_context \<Rightarrow> wallet_address db_op" where
  "set_wallet env registry organizationId userId network token address ctx =
     seq (lift (registry_get registry network)) (\<lambda>adapter.
     if \<not> validateAddress adapter address
     then throw (AppThrown (validation_error
            (CHR 0x22 # address @ [CHR 0x22] @ '' is not a valid '' @ network @ '' address'') None))
     else
       seq (reads (wallet_of organizationId network token)) (\<lambda>existing.
       seq (case existing of
              None \<Rightarrow>
                (let w = new_wallet env organizationId network token address
                 in seq (create_row wallets wallets_update wallet_clash w) (\<lambda>_. ret w))
            | Some w \<Rightarrow>
                (let w' = w\<lparr>wal_address := address, wal_updatedAt := pe_now env\<rparr>
                 in seq (update_row wallets wallets_update (\<lambda>r. wal_id r = wal_id w)
                           (\<lambda>r. r\<lparr>wal_address := address, wal_updatedAt := pe_now env\<rparr>)) (\<lambda>_.
                    ret w'))) (\<lambda>wallet.
       seq (audit_record (audit_entry organizationId userId ''user'' ''wallet_address.set''
              ''merchant_wallet_address'' (wal_id wallet)
              (Some [(''network'', JStr network), (''token'', JStr token)]) ctx)) (\<lambda>_.
       ret wallet))))"

definition getDepositAddress ::
    "pass_env \<Rightarrow> blockchain_mode \<Rightarrow> ident \<Rightarrow> string \<Rightarrow> string \<Rightarrow> string db_op" where
  "getDepositAddress env mode organizationId network token =
     seq (reads (wallet_of organizationId network token)) (\<lambda>existing.
     case existing of
       Some w \<Rightarrow> ret (wal_address w)
     | None \<Rightarrow>
         if mode = Mode_fake then
           (let address = generateFakeAddress (pe_randomBytes env ''0x'' ''address'')
            in seq (create_row wallets wallets_update wallet_clash
                      (new_wallet env organizationId network token address)) (\<lambda>_.
               ret address))
         else throw (AppThrown (validation_error
                (''No deposit address configured for '' @ network @ ''/'' @ token @
                 ''. Set one in the dashboard before creating an invoice.'') None)))"

section \<open>Creating an invoice\<close>

definition INVOICE_EXPIRY_MS :: int where
  "INVOICE_EXPIRY_MS = 30 * 60 * 1000"

definition invoice_by_external_id :: "ident \<Rightarrow> string \<Rightarrow> store \<Rightarrow> invoice option" where
  "invoice_by_external_id organizationId externalId s =
     find (\<lambda>i. inv_organizationId i = organizationId \<and> inv_externalId i = Some externalId) (invoices s)"

definition assertIdempotentReplay :: "invoice \<Rightarrow> create_invoice_input \<Rightarrow> thrown + invoice" where
  "assertIdempotentReplay existing input =
     (if inv_amount existing = decimal_of_string (ci_amount input) \<and>
         inv_currency existing = ci_currency input \<and>
         inv_token existing = ci_token input \<and>
         inv_network existing = ci_network input
      then Inr existing
      else Inl (AppThrown (conflict_error
             (''An invoice with external_id '' @ [CHR 0x22] @
              (case ci_externalId input of None \<Rightarrow> [] | Some x \<Rightarrow> x) @
              CHR 0x22 # '' already exists with different parameters''))))"

definition new_invoice :: "pass_env \<Rightarrow> ident \<Rightarrow> create_invoice_input \<Rightarrow> string \<Rightarrow> invoice" where
  "new_invoice env organizationId input address =
     \<lparr>inv_network = ci_network input, inv_token = ci_token input, inv_paymentAddress = address,
      inv_id = newId env ''inv'' ''invoice'',
      inv_amount = decimal_of_string (ci_amount input),
      inv_createdAt = pe_now env,
      inv_organizationId = organizationId,
      inv_externalId = ci_externalId input,
      inv_status = Inv_PENDING,
      inv_description = ci_description input,
      inv_currency = ci_currency input,
      inv_successUrl = ci_successUrl input,
      inv_cancelUrl = ci_cancelUrl input,
      inv_metadata = ci_metadata input,
      inv_expiresAt = pe_now env + INVOICE_EXPIRY_MS,
      inv_paidAt = None,
      inv_updatedAt = pe_now env\<rparr>"

definition create_new_invoice ::
    "pass_env \<Rightarrow> blockchain_mode \<Rightarrow> ident \<Rightarrow> ident \<Rightarrow> create_invoice_input \<Rightarrow> request_context \<Rightarrow>
     invoice db_op" where
  "create_new_invoice env mode organizationId apiKeyId input ctx =
     seq (lift (assertInvoiceTransition Inv_CREATED Inv_PENDING)) (\<lambda>_.
     seq (getDepositAddress env mode organizationId (ci_network input) (ci_token input)) (\<lambda>address.
     let i = new_invoice env organizationId input address
     in seq (create_row invoices invoices_update invoice_clash i) (\<lambda>_.
        seq (audit_record (audit_entry organizationId apiKeyId ''api_key'' ''invoice.create''
               ''invoice'' (inv_id i)
               (Some [(''amount'', JStr (ci_amount input)), (''currency'', JStr (ci_currency input)),
                      (''token'', JStr (ci_token input)), (''network'', JStr (ci_network input))])
               ctx)) (\<lambda>_.
        ret i))))"

definition create_invoice ::
    "pass_env \<Rightarrow> blockchain_mode \<Rightarrow> ident \<Rightarrow> ident \<Rightarrow> create_invoice_input \<Rightarrow> request_context \<Rightarrow>
     invoice db_op" where
  "create_invoice env mode organizationId apiKeyId input ctx =
     (case ci_externalId input of
        None \<Rightarrow> create_new_invoice env mode organizationId apiKeyId input ctx
      | Some externalId \<Rightarrow>
          seq (reads (invoice_by_external_id organizationId externalId)) (\<lambda>existing.
          case existing of
            Some i \<Rightarrow> lift (assertIdempotentReplay i input)
          | None \<Rightarrow> create_new_invoice env mode organizationId apiKeyId input ctx))"

section \<open>Reading invoices\<close>

definition getById :: "ident \<Rightarrow> ident \<Rightarrow> store \<Rightarrow> thrown + invoice" where
  "getById organizationId invoiceId s =
     (case find (\<lambda>i. inv_id i = invoiceId \<and> inv_organizationId i = organizationId) (invoices s) of
        None \<Rightarrow> Inl (AppThrown (not_found_error ''Invoice not found''))
      | Some i \<Rightarrow> Inr i)"

definition newest_first :: "ident \<Rightarrow> store \<Rightarrow> invoice list" where
  "newest_first organizationId s =
     sort_key (\<lambda>i. - inv_createdAt i) (filter (\<lambda>i. inv_organizationId i = organizationId) (invoices s))"

definition list_invoices :: "ident \<Rightarrow> nat \<Rightarrow> nat \<Rightarrow> store \<Rightarrow> invoice list \<times> nat" where
  "list_invoices organizationId page limit s =
     (take limit (drop ((page - 1) * limit) (newest_first organizationId s)),
      length (filter (\<lambda>i. inv_organizationId i = organizationId) (invoices s)))"

record invoice_view =
  iv_id :: ident
  iv_organizationId :: ident
  iv_externalId :: "string option"
  iv_status :: string
  iv_description :: "string option"
  iv_amount :: string
  iv_currency :: string
  iv_token :: string
  iv_network :: string
  iv_paymentAddress :: string
  iv_successUrl :: "string option"
  iv_cancelUrl :: "string option"
  iv_metadata :: "(string \<times> json_scalar) list option"
  iv_checkoutUrl :: string
  iv_expiresAt :: millis
  iv_paidAt :: "millis option"
  iv_createdAt :: millis
  iv_updatedAt :: millis

definition toInvoiceView :: "(decimal \<Rightarrow> string) \<Rightarrow> invoice \<Rightarrow> string \<Rightarrow> invoice_view" where
  "toInvoiceView decimalToString i checkoutBaseUrl =
     \<lparr>iv_id = inv_id i, iv_organizationId = inv_organizationId i, iv_externalId = inv_externalId i,
      iv_status = invoice_status_name (inv_status i), iv_description = inv_description i,
      iv_amount = decimalToString (inv_amount i), iv_currency = inv_currency i,
      iv_token = inv_token i, iv_network = inv_network i, iv_paymentAddress = inv_paymentAddress i,
      iv_successUrl = inv_successUrl i, iv_cancelUrl = inv_cancelUrl i,
      iv_metadata = inv_metadata i, iv_checkoutUrl = checkoutBaseUrl @ ''/'' @ inv_id i,
      iv_expiresAt = inv_expiresAt i, iv_paidAt = inv_paidAt i,
      iv_createdAt = inv_createdAt i, iv_updatedAt = inv_updatedAt i\<rparr>"

record checkout_view =
  cv_id :: ident
  cv_status :: string
  cv_merchantName :: string
  cv_description :: "string option"
  cv_amount :: string
  cv_currency :: string
  cv_token :: string
  cv_network :: string
  cv_paymentAddress :: string
  cv_expiresAt :: millis
  cv_successUrl :: "string option"
  cv_cancelUrl :: "string option"

definition toCheckoutView :: "(decimal \<Rightarrow> string) \<Rightarrow> invoice \<Rightarrow> string \<Rightarrow> checkout_view" where
  "toCheckoutView decimalToString i merchantName =
     \<lparr>cv_id = inv_id i, cv_status = invoice_status_name (inv_status i), cv_merchantName = merchantName,
      cv_description = inv_description i, cv_amount = decimalToString (inv_amount i),
      cv_currency = inv_currency i, cv_token = inv_token i, cv_network = inv_network i,
      cv_paymentAddress = inv_paymentAddress i, cv_expiresAt = inv_expiresAt i,
      cv_successUrl = inv_successUrl i, cv_cancelUrl = inv_cancelUrl i\<rparr>"

text \<open>\<open>include: { organization: { select: { name } } }\<close>: the relation is required.\<close>

definition getForCheckout :: "ident \<Rightarrow> store \<Rightarrow> thrown + (invoice \<times> string)" where
  "getForCheckout invoiceId s =
     (case inv_row s invoiceId of
        None \<Rightarrow> Inl (AppThrown (not_found_error ''Invoice not found''))
      | Some i \<Rightarrow>
          (case find (\<lambda>org. org_id org = inv_organizationId i) (organizations s) of
             None \<Rightarrow> Inl (DbThrown InconsistentRelation)
           | Some org \<Rightarrow> Inr (i, org_name org)))"

definition checkout_page :: "(decimal \<Rightarrow> string) \<Rightarrow> ident \<Rightarrow> store \<Rightarrow> thrown + checkout_view" where
  "checkout_page decimalToString invoiceId s =
     (case getForCheckout invoiceId s of
        Inl e \<Rightarrow> Inl e
      | Inr (i, merchantName) \<Rightarrow> Inr (toCheckoutView decimalToString i merchantName))"

section \<open>What creating an invoice does\<close>

text \<open>The two outcomes of \<open>create_new_invoice\<close>: nothing of the invoice, or one more row.\<close>

lemma getDepositAddress_invoices:
  assumes "getDepositAddress env mode organizationId network token s = (r, s')"
  shows "invoices s' = invoices s \<and> payments s' = payments s \<and> events s' = events s"
  using assms
  by (auto simp: getDepositAddress_def seq_def reads_def ret_def throw_def create_row_def Let_def
      split: option.splits if_splits)

lemma create_new_invoice_cases:
  assumes "create_new_invoice env mode organizationId apiKeyId input ctx s = (r, s')"
  obtains (failed) e where "r = Inl e" "invoices s' = invoices s" "payments s' = payments s"
      "events s' = events s"
  | (created) address where
      "r = Inr (new_invoice env organizationId input address)"
      "invoices s' = invoices s @ [new_invoice env organizationId input address]"
      "\<forall>j \<in> set (invoices s). \<not> invoice_clash (new_invoice env organizationId input address) j"
      "payments s' = payments s" "events s' = events s"
proof -
  obtain q t where addr: "getDepositAddress env mode organizationId (ci_network input) (ci_token input) s = (q, t)"
    by (cases "getDepositAddress env mode organizationId (ci_network input) (ci_token input) s")
  note same = getDepositAddress_invoices [OF addr]
  show ?thesis
  proof (cases q)
    case (Inl e)
    with assms addr have "r = Inl e" "s' = t" by (auto simp: create_new_invoice_def seq_def lift_def)
    with same failed show ?thesis by simp
  next
    case (Inr address)
    let ?i = "new_invoice env organizationId input address"
    show ?thesis
    proof (cases "\<exists>j \<in> set (invoices s). invoice_clash ?i j")
      case True
      with assms addr same Inr have "r = Inl (DbThrown UniqueViolation)" "s' = t"
        by (auto simp: create_new_invoice_def seq_def lift_def create_row_def list_ex_iff Let_def)
      with same failed show ?thesis by simp
    next
      case False
      with assms addr same Inr created [of address] show ?thesis
        by (auto simp: create_new_invoice_def seq_def lift_def create_row_def list_ex_iff Let_def
            audit_record_def modify_def ret_def)
    qed
  qed
qed

lemma create_invoice_cases:
  assumes "create_invoice env mode organizationId apiKeyId input ctx s = (r, s')"
  obtains (replayed) x i where "ci_externalId input = Some x"
      "invoice_by_external_id organizationId x s = Some i" "r = assertIdempotentReplay i input" "s' = s"
  | (failed) e where "r = Inl e" "invoices s' = invoices s" "payments s' = payments s"
      "events s' = events s"
  | (created) address where
      "r = Inr (new_invoice env organizationId input address)"
      "invoices s' = invoices s @ [new_invoice env organizationId input address]"
      "\<forall>j \<in> set (invoices s). \<not> invoice_clash (new_invoice env organizationId input address) j"
      "payments s' = payments s" "events s' = events s"
proof -
  consider (replay) x i where "ci_externalId input = Some x"
      "invoice_by_external_id organizationId x s = Some i"
    | (fresh) "create_new_invoice env mode organizationId apiKeyId input ctx s = (r, s')"
    using assms by (auto simp: create_invoice_def seq_reads split: option.splits)
  then show ?thesis
  proof cases
    case replay
    with assms have "r = assertIdempotentReplay i input" "s' = s"
      by (simp_all add: create_invoice_def seq_reads lift_def)
    with replay show ?thesis by (rule replayed)
  next
    case fresh
    then show ?thesis
    proof (cases rule: create_new_invoice_cases)
      case (failed e)
      then show ?thesis by (rule that(2))
    next
      case (created address)
      then show ?thesis by (rule that(3))
    qed
  qed
qed

section \<open>Creation and the pipeline's invariant\<close>

lemma create_invoice_keeps_inv:
  assumes inv: "pipeline_inv req s"
    and run: "create_invoice env mode organizationId apiKeyId input ctx s = (r, s')"
  shows "pipeline_inv req s'"
  using run
proof (cases rule: create_invoice_cases)
  case replayed
  with inv show ?thesis by simp
next
  case failed
  from elsewhere_views(4) [OF failed(2,3,4)] inv show ?thesis by simp
next
  case (created address)
  let ?i = "new_invoice env organizationId input address"
  have fresh: "inv_row s (inv_id ?i) = None"
    using created(3) by (auto simp: inv_row_def find_None_iff_all invoice_clash_def)
  have row: "inv_row s' k = (if k = inv_id ?i then Some ?i else inv_row s k)" for k
    using fresh created(2) by (auto simp: inv_row_def find_append split: option.splits)
  have views: "pays_of s' k = pays_of s k" "evts_of s' k = evts_of s k" for k
    using created(4,5) by (simp_all add: pays_of_def evts_of_def)
  have none: "pays_of s (inv_id ?i) = []" "evts_of s (inv_id ?i) = []"
    using inv fresh by (auto simp: pipeline_inv_def pays_of_def evts_of_def filter_empty_conv)
  have "distinct (map inv_id (invoices s'))"
    using pipeline_invD(1) [OF inv] created(2,3) by (force simp: invoice_clash_def)
  then show ?thesis
    using inv none by (auto simp: pipeline_inv_def row views created(4,5) new_invoice_def)
qed

section \<open>Properties\<close>

text \<open>C12. Creating an invoice is idempotent in its external id: when a request with an
  external id has succeeded, every later request of the organization with that external id
  returns the same invoice and leaves the store unchanged if amount, currency, token and
  network agree, and otherwise fails with a conflict, again without a change.\<close>

theorem create_invoice_idempotent:
  assumes "create_invoice env mode organizationId apiKeyId input ctx s = (Inr i, s')"
    and "ci_externalId input = Some x" and "ci_externalId input' = Some x"
  shows "create_invoice env' mode' organizationId apiKeyId' input' ctx' s' =
    (if decimal_of_string (ci_amount input') = inv_amount i \<and> ci_currency input' = inv_currency i \<and>
        ci_token input' = inv_token i \<and> ci_network input' = inv_network i
     then (Inr i, s')
     else (Inl (AppThrown (conflict_error
             (''An invoice with external_id '' @ [CHR 0x22] @ x @
              CHR 0x22 # '' already exists with different parameters''))), s'))"
proof -
  have "invoice_by_external_id organizationId x s' = Some i"
    using assms(1)
  proof (cases rule: create_invoice_cases)
    case (replayed y j)
    with assms(2) show ?thesis by (auto simp: assertIdempotentReplay_def split: if_splits)
  next
    case failed
    then show ?thesis by simp
  next
    case (created address)
    then have "invoice_by_external_id organizationId x s = None"
      using assms(2)
      by (auto simp: invoice_by_external_id_def find_None_iff_all invoice_clash_def new_invoice_def)
    with created assms(2) show ?thesis
      by (auto simp: invoice_by_external_id_def find_append new_invoice_def)
  qed
  with assms(3) show ?thesis
    by (auto simp: create_invoice_def seq_reads lift_def assertIdempotentReplay_def)
qed

definition sample_env :: pass_env where
  "sample_env = \<lparr>pe_now = 1000000, pe_randomBytes = (\<lambda>_ _. [1, 2, 3]), pe_decimalToString = (\<lambda>_. ''5'')\<rparr>"

definition sample_input :: create_invoice_input where
  "sample_input =
     \<lparr>ci_externalId = Some ''order-1'', ci_description = None, ci_amount = ''5'', ci_currency = ''USD'',
      ci_token = ''USDC'', ci_network = ''base'', ci_successUrl = None, ci_cancelUrl = None,
      ci_metadata = None\<rparr>"

definition sample_ctx :: request_context where
  "sample_ctx = \<lparr>rc_ip = ''1.2.3.4'', rc_userAgent = None\<rparr>"

lemma sample_create:
  "\<exists>i s'. create_invoice sample_env Mode_fake ''org_1'' ''key_1'' sample_input sample_ctx empty_store = (Inr i, s')"
  by (simp add: create_invoice_def create_new_invoice_def getDepositAddress_def sample_env_def
      sample_input_def empty_store_def wallet_of_def invoice_by_external_id_def eff_defs Let_def
      create_row_def audit_record_def)

theorem create_invoice_idempotent_witness:
  "\<exists>i s'. create_invoice sample_env Mode_fake ''org_1'' ''key_1'' sample_input sample_ctx empty_store = (Inr i, s') \<and>
     fst (create_invoice sample_env Mode_evm ''org_1'' ''key_2'' (sample_input\<lparr>ci_currency := ''EUR''\<rparr>)
            sample_ctx s') \<noteq> Inr i"
proof -
  obtain i s' where run: "create_invoice sample_env Mode_fake ''org_1'' ''key_1'' sample_input sample_ctx empty_store = (Inr i, s')"
    using sample_create by blast
  have "create_invoice sample_env Mode_evm ''org_1'' ''key_2'' (sample_input\<lparr>ci_currency := ''EUR''\<rparr>)
      sample_ctx s' =
    (if decimal_of_string ''5'' = inv_amount i \<and> ''EUR'' = inv_currency i \<and>
        ''USDC'' = inv_token i \<and> ''base'' = inv_network i
     then (Inr i, s')
     else (Inl (AppThrown (conflict_error
             (''An invoice with external_id '' @ [CHR 0x22] @ ''order-1'' @
              CHR 0x22 # '' already exists with different parameters''))), s'))"
    using create_invoice_idempotent [OF run, of "''order-1''" "sample_input\<lparr>ci_currency := ''EUR''\<rparr>"]
    by (simp add: sample_input_def)
  moreover have "inv_currency i = ''USD''"
    using run by (cases rule: create_invoice_cases)
      (auto simp: invoice_by_external_id_def empty_store_def new_invoice_def sample_input_def)
  ultimately show ?thesis using run by auto
qed

text \<open>Tenants are isolated: what an organization reads (one invoice, a page of its list,
  its total) depends only on its own invoices. Two stores that agree on those answer every
  such request alike, whatever other organizations have.\<close>

theorem invoice_reads_isolated:
  assumes "filter (\<lambda>i. inv_organizationId i = org) (invoices s) =
    filter (\<lambda>i. inv_organizationId i = org) (invoices t)"
  shows "getById org k s = getById org k t \<and> list_invoices org page limit s = list_invoices org page limit t"
proof -
  have own: "find (\<lambda>i. inv_id i = k \<and> inv_organizationId i = org) xs =
      find (\<lambda>i. inv_id i = k) (filter (\<lambda>i. inv_organizationId i = org) xs)" for xs
    by (induction xs) auto
  show ?thesis using assms by (simp add: getById_def own list_invoices_def newest_first_def)
qed

theorem invoice_reads_isolated_witness:
  "\<exists>e. getById ''org_2'' ''inv_1'' empty_store = Inl e \<and>
     getById ''org_2'' ''inv_1''
       (empty_store\<lparr>invoices := [new_invoice sample_env ''org_1'' sample_input ''0xab'']\<rparr>) = Inl e"
proof -
  have "getById ''org_2'' ''inv_1'' empty_store = getById ''org_2'' ''inv_1''
       (empty_store\<lparr>invoices := [new_invoice sample_env ''org_1'' sample_input ''0xab'']\<rparr>)"
    using invoice_reads_isolated [of "''org_2''" empty_store
        "empty_store\<lparr>invoices := [new_invoice sample_env ''org_1'' sample_input ''0xab'']\<rparr>" "''inv_1''" 1 1]
    by (simp add: new_invoice_def empty_store_def)
  moreover have "\<exists>e. getById ''org_2'' ''inv_1'' empty_store = Inl e"
    by (simp add: getById_def empty_store_def)
  ultimately show ?thesis by metis
qed

lemma pages_of_list:
  "concat (map (\<lambda>p. take l (drop (p * l) xs)) [0..<n]) = take (n * l) xs"
proof (induction n)
  case 0
  then show ?case by simp
next
  case (Suc n)
  have "take (n * l) xs @ take l (drop (n * l) xs) = take (n * l + l) xs"
    by (metis take_add)
  with Suc show ?case by (simp add: add.commute)
qed

text \<open>Pagination loses and repeats nothing: for a page size of at least one, the pages
  from the first to the last one the total asks for, one after the other, are exactly the
  organization's invoices, newest first.\<close>

theorem list_invoices_pages:
  assumes "1 \<le> limit" and "snd (list_invoices org 1 limit s) \<le> n * limit"
  shows "concat (map (\<lambda>page. fst (list_invoices org page limit s)) [1..<n + 1]) = newest_first org s"
proof -
  have "[1..<n + 1] = map Suc [0..<n]" by (simp add: map_Suc_upt)
  then have "concat (map (\<lambda>page. fst (list_invoices org page limit s)) [1..<n + 1]) =
      take (n * limit) (newest_first org s)"
    by (simp add: list_invoices_def comp_def pages_of_list)
  also have "\<dots> = newest_first org s"
    using assms(2) by (simp add: list_invoices_def newest_first_def)
  finally show ?thesis .
qed

theorem list_invoices_pages_witness:
  "concat (map (\<lambda>page. fst (list_invoices ''org_1'' page 1
      (empty_store\<lparr>invoices := [new_invoice sample_env ''org_1'' sample_input ''0xab'']\<rparr>))) [1..<3]) =
   newest_first ''org_1'' (empty_store\<lparr>invoices := [new_invoice sample_env ''org_1'' sample_input ''0xab'']\<rparr>)"
  using list_invoices_pages [of 1 "''org_1''"
      "empty_store\<lparr>invoices := [new_invoice sample_env ''org_1'' sample_input ''0xab'']\<rparr>" 2]
  by (simp add: list_invoices_def new_invoice_def)

text \<open>The public checkout page shows nothing of the merchant's own identifiers: changing
  an invoice's organization, external id and metadata does not change the view.\<close>

theorem checkout_view_public:
  "toCheckoutView f
     (i\<lparr>inv_organizationId := org, inv_externalId := x, inv_metadata := m, inv_paidAt := p,
        inv_createdAt := c, inv_updatedAt := u\<rparr>) name = toCheckoutView f i name"
  by (simp add: toCheckoutView_def)

lemma replay_compares_four_fields:
  "assertIdempotentReplay i (input\<lparr>ci_description := d, ci_successUrl := u, ci_cancelUrl := c, ci_metadata := m\<rparr>) =
   assertIdempotentReplay i input"
  by (simp add: assertIdempotentReplay_def)

end
