(* ===== verification/Payment_System.thy ===== *)
theory Payment_System
  imports Api_Payments Invoices
begin

text \<open>
  The payment system as a whole: the stores that creating invoices, the worker's two passes,
  the API's tick and the payment simulator can produce, in any order and with any chain,
  clock and random bytes, from the empty database. A pass or a request is one step;
  \<open>Interleaving\<close> looks at what happens when two passes overlap.
\<close>

section \<open>Reachable stores\<close>

text \<open>\<open>req\<close> is \<open>REQUIRED_CONFIRMATIONS\<close>. A step may end with an exception (\<open>r\<close> is any
  result); what it wrote before stays. \<open>elsewhere\<close> is every service that writes other tables.\<close>

inductive reachable :: "int \<Rightarrow> store \<Rightarrow> bool" for req :: int where
  start: "reachable req empty_store"
| creates: "reachable req s \<Longrightarrow> create_invoice env mode org key input ctx s = (r, s') \<Longrightarrow> reachable req s'"
| scans: "reachable req s \<Longrightarrow> runBlockchainScan env adapter network s = (r, s') \<Longrightarrow> reachable req s'"
| confirms: "reachable req s \<Longrightarrow> runPaymentConfirm env adapter req s = (r, s') \<Longrightarrow> reachable req s'"
| ticks: "reachable req (ap_store a) \<Longrightarrow> tick v env req a = (r', a') \<Longrightarrow> reachable req (ap_store a')"
| simulates: "reachable req (ap_store a) \<Longrightarrow>
    simulatePaymentForCheckout v env req randomHex fakeAddress k amount a = (r'', a') \<Longrightarrow>
    reachable req (ap_store a')"
| merchant_simulates: "reachable req (ap_store a) \<Longrightarrow>
    simulatePayment v env req randomHex fakeAddress org k amount a = (r'', a') \<Longrightarrow>
    reachable req (ap_store a')"
| other_tables: "reachable req s \<Longrightarrow> invoices s' = invoices s \<Longrightarrow> payments s' = payments s \<Longrightarrow>
    events s' = events s \<Longrightarrow> reachable req s'"

lemma doSimulatePayment_ok: "pass_on ap_store req (\<lambda>_. True) (doSimulatePayment v env req h f i amount)"
proof -
  have read: "pass_on ap_store req (\<lambda>_. True)
      (\<lambda>a. case inv_row (ap_store a) k of None \<Rightarrow> (Inl (DbThrown RecordNotFound), a) | Some j \<Rightarrow> (Inr j, a))"
    "pass_on ap_store req (\<lambda>_. True) (\<lambda>a. (registry_get (ap_registry a) n, a))" for k n
    by (rule pass_ok_same; simp split: option.split)+
  have "pass_on ap_store req (\<lambda>_. True) (tick v env req)"
    by (rule pass_ok_weaken [OF tick_ok]) simp
  then show ?thesis
    unfolding doSimulatePayment_def
    by (auto intro!: pass_ok_seq read split: adapter_instance.split)
qed

lemma simulatePayment_ok:
  "pass_on ap_store req (\<lambda>_. True) (simulatePaymentForCheckout v env req h f k amount)"
  "pass_on ap_store req (\<lambda>_. True) (simulatePayment v env req h f org k amount)"
  unfolding simulatePaymentForCheckout_def simulatePayment_def
  by (auto intro!: pass_ok_seq doSimulatePayment_ok split: option.split)

lemma reachable_inv: "reachable req s \<Longrightarrow> pipeline_inv req s"
proof (induction rule: reachable.induct)
  case start
  show ?case by (rule pipeline_inv_empty)
next
  case creates
  then show ?case by (blast intro: create_invoice_keeps_inv)
next
  case scans
  then show ?case using pass_okD(3) [OF runBlockchainScan_ok] by blast
next
  case confirms
  then show ?case using pass_okD(3) [OF runPaymentConfirm_ok] by blast
next
  case ticks
  then show ?case using pass_okD(3) [OF tick_ok] by blast
next
  case simulates
  then show ?case using pass_okD(3) [OF simulatePayment_ok(1)] by blast
next
  case merchant_simulates
  then show ?case using pass_okD(3) [OF simulatePayment_ok(2)] by blast
next
  case (other_tables s s')
  then show ?case using elsewhere_views(4) [OF other_tables.hyps(2,3,4)] by simp
qed

section \<open>A payment from creation to PAID\<close>

text \<open>
  A concrete run, used as the instance of the properties below: an invoice over 5 USDC, one
  transfer of that amount in block 3, and two confirmation passes.
\<close>

definition sample_address :: string where
  "sample_address = generateFakeAddress [1, 2, 3]"

definition sample_invoice :: invoice where
  "sample_invoice = new_invoice sample_env ''org_1'' sample_input sample_address"

definition sample_transfer :: token_transfer where
  "sample_transfer =
     \<lparr>tr_network = ''base'', tr_token = ''USDC'', tr_toAddress = sample_address,
      tr_amount = decimal_of_string ''5'', tr_txHash = ''0x1'', tr_fromAddress = ''0x2'',
      tr_blockNumber = 3\<rparr>"

definition sample_adapter :: chain_adapter where
  "sample_adapter =
     \<lparr>validateAddress = (\<lambda>_. True), getLatestBlock = Inr 5, getTransaction = (\<lambda>_. Inr None),
      getTokenTransfers = (\<lambda>_ _. Inr [sample_transfer]), getConfirmations = (\<lambda>_. Inr 3)\<rparr>"

definition sample_created :: store where
  "sample_created =
     snd (create_invoice sample_env Mode_fake ''org_1'' ''key_1'' sample_input sample_ctx empty_store)"

definition sample_detected :: store where
  "sample_detected = snd (runBlockchainScan sample_env sample_adapter ''base'' sample_created)"

definition sample_confirming :: store where
  "sample_confirming = snd (runPaymentConfirm sample_env sample_adapter 2 sample_detected)"

definition sample_paid :: store where
  "sample_paid = snd (runPaymentConfirm sample_env sample_adapter 2 sample_confirming)"

lemma sample_created_rows:
  "invoices sample_created = [sample_invoice]" "payments sample_created = []"
  "events sample_created = []" "cursors sample_created = []"
  by (simp_all add: sample_created_def create_invoice_def create_new_invoice_def getDepositAddress_def
      sample_env_def sample_input_def empty_store_def wallet_of_def invoice_by_external_id_def eff_defs
      Let_def create_row_def audit_record_def sample_invoice_def sample_address_def)

lemma sample_invoice_fields [simp]:
  "inv_status sample_invoice = Inv_PENDING" "inv_network sample_invoice = ''base''"
  "inv_token sample_invoice = ''USDC''" "inv_paymentAddress sample_invoice = sample_address"
  "inv_amount sample_invoice = decimal_of_string ''5''"
  "inv_expiresAt sample_invoice = 2800000" "inv_organizationId sample_invoice = ''org_1''"
  by (simp_all add: sample_invoice_def new_invoice_def sample_input_def sample_env_def INVOICE_EXPIRY_MS_def)

text \<open>Each pass on any store with the rows of the run so far.\<close>

lemma sample_scan_step:
  assumes "invoices d = [sample_invoice]" "payments d = []" "cursors d = []"
  shows "runBlockchainScan sample_env sample_adapter ''base'' d =
      (Inr (), detect sample_env sample_transfer sample_invoice
        (d\<lparr>cursors := [\<lparr>cur_network = ''base'', cur_lastScannedBlock = 5\<rparr>]\<rparr>))"
proof -
  have sel: "pending_candidates sample_transfer s = [sample_invoice]" if "invoices s = [sample_invoice]" for s
    using that by (simp add: pending_candidates_def sample_transfer_def)
  have m: "selectMatchingInvoice [sample_invoice] sample_transfer = Some sample_invoice"
    by (simp add: selectMatchingInvoice_def matchesInvoice_def sample_transfer_def Let_def)
  show ?thesis
    by (simp add: runBlockchainScan_def upsert_cursor_def cursor_of_def assms eff_defs
        create_row_def sample_adapter_def Let_def tryMatchTransfer_eq sel m payment_of_tx_def
        set_cursor_def update_row_def detect_def update_rows_def)
qed

lemma sample_detected_rows:
  "invoices sample_detected = [inv_moves Inv_DETECTED 1000000 sample_invoice]"
  "payments sample_detected = [detected_payment sample_env sample_transfer sample_invoice]"
  "events sample_detected = []"
  by (simp_all add: sample_detected_def sample_scan_step sample_created_rows)
    (simp_all add: detect_def sample_created_rows update_rows_def inv_moves_def sample_env_def)

definition sample_payment :: payment where
  "sample_payment = detected_payment sample_env sample_transfer sample_invoice"

lemma sample_payment_fields [simp]:
  "pay_txHash sample_payment = Some ''0x1''" "pay_status sample_payment = Pay_DETECTED"
  "pay_invoiceId sample_payment = inv_id sample_invoice"
  "pay_receivedAmount sample_payment = Some (decimal_of_string ''5'')"
  "pay_expectedAmount sample_payment = decimal_of_string ''5''"
  "pay_updatedAt sample_payment = 1000000"
  by (simp_all add: sample_payment_def detected_payment_def sample_transfer_def sample_env_def)

lemma sample_confirming_step:
  assumes "invoices d = [inv_moves Inv_DETECTED 1000000 sample_invoice]" "payments d = [sample_payment]"
  shows "runPaymentConfirm sample_env sample_adapter 2 d =
      (Inr (), d\<lparr>invoices := [inv_moves Inv_CONFIRMING 1000000 sample_invoice],
        payments := [pay_confirming 3 1000000 sample_payment]\<rparr>)"
  by (simp add: runPaymentConfirm_def expireOverdueInvoices_def overdue_invoices_def assms eff_defs
        inv_moves_def is_active_def confirm_payment_def sample_adapter_def moveToConfirming_def
        transaction_def update_payment_def update_invoice_def update_row_def update_rows_def
        pay_confirming_def sample_env_def del: write_folds)

lemma sample_confirming_rows:
  "invoices sample_confirming = [inv_moves Inv_CONFIRMING 1000000 sample_invoice]"
  "payments sample_confirming = [pay_confirming 3 1000000 sample_payment]"
  "events sample_confirming = []"
  by (simp_all add: sample_confirming_def sample_confirming_step sample_detected_rows [folded sample_payment_def])

lemma sample_paid_step:
  assumes "invoices d = [inv_moves Inv_CONFIRMING 1000000 sample_invoice]"
    "payments d = [pay_confirming 3 1000000 sample_payment]" "events d = []"
  shows "runPaymentConfirm sample_env sample_adapter 2 d =
      (Inr (), d\<lparr>invoices := [inv_finalized Inv_PAID 1000000 sample_invoice],
        payments := [pay_finalized Pay_CONFIRMED 3 1000000 sample_payment],
        events := [event_for sample_env (inv_moves Inv_CONFIRMING 1000000 sample_invoice)
     ''payment.paid'' Inv_PAID (Some ''0x1'')]\<rparr>)"
proof -
  have "payment_outcome (pay_confirming 3 1000000 sample_payment) = Exact"
    by (simp add: payment_outcome_def pay_confirming_def evaluatePaymentAmount_cases)
  then show ?thesis
    by (simp add: runPaymentConfirm_def expireOverdueInvoices_def overdue_invoices_def assms eff_defs
        inv_moves_def is_active_def confirm_payment_def sample_adapter_def finalizePayment_def
        transaction_def update_payment_def update_invoice_def update_row_def update_rows_def Let_def
        createWebhookEvent_def create_event_def create_row_def inv_finalized_def
        pay_confirming_def pay_finalized_def sample_env_def del: write_folds)
qed

lemma sample_paid_rows:
  "invoices sample_paid = [inv_finalized Inv_PAID 1000000 sample_invoice]"
  "payments sample_paid = [pay_finalized Pay_CONFIRMED 3 1000000 sample_payment]"
  "events sample_paid = [event_for sample_env (inv_moves Inv_CONFIRMING 1000000 sample_invoice)
     ''payment.paid'' Inv_PAID (Some ''0x1'')]"
  by (simp_all add: sample_paid_def sample_paid_step sample_confirming_rows)

lemma sample_reachable:
  "reachable 2 sample_created" "reachable 2 sample_detected" "reachable 2 sample_confirming"
  "reachable 2 sample_paid"
proof -
  show c: "reachable 2 sample_created"
    unfolding sample_created_def by (rule creates [OF start]) (rule surjective_pairing)
  show d: "reachable 2 sample_detected"
    unfolding sample_detected_def by (rule scans [OF c]) (rule surjective_pairing)
  show e: "reachable 2 sample_confirming"
    unfolding sample_confirming_def by (rule confirms [OF d]) (rule surjective_pairing)
  show "reachable 2 sample_paid"
    unfolding sample_paid_def by (rule confirms [OF e]) (rule surjective_pairing)
qed

section \<open>What holds of every reachable store\<close>

lemma reachable_invoice_ok:
  assumes "reachable req s" "i \<in> set (invoices s)"
  shows "invoice_ok req i (pays_of s (inv_id i)) (evts_of s (inv_id i))"
proof -
  note inv = reachable_inv [OF assms(1)]
  have "inv_row s (inv_id i) = Some i" using inv_row_iff [OF inv] assms(2) by simp
  then show ?thesis by (rule pipeline_invD(5) [OF inv])
qed

lemma final_invoice_payment:
  assumes "invoice_ok req i ps es" "inv_status i \<in> {Inv_PAID, Inv_UNDERPAID, Inv_OVERPAID}"
  shows "\<exists>p a. ps = [p] \<and> pay_receivedAmount p = Some a \<and> pay_txHash p \<noteq> None \<and>
    req \<le> pay_confirmations p \<and> pay_status p = final_payment_status (payment_outcome p) \<and>
    payment_outcome p = evaluatePaymentAmount (inv_amount i) a \<and>
    inv_status i = final_invoice_status (payment_outcome p)"
proof -
  from assms obtain p where ps: "ps = [p]"
    by (cases "(req, i, ps, es)" rule: invoice_ok.cases) auto
  with assms(1) have ok: "inv_status i = invoice_status_of (pay_status p)" "payment_ok req i p" by auto
  then obtain a where a: "pay_receivedAmount p = Some a" by (auto simp: payment_ok_def)
  have "pay_status p \<in> {Pay_CONFIRMED, Pay_UNDERPAID, Pay_OVERPAID}"
    using assms(2) ok(1) by (cases "pay_status p") simp_all
  with ok(2) a have "req \<le> pay_confirmations p" "pay_status p = final_payment_status (payment_outcome p)"
    "payment_outcome p = evaluatePaymentAmount (inv_amount i) a" "pay_txHash p \<noteq> None"
    by (auto simp: payment_ok_def payment_outcome_def)
  moreover from this ok(1) have "inv_status i = final_invoice_status (payment_outcome p)"
    using final_status_maps(1) [of "payment_outcome p"] by simp
  ultimately show ?thesis using a ps by simp
qed

text \<open>C1. Money: in every store the system can reach, an invoice is PAID exactly on the
  strength of one payment that received the invoice's exact amount with at least the
  required number of confirmations; an UNDERPAID invoice received less and an OVERPAID one
  more, with as many confirmations.\<close>

theorem final_status_means_money:
  assumes "reachable req s" and "i \<in> set (invoices s)"
    and "inv_status i \<in> {Inv_PAID, Inv_UNDERPAID, Inv_OVERPAID}"
  shows "\<exists>p a. pays_of s (inv_id i) = [p] \<and> pay_receivedAmount p = Some a \<and> pay_txHash p \<noteq> None \<and>
    req \<le> pay_confirmations p \<and>
    (inv_status i = Inv_PAID) = (a = inv_amount i) \<and>
    (inv_status i = Inv_UNDERPAID) = (a < inv_amount i) \<and>
    (inv_status i = Inv_OVERPAID) = (inv_amount i < a)"
proof -
  from final_invoice_payment [OF reachable_invoice_ok [OF assms(1,2)] assms(3)] obtain p a where
    p: "pays_of s (inv_id i) = [p]" "pay_receivedAmount p = Some a" "pay_txHash p \<noteq> None"
      "req \<le> pay_confirmations p"
      "inv_status i = final_invoice_status (evaluatePaymentAmount (inv_amount i) a)"
    by auto
  have st: "final_invoice_status m = Inv_PAID \<longleftrightarrow> m = Exact"
    "final_invoice_status m = Inv_UNDERPAID \<longleftrightarrow> m = Underpaid"
    "final_invoice_status m = Inv_OVERPAID \<longleftrightarrow> m = Overpaid" for m
    by (cases m; simp)+
  show ?thesis using p by (simp add: st evaluatePaymentAmount_cases)
qed

theorem final_status_means_money_witness:
  "\<exists>p a. pays_of sample_paid (inv_id sample_invoice) = [p] \<and> pay_receivedAmount p = Some a \<and>
     a = decimal_of_string ''5'' \<and> 2 \<le> pay_confirmations p"
  using final_status_means_money [OF sample_reachable(4), of "inv_finalized Inv_PAID 1000000 sample_invoice"]
  by (auto simp: sample_paid_rows inv_finalized_def)

text \<open>C8. Webhooks are told exactly once: in every reachable store an invoice has exactly
  one event if it is expired, paid, underpaid or overpaid, of the type of its status, and
  none otherwise; the event's payload names the invoice, its organization, its present
  status and the transaction of its payment.\<close>

theorem exactly_one_event:
  assumes "reachable req s" and "i \<in> set (invoices s)"
  shows "map evt_type (evts_of s (inv_id i)) = status_events (inv_status i) \<and>
    list_all (event_ok i (pays_of s (inv_id i))) (evts_of s (inv_id i))"
  using reachable_invoice_ok [OF assms]
  by (cases "(req, i, pays_of s (inv_id i), evts_of s (inv_id i))" rule: invoice_ok.cases) simp_all

theorem exactly_one_event_witness:
  "map evt_type (evts_of sample_paid (inv_id sample_invoice)) = [''payment.paid'']"
  using exactly_one_event [OF sample_reachable(4), of "inv_finalized Inv_PAID 1000000 sample_invoice"]
  by (simp add: sample_paid_rows inv_finalized_def)

text \<open>C9. No double spending: in every reachable store no two payments name the same
  transaction of a network, no two payments belong to the same invoice, and every payment
  belongs to an invoice with the same organization, network, token, address and amount.\<close>

theorem payments_unique:
  assumes "reachable req s"
  shows "distinct (map (\<lambda>p. (pay_network p, pay_txHash p)) (payments s)) \<and>
    distinct (map pay_invoiceId (payments s)) \<and>
    (\<forall>p \<in> set (payments s). \<exists>i \<in> set (invoices s). inv_id i = pay_invoiceId p \<and> payment_ok req i p)"
proof (intro conjI ballI)
  note inv = reachable_inv [OF assms]
  show "distinct (map (\<lambda>p. (pay_network p, pay_txHash p)) (payments s))"
    by (rule pipeline_invD(3) [OF inv])
  show "distinct (map pay_invoiceId (payments s))" by (rule distinct_invoices_of_payments [OF inv])
  fix p
  assume p: "p \<in> set (payments s)"
  obtain i where i: "inv_row s (pay_invoiceId p) = Some i" using pipeline_invD(4) [OF inv p] ..
  from payment_single_ok(2) [OF inv i payment_single [OF inv p i]] inv_rowD [OF i]
  show "\<exists>i \<in> set (invoices s). inv_id i = pay_invoiceId p \<and> payment_ok req i p" by blast
qed

theorem payments_unique_witness:
  "\<exists>i \<in> set (invoices sample_paid).
     inv_id i = inv_id sample_invoice \<and> payment_ok 2 i (pay_finalized Pay_CONFIRMED 3 1000000 sample_payment)"
  using payments_unique [OF sample_reachable(4)] by (simp add: sample_paid_rows pay_finalized_def)

text \<open>C6. Refinement: from any reachable store, each pass of the worker and each tick of the
  API moves every invoice along its abstract life only (\<open>life_step\<close>: one legal transition
  of both machines at a time, with the event that goes with it), whether the pass returns or
  throws.\<close>

theorem passes_refine_life:
  assumes "reachable req s" and "reachable req (ap_store a)"
  shows "rel_option life_reaches (life_of s k) (life_of (snd (runBlockchainScan env adapter network s)) k) \<and>
    rel_option life_reaches (life_of s k) (life_of (snd (runPaymentConfirm env adapter req s)) k) \<and>
    rel_option life_reaches (life_of (ap_store a) k) (life_of (ap_store (snd (tick v env req a))) k)"
proof -
  have "pipe_steps req (ap_store a) (ap_store (snd (tick v env req a)))"
    by (rule pass_okD(1) [OF tick_ok reachable_inv [OF assms(2)] surjective_pairing])
  moreover have "pipe_steps req s (snd (runBlockchainScan env adapter network s))"
    by (rule pass_okD(1) [OF runBlockchainScan_ok reachable_inv [OF assms(1)] surjective_pairing])
  moreover have "pipe_steps req s (snd (runPaymentConfirm env adapter req s))"
    by (rule pass_okD(1) [OF runPaymentConfirm_ok reachable_inv [OF assms(1)] surjective_pairing])
  ultimately show ?thesis using reachable_inv assms by (auto intro: pipe_steps_life)
qed

theorem passes_refine_life_witness:
  "rel_option life_reaches (life_of sample_confirming (inv_id sample_invoice))
     (life_of sample_paid (inv_id sample_invoice)) \<and> life_of sample_paid (inv_id sample_invoice) \<noteq> None"
  using passes_refine_life [OF sample_reachable(3), of "\<lparr>ap_store = sample_confirming,
      ap_lastScannedBlock = 0, ap_ticking = False, ap_registry = Map.empty\<rparr>"
      "inv_id sample_invoice" sample_env sample_adapter "''base''"] sample_reachable(3)
  by (simp add: sample_paid_def [symmetric])
    (simp add: life_of_def inv_row_def sample_paid_rows inv_finalized_def)

text \<open>The passes keep the books: no pass of the worker and no tick deletes, adds or
  re-identifies an invoice or changes any of its terms (everything but the status, the
  payment time and the update time), and the events written before stay, in order.\<close>

theorem passes_keep_terms:
  assumes "reachable req s" and "reachable req (ap_store a)"
    and "s' = snd (runBlockchainScan env adapter network s) \<or>
      s' = snd (runPaymentConfirm env adapter req s) \<or> (s' = ap_store (snd (tick v env req a)) \<and> s = ap_store a)"
  shows "map terms_of (invoices s') = map terms_of (invoices s) \<and> (\<exists>es. events s' = events s @ es)"
proof -
  have steps: "pipe_steps req s s'"
    using assms(3) pass_okD(1) [OF tick_ok reachable_inv [OF assms(2)] surjective_pairing]
      pass_okD(1) [OF runBlockchainScan_ok reachable_inv [OF assms(1)] surjective_pairing]
      pass_okD(1) [OF runPaymentConfirm_ok reachable_inv [OF assms(1)] surjective_pairing]
    by auto
  note inv = reachable_inv [OF assms(1)] and inv' = pipe_steps_inv [OF steps reachable_inv [OF assms(1)]]
  have keys: "map inv_id (invoices s') = map inv_id (invoices s)" and ev: "\<exists>es. events s' = events s @ es"
    using pipe_steps_frame [OF steps] by blast+
  have len: "length (invoices s') = length (invoices s)" using keys map_eq_imp_length_eq by blast
  have "terms_of (invoices s' ! n) = terms_of (invoices s ! n)" if "n < length (invoices s)" for n
  proof -
    let ?k = "inv_id (invoices s ! n)"
    have k: "inv_id (invoices s' ! n) = ?k" using keys that len by (metis nth_map)
    have "inv_row s ?k = Some (invoices s ! n)" "inv_row s' ?k = Some (invoices s' ! n)"
      using inv_row_iff [OF inv] inv_row_iff [OF inv'] k that len by auto
    with pipe_steps_frame [OF steps, of ?k] show ?thesis by simp
  qed
  with len ev show ?thesis by (auto intro: nth_equalityI)
qed

theorem passes_keep_terms_witness:
  "map terms_of (invoices sample_paid) = map terms_of (invoices sample_confirming) \<and>
   inv_status (hd (invoices sample_paid)) \<noteq> inv_status (hd (invoices sample_confirming))"
  using passes_keep_terms [OF sample_reachable(3), of "\<lparr>ap_store = sample_confirming,
      ap_lastScannedBlock = 0, ap_ticking = False, ap_registry = Map.empty\<rparr>" sample_paid
      sample_env sample_adapter "''base''"] sample_reachable(3)
  by (simp add: sample_paid_def [symmetric])
    (simp add: sample_paid_rows sample_confirming_rows inv_finalized_def inv_moves_def)

text \<open>C11. A pass cannot stall on its own rules: from a reachable store the confirmation pass
  never throws an invalid state transition, a missing row or any error of its own; what it
  can throw is a collision of freshly generated event ids, or what the adapter threw and is
  no NotFoundError.\<close>

theorem confirm_throws_only:
  assumes "reachable req s" and "runPaymentConfirm env adapter req s = (Inl e, s')"
  shows "e = DbThrown UniqueViolation \<or> (\<exists>h. getConfirmations adapter h = Inl e \<and> \<not> is_NotFoundError e)"
  using pass_okD(2) [OF runPaymentConfirm_ok reachable_inv [OF assms(1)] assms(2) refl]
  by (simp add: confirm_throws_def)

definition failing_adapter :: chain_adapter where
  "failing_adapter = sample_adapter\<lparr>getConfirmations := (\<lambda>_. Inl (OtherThrown ''rpc timeout''))\<rparr>"

theorem confirm_throws_only_witness:
  "\<exists>e s'. runPaymentConfirm sample_env failing_adapter 2 sample_detected = (Inl e, s') \<and> \<not> is_NotFoundError e"
proof -
  have run: "runPaymentConfirm sample_env failing_adapter 2 sample_detected =
      (Inl (OtherThrown ''rpc timeout''), sample_detected)"
    by (simp add: runPaymentConfirm_def expireOverdueInvoices_def overdue_invoices_def
        sample_detected_rows [folded sample_payment_def] eff_defs inv_moves_def is_active_def
        confirm_payment_def failing_adapter_def is_NotFoundError_def del: write_folds)
  from confirm_throws_only [OF sample_reachable(2) run] run show ?thesis by auto
qed

end
