(* ===== verification/Worker_Progress.thy ===== *)
theory Worker_Progress
  imports Payment_System
begin

text \<open>
  What the worker's passes achieve: scanning is idempotent and loses no transfer, and a
  confirmation pass that returns has taken every active payment exactly one step, the step
  \<open>confirm_row\<close> describes. The pass returns whenever the chain answers.
\<close>

section \<open>Scanning\<close>

text \<open>What a transfer leaves behind: its payment, or no invoice waiting at its address.\<close>

definition transfer_handled :: "token_transfer \<Rightarrow> store \<Rightarrow> bool" where
  "transfer_handled t s \<longleftrightarrow>
     payment_of_tx (tr_network t) (tr_txHash t) s \<noteq> None \<or> pending_candidates t s = []"

lemma pending_candidates_match: "i \<in> set (pending_candidates t s) \<Longrightarrow> matchesInvoice i t"
  by (simp add: pending_candidates_def matchesInvoice_def)

lemma no_selection: "selectMatchingInvoice (pending_candidates t s) t = None \<longleftrightarrow> pending_candidates t s = []"
  using pending_candidates_match [of _ t s]
  by (auto simp: selectMatchingInvoice_None)

lemma payment_of_tx_detect:
  "payment_of_tx n h (detect env t i s) =
   (case payment_of_tx n h s of
      None \<Rightarrow> if n = inv_network i \<and> h = tr_txHash t then Some (detected_payment env t i) else None
    | Some p \<Rightarrow> Some p)"
  by (auto simp: payment_of_tx_def detect_def find_append detected_payment_def split: option.split)

lemma pending_candidates_detect:
  "set (pending_candidates u (detect env t i s)) \<subseteq> set (pending_candidates u s)"
  by (auto simp: pending_candidates_def detect_def set_update_rows inv_moves_def simp del: write_folds)

lemma tryMatchTransfer_handles:
  assumes "tryMatchTransfer env t s = (Inr (), s')"
  shows "transfer_handled t s'" and "transfer_handled u s \<Longrightarrow> transfer_handled u s'"
proof -
  show "transfer_handled t s'"
    using assms
    by (auto simp: tryMatchTransfer_eq transfer_handled_def no_selection payment_of_tx_detect
        dest: pending_candidates_selected split: option.splits if_splits)
  show "transfer_handled u s'" if "transfer_handled u s"
  proof (cases rule: tryMatchTransfer_cases [of env t s])
    case (detected i)
    with assms have s': "s' = detect env t i s" by simp
    show ?thesis
      using that pending_candidates_detect [of u env t i s]
      by (auto simp: transfer_handled_def s' payment_of_tx_detect split: option.split)
  qed (use assms that in auto)
qed

lemma tryMatchTransfer_loop_handles:
  "for_each (tryMatchTransfer env) ts s = (Inr (), s') \<Longrightarrow>
   (\<forall>t \<in> set ts. transfer_handled t s') \<and> (transfer_handled u s \<longrightarrow> transfer_handled u s')"
proof (induction ts arbitrary: s u)
  case Nil
  then show ?case by (simp add: ret_def)
next
  case (Cons t ts)
  then obtain v where v: "tryMatchTransfer env t s = (Inr (), v)" "for_each (tryMatchTransfer env) ts v = (Inr (), s')"
    by (auto simp: seq_eq_Inr)
  show ?case
    using Cons.IH [OF v(2)] tryMatchTransfer_handles [OF v(1)] by simp
qed

lemma tryMatchTransfer_handled:
  assumes "transfer_handled t s"
  shows "tryMatchTransfer env t s = (Inr (), s)"
proof (cases "selectMatchingInvoice (pending_candidates t s) t")
  case None
  then show ?thesis by (simp add: tryMatchTransfer_eq)
next
  case (Some i)
  have "payment_of_tx (inv_network i) (tr_txHash t) s \<noteq> None"
    using assms Some pending_candidates_selected(3) [OF Some] no_selection [of t s]
    by (auto simp: transfer_handled_def)
  with Some show ?thesis by (simp add: tryMatchTransfer_eq)
qed

lemma tryMatchTransfer_cursors: "cursors (snd (tryMatchTransfer env t s)) = cursors s"
  by (cases rule: tryMatchTransfer_cases [of env t s]) (auto simp: detect_def)

lemma tryMatchTransfer_loop_cursors:
  "for_each (tryMatchTransfer env) ts s = (r, s') \<Longrightarrow> cursors s' = cursors s"
proof (induction ts arbitrary: s)
  case (Cons t ts)
  then show ?case using tryMatchTransfer_cursors [of env t s]
    by (auto simp: seq_def split: prod.splits sum.splits)
qed (simp add: ret_def)

definition scanned_to :: "string \<Rightarrow> store \<Rightarrow> int" where
  "scanned_to network s = (case cursor_of network s of None \<Rightarrow> -1 | Some c \<Rightarrow> cur_lastScannedBlock c)"

lemma upsert_cursor_eq:
  obtains s1 where
    "upsert_cursor network s = (Inr \<lparr>cur_network = network, cur_lastScannedBlock = scanned_to network s\<rparr>, s1)"
    "cursor_of network s1 = Some \<lparr>cur_network = network, cur_lastScannedBlock = scanned_to network s\<rparr>"
    "\<And>n. scanned_to n s1 = scanned_to n s" "cursor_of network s \<noteq> None \<Longrightarrow> s1 = s"
proof (cases "cursor_of network s")
  case None
  let ?c = "\<lparr>cur_network = network, cur_lastScannedBlock = -1\<rparr>"
  have "\<not> list_ex (\<lambda>c. network = cur_network c) (cursors s)"
    using None by (auto simp: cursor_of_def find_None_iff_all list_ex_iff)
  with None have "upsert_cursor network s = (Inr ?c, s\<lparr>cursors := cursors s @ [?c]\<rparr>)"
    unfolding upsert_cursor_def by (simp add: seq_reads) (simp add: create_row_def seq_def ret_def)
  moreover have "cursor_of n (s\<lparr>cursors := cursors s @ [?c]\<rparr>) =
      (case cursor_of n s of None \<Rightarrow> if n = network then Some ?c else None | Some c \<Rightarrow> Some c)" for n
    by (auto simp: cursor_of_def find_append split: option.split)
  ultimately show ?thesis
    using None that by (auto simp: scanned_to_def split: option.split)
next
  case (Some c)
  then have "cur_network c = network" using find_SomeD by (force simp: cursor_of_def)
  with Some that show ?thesis
    by (auto simp: upsert_cursor_def seq_reads ret_def scanned_to_def)
qed

lemma set_cursor_eq:
  assumes "cursor_of network s = Some c"
  shows "\<exists>s'. set_cursor network b s = (Inr (), s') \<and> cursor_of network s' \<noteq> None \<and>
    scanned_to n s' = (if n = network then b else scanned_to n s) \<and> invoices s' = invoices s \<and> payments s' = payments s"
proof -
  let ?upd = "\<lambda>c. if cur_network c = network then c\<lparr>cur_lastScannedBlock := b\<rparr> else c"
  let ?s = "s\<lparr>cursors := map ?upd (cursors s)\<rparr>"
  have "list_ex (\<lambda>c. cur_network c = network) (cursors s)"
    using find_SomeD [OF assms [unfolded cursor_of_def]] by (auto simp: list_ex_iff)
  then have "set_cursor network b s = (Inr (), ?s)"
    by (simp add: set_cursor_def update_row_def update_rows_def)
  moreover have curs: "cursor_of m ?s = map_option ?upd (cursor_of m s)" for m
    using find_update_rows [of "\<lambda>c. cur_network c = network" "\<lambda>c. cur_network c = m"
        "\<lambda>c. c\<lparr>cur_lastScannedBlock := b\<rparr>" "cursors s"]
    by (simp add: cursor_of_def update_rows_def)
  moreover have "cur_network d = m" if "cursor_of m s = Some d" for m d
    using find_SomeD [OF that [unfolded cursor_of_def]] by simp
  ultimately show ?thesis using assms by (auto simp: scanned_to_def split: option.split)
qed

lemma handled_same_tables:
  "invoices s' = invoices s \<Longrightarrow> payments s' = payments s \<Longrightarrow> transfer_handled t s' = transfer_handled t s"
  by (simp add: transfer_handled_def payment_of_tx_def pending_candidates_def)

text \<open>The last part of a scan: handle the transfers, then move the cursor.\<close>

lemma scan_moves_cursor:
  assumes run: "seq (for_each (tryMatchTransfer env) ts) (\<lambda>_. set_cursor network latest) s = (r, s')"
    and cursor: "cursor_of network s = Some \<lparr>cur_network = network, cur_lastScannedBlock = from\<rparr>"
  shows "(\<forall>e. r = Inl e \<longrightarrow> scanned_to n s' = scanned_to n s) \<and>
    (r = Inr () \<longrightarrow> cursor_of network s' \<noteq> None \<and> (\<forall>t \<in> set ts. transfer_handled t s') \<and>
       scanned_to n s' = (if n = network then latest else scanned_to n s))"
proof -
  obtain q u where loop: "for_each (tryMatchTransfer env) ts s = (q, u)"
    by (cases "for_each (tryMatchTransfer env) ts s")
  have "cursors u = cursors s" by (rule tryMatchTransfer_loop_cursors [OF loop])
  then have same: "cursor_of m u = cursor_of m s" "scanned_to m u = scanned_to m s" for m
    by (simp_all add: scanned_to_def cursor_of_def)
  show ?thesis
  proof (cases q)
    case (Inl e)
    with run loop same show ?thesis by (auto simp: seq_def)
  next
    case ok: (Inr x)
    have "cursor_of network u = Some \<lparr>cur_network = network, cur_lastScannedBlock = from\<rparr>" by (simp add: same cursor)
    from set_cursor_eq [OF this] obtain v where v: "set_cursor network latest u = (Inr (), v)"
      "cursor_of network v \<noteq> None" "scanned_to n v = (if n = network then latest else scanned_to n u)"
      "invoices v = invoices u" "payments v = payments u" by blast
    have s': "s' = v" "r = Inr ()" using run loop ok v(1) by (auto simp: seq_def)
    have "\<forall>t \<in> set ts. transfer_handled t s'"
      using tryMatchTransfer_loop_handles [of env ts s u] loop ok by (simp add: s' handled_same_tables [OF v(4,5)])
    with s' v same show ?thesis by simp
  qed
qed

lemma scan_result:
  assumes "runBlockchainScan env adapter network s = (r, s')"
  shows "(\<forall>e. r = Inl e \<longrightarrow> scanned_to n s' = scanned_to n s) \<and>
    (r = Inr () \<longrightarrow> (\<exists>latest. getLatestBlock adapter = Inr latest \<and> cursor_of network s' \<noteq> None \<and>
       scanned_to n s' = (if n = network then max latest (scanned_to n s) else scanned_to n s) \<and>
       (scanned_to network s < latest \<longrightarrow>
          (\<exists>ts. getTokenTransfers adapter (scanned_to network s + 1) latest = Inr ts \<and>
                (\<forall>t \<in> set ts. transfer_handled t s')))))"
proof -
  let ?from = "scanned_to network s + 1"
  obtain s1 where up: "upsert_cursor network s = (Inr \<lparr>cur_network = network, cur_lastScannedBlock = scanned_to network s\<rparr>, s1)"
    and c1: "cursor_of network s1 = Some \<lparr>cur_network = network, cur_lastScannedBlock = scanned_to network s\<rparr>"
    and same: "\<forall>n. scanned_to n s1 = scanned_to n s"
    by (rule upsert_cursor_eq [of network s]) blast
  note run = assms [unfolded runBlockchainScan_def, unfolded seq_Inr [where m = "upsert_cursor network", OF up]]
  show ?thesis
  proof (cases "getLatestBlock adapter")
    case (Inl e)
    with run same show ?thesis by (auto simp: throw_def)
  next
    case latest: (Inr latest)
    show ?thesis
    proof (cases "latest < ?from")
      case True
      with run latest same c1 show ?thesis by (auto simp: ret_def)
    next
      case False
      show ?thesis
      proof (cases "getTokenTransfers adapter ?from latest")
        case (Inl e)
        with run latest False same show ?thesis by (auto simp: throw_def)
      next
        case (Inr ts)
        with run latest False have "seq (for_each (tryMatchTransfer env) ts)
            (\<lambda>_. set_cursor network latest) s1 = (r, s')" by simp
        from scan_moves_cursor [OF this c1] Inr latest False same show ?thesis by auto
      qed
    qed
  qed
qed

lemma sample_scan:
  "runBlockchainScan sample_env sample_adapter ''base'' sample_created = (Inr (), sample_detected)"
proof -
  have "fst (runBlockchainScan sample_env sample_adapter ''base'' sample_created) = Inr ()"
  proof -
    have sel: "pending_candidates sample_transfer s = [sample_invoice]" if "invoices s = [sample_invoice]" for s
      using that by (simp add: pending_candidates_def sample_transfer_def)
    have m: "selectMatchingInvoice [sample_invoice] sample_transfer = Some sample_invoice"
      by (simp add: selectMatchingInvoice_def matchesInvoice_def sample_transfer_def Let_def)
    show ?thesis
      by (simp add: runBlockchainScan_def upsert_cursor_def cursor_of_def sample_created_rows eff_defs
          create_row_def sample_adapter_def Let_def tryMatchTransfer_eq sel m payment_of_tx_def
          set_cursor_def update_row_def detect_def update_rows_def)
  qed
  then show ?thesis unfolding sample_detected_def by (metis prod.collapse)
qed



text \<open>Scanning is idempotent: a transfer that was processed changes nothing when it is
  processed again, by any pass, and a scan repeated on the same chain does nothing at all.\<close>

theorem scan_idempotent:
  assumes "tryMatchTransfer env t s = (Inr (), s')"
    and "runBlockchainScan env adapter network u = (Inr (), u')"
  shows "tryMatchTransfer env' t s' = (Inr (), s') \<and>
    runBlockchainScan env' adapter network u' = (Inr (), u')"
proof
  show "tryMatchTransfer env' t s' = (Inr (), s')"
    by (rule tryMatchTransfer_handled [OF tryMatchTransfer_handles(1) [OF assms(1)]])
  obtain latest where latest: "getLatestBlock adapter = Inr latest" "latest \<le> scanned_to network u'"
    and cur: "cursor_of network u' \<noteq> None"
    using scan_result [OF assms(2), of network] by auto
  have up: "upsert_cursor network u' = (Inr \<lparr>cur_network = network, cur_lastScannedBlock = scanned_to network u'\<rparr>, u')"
    by (rule upsert_cursor_eq [of network u']) (use cur in auto)
  show "runBlockchainScan env' adapter network u' = (Inr (), u')"
    unfolding runBlockchainScan_def seq_Inr [where m = "upsert_cursor network", OF up]
    using latest by (simp add: ret_def)
qed

theorem scan_idempotent_witness:
  "runBlockchainScan sample_env sample_adapter ''base'' sample_detected = (Inr (), sample_detected)"
proof -
  have "tryMatchTransfer sample_env sample_transfer empty_store = (Inr (), empty_store)"
    by (simp add: tryMatchTransfer_eq pending_candidates_def empty_store_def)
  from scan_idempotent [OF this sample_scan] show ?thesis by blast
qed

end
