(* ===== verification/Confirm_Progress.thy ===== *)
theory Confirm_Progress
  imports Worker_Progress
begin

text \<open>
  The functional behaviour of the confirmation pass. \<open>confirm_row\<close> is the step one payment
  takes, as a pure function of the clock, the chain's answer and the row; a pass that returns
  has applied it to every active payment and left every other payment alone, and the pass
  returns whenever the chain answers every query with a count or with NotFoundError.
\<close>

section \<open>One payment\<close>

definition confirm_row :: "millis \<Rightarrow> chain_adapter \<Rightarrow> int \<Rightarrow> payment \<Rightarrow> payment" where
  "confirm_row now adapter req p =
     (case pay_txHash p of
        None \<Rightarrow> p
      | Some h \<Rightarrow>
          if h = [] then p
          else
            (case getConfirmations adapter h of
               Inl _ \<Rightarrow>
                 if pay_status p = Pay_DETECTED then pay_moves Pay_FAILED now p
                 else if pay_status p = Pay_CONFIRMING then pay_moves Pay_REORG_DETECTED now p
                 else if REORG_GRACE_MS \<le> now - pay_updatedAt p then pay_moves Pay_FAILED now p
                 else p
             | Inr c \<Rightarrow>
                 if pay_status p \<noteq> Pay_CONFIRMING then pay_confirming c now p
                 else if req \<le> c then
                   pay_finalized (final_payment_status (payment_outcome p)) c now p
                 else if c \<noteq> pay_confirmations p then pay_counts c now p else p))"

definition next_row :: "millis \<Rightarrow> chain_adapter \<Rightarrow> int \<Rightarrow> payment \<Rightarrow> payment" where
  "next_row now adapter req p = (if is_active p then confirm_row now adapter req p else p)"

text \<open>\<open>chain_answers\<close>: the adapter knows the transaction or says NotFoundError.\<close>

definition chain_answers :: "chain_adapter \<Rightarrow> payment \<Rightarrow> bool" where
  "chain_answers adapter p \<longleftrightarrow>
     (\<forall>h e. pay_txHash p = Some h \<longrightarrow> getConfirmations adapter h = Inl e \<longrightarrow> is_NotFoundError e)"

definition event_id_free :: "pass_env \<Rightarrow> ident \<Rightarrow> store \<Rightarrow> bool" where
  "event_id_free env k s \<longleftrightarrow> (\<forall>e \<in> set (events s). evt_id e \<noteq> newId env ''evt'' k)"

lemma event_for_fields [simp]:
  "evt_id (event_for env i type st h) = newId env ''evt'' (inv_id i)"
  "evt_invoiceId (event_for env i type st h) = inv_id i"
  by (simp_all add: event_for_def)

lemma touch_rows [simp]:
  "pays_of s k = [p] \<Longrightarrow> local_write k F G [] es \<Longrightarrow> pays_of (touch k F G [] es s) k = [G p]"
  "events (touch k F G ps es s) = events s @ es"
  by (simp_all add: pays_of_touch) (simp add: touch_def)

text \<open>What a run of the loop's body has done: the row, and at most the invoice's event. First for a
  transaction the chain knows, then for one it does not.\<close>

lemma confirm_known_effect:
  assumes inv: "pipeline_inv req s" and cur: "current s (p, i)" and act: "is_active p"
    and run: "confirm_payment env adapter req (p, i) s = (Inr (), s')"
    and lookup: "pay_txHash p = Some h" "h \<noteq> []" "getConfirmations adapter h = Inr c"
  shows "pays_of s' (pay_invoiceId p) = [confirm_row (pe_now env) adapter req p] \<and>
    (\<forall>e \<in> set (events s'). e \<in> set (events s) \<or> evt_id e = newId env ''evt'' (pay_invoiceId p))"
proof -
  note rows = current_rows(3) [OF inv cur]
  have id: "inv_id i = pay_invoiceId p" using inv_rowD [OF current_rows(4) [OF inv cur]] by simp
  consider (move) "pay_status p = Pay_DETECTED \<or> pay_status p = Pay_REORG_DETECTED"
    | (wait) "pay_status p = Pay_CONFIRMING" "c < req"
    | (finish) "pay_status p = Pay_CONFIRMING" "req \<le> c"
    using act by (fastforce simp: is_active_def)
  then show ?thesis
  proof cases
    case move
    with lookup run rows moveToConfirming_eq [OF inv cur move] show ?thesis
      by (auto simp: confirm_payment_def confirm_row_def)
  next
    case wait
    with lookup run rows show ?thesis
      by (auto simp: confirm_payment_def confirm_row_def ret_def touches [OF inv cur] split: if_splits)
  next
    case finish
    with lookup run rows id show ?thesis
      by (auto simp: confirm_payment_def confirm_row_def Let_def finalizePayment_eq [OF inv cur] split: if_splits)
  qed
qed

lemma confirm_unknown_effect:
  assumes inv: "pipeline_inv req s" and cur: "current s (p, i)" and act: "is_active p"
    and run: "confirm_payment env adapter req (p, i) s = (Inr (), s')"
    and lookup: "pay_txHash p = Some h" "h \<noteq> []" "getConfirmations adapter h = Inl e"
  shows "pays_of s' (pay_invoiceId p) = [confirm_row (pe_now env) adapter req p] \<and>
    (\<forall>e \<in> set (events s'). e \<in> set (events s) \<or> evt_id e = newId env ''evt'' (pay_invoiceId p))"
proof -
  have missing: "handleMissingTransaction env p i s = (Inr (), s')"
    using lookup run by (auto simp: confirm_payment_def throw_def split: if_splits)
  consider "pay_status p = Pay_DETECTED" | "pay_status p = Pay_CONFIRMING" | "pay_status p = Pay_REORG_DETECTED"
    using act by (auto simp: is_active_def)
  then show ?thesis
    using missing lookup current_rows(3) [OF inv cur] failPayment_eq [OF inv cur act, of env]
    by cases (auto simp: handleMissingTransaction_def confirm_row_def ret_def touches [OF inv cur] split: if_splits)
qed

lemma confirm_payment_effect:
  assumes inv: "pipeline_inv req s" and cur: "current s (p, i)" and act: "is_active p"
    and run: "confirm_payment env adapter req (p, i) s = (Inr (), s')"
  shows "pays_of s' (pay_invoiceId p) = [confirm_row (pe_now env) adapter req p] \<and>
    (\<forall>e \<in> set (events s'). e \<in> set (events s) \<or> evt_id e = newId env ''evt'' (pay_invoiceId p))"
proof (cases "pay_txHash p = None \<or> pay_txHash p = Some []")
  case True
  with run current_rows(3) [OF inv cur] show ?thesis by (auto simp: confirm_payment_def confirm_row_def ret_def)
next
  case False
  then obtain h where h: "pay_txHash p = Some h" "h \<noteq> []" by auto
  then show ?thesis
    using confirm_known_effect [OF assms h] confirm_unknown_effect [OF assms h] by (cases "getConfirmations adapter h") blast+
qed

lemma confirm_payment_returns:
  assumes inv: "pipeline_inv req s" and cur: "current s (p, i)" and act: "is_active p"
    and "chain_answers adapter p" and "event_id_free env (pay_invoiceId p) s"
  shows "\<exists>s'. confirm_payment env adapter req (p, i) s = (Inr (), s')"
proof -
  have id: "inv_id i = pay_invoiceId p" using inv_rowD [OF current_rows(4) [OF inv cur]] by simp
  have free: "\<not> (\<exists>e \<in> set (events s). newId env ''evt'' (inv_id i) = evt_id e)"
    using assms(5) id by (auto simp: event_id_free_def)
  consider (move) "pay_status p = Pay_DETECTED \<or> pay_status p = Pay_REORG_DETECTED"
    | (wait) "pay_status p = Pay_CONFIRMING"
    using act by (auto simp: is_active_def)
  then show ?thesis
  proof cases
    case move
    then show ?thesis
      using assms(4) handleMissingTransaction_step [OF inv cur act, of env]
        moveToConfirming_eq [OF inv cur move]
      by (cases "handleMissingTransaction env p i s")
        (auto simp: confirm_payment_def ret_def chain_answers_def split: option.split sum.split)
  next
    case wait
    then show ?thesis
      using assms(4) free handleMissingTransaction_step [OF inv cur act, of env]
      by (cases "handleMissingTransaction env p i s")
        (auto simp: confirm_payment_def ret_def chain_answers_def touches [OF inv cur]
          finalizePayment_eq [OF inv cur] Let_def split: option.split sum.split)
  qed
qed

section \<open>The loop\<close>

lemma for_each_rows:
  assumes body: "\<And>x s s'. x \<in> set xs \<Longrightarrow> I s \<Longrightarrow> snap s x \<Longrightarrow> f x s = (Inr (), s') \<Longrightarrow>
      I s' \<and> post s' x \<and> (\<forall>y. key y \<noteq> key x \<longrightarrow> (snap s y \<longrightarrow> snap s' y) \<and> (post s y \<longrightarrow> post s' y))"
    and "distinct (map key xs)" "\<forall>x \<in> set xs. snap s x" "I s" "for_each f xs s = (Inr (), s')"
  shows "I s' \<and> (\<forall>x \<in> set xs. post s' x) \<and> (\<forall>y. key y \<notin> key ` set xs \<longrightarrow> post s y \<longrightarrow> post s' y)"
  using assms
proof (induction xs arbitrary: s)
  case Nil
  then show ?case by (simp add: ret_def)
next
  case (Cons x xs)
  from Cons.prems(5) obtain t where t: "f x s = (Inr (), t)" "for_each f xs t = (Inr (), s')"
    by (auto simp: seq_eq_Inr)
  have step: "I t \<and> post t x \<and> (\<forall>y. key y \<noteq> key x \<longrightarrow> (snap s y \<longrightarrow> snap t y) \<and> (post s y \<longrightarrow> post t y))"
    using Cons.prems(1) [OF _ Cons.prems(4) _ t(1)] Cons.prems(3) by simp
  have new: "key x \<notin> key ` set xs" and dist: "distinct (map key xs)" using Cons.prems(2) by simp_all
  have "\<forall>y \<in> set xs. snap t y"
  proof
    fix y
    assume y: "y \<in> set xs"
    then have "key y \<noteq> key x" using new by (metis imageI)
    moreover have "snap s y" using Cons.prems(3) y by simp
    ultimately show "snap t y" using step by blast
  qed
  then have IH: "I s' \<and> (\<forall>x \<in> set xs. post s' x) \<and> (\<forall>y. key y \<notin> key ` set xs \<longrightarrow> post t y \<longrightarrow> post s' y)"
    using Cons.IH [of t] Cons.prems(1) dist step t(2) by (metis list.set_intros(2))
  with step new show ?case by (metis image_insert insert_iff list.simps(15) set_ConsD)
qed

lemma for_each_returns:
  assumes body: "\<And>x s. x \<in> set xs \<Longrightarrow> I s \<Longrightarrow> snap s x \<Longrightarrow>
      \<exists>s'. f x s = (Inr (), s') \<and> I s' \<and> (\<forall>y \<in> set xs. key y \<noteq> key x \<longrightarrow> snap s y \<longrightarrow> snap s' y)"
    and "distinct (map key xs)" "\<forall>x \<in> set xs. snap s x" "I s"
  shows "\<exists>s'. for_each f xs s = (Inr (), s') \<and> I s'"
  using assms
proof (induction xs arbitrary: s)
  case Nil
  then show ?case by (simp add: ret_def)
next
  case (Cons x xs)
  have sx: "snap s x" using Cons.prems(3) by simp
  obtain t where t: "f x s = (Inr (), t)" "I t"
    "\<forall>y \<in> set (x # xs). key y \<noteq> key x \<longrightarrow> snap s y \<longrightarrow> snap t y"
    using Cons.prems(1) [OF _ Cons.prems(4) sx] by auto
  have new: "key x \<notin> key ` set xs" and dist: "distinct (map key xs)" using Cons.prems(2) by simp_all
  have "\<forall>y \<in> set xs. snap t y"
  proof
    fix y
    assume y: "y \<in> set xs"
    then have "key y \<noteq> key x" using new by (metis imageI)
    moreover have "snap s y" using Cons.prems(3) y by simp
    ultimately show "snap t y" using t(3) y by simp
  qed
  moreover have "\<exists>s'. f y u = (Inr (), s') \<and> I s' \<and> (\<forall>z \<in> set xs. key z \<noteq> key y \<longrightarrow> snap u z \<longrightarrow> snap s' z)"
    if "y \<in> set xs" "I u" "snap u y" for y u
    using Cons.prems(1) [OF _ that(2,3)] that(1) by fastforce
  ultimately obtain s' where "for_each f xs t = (Inr (), s')" "I s'"
    using Cons.IH [OF _ dist _ t(2)] by blast
  with t(1) show ?case by (auto simp: seq_def)
qed

section \<open>The pass\<close>

text \<open>Expiry touches no payment, and adds only the events of the invoices it expires.\<close>

lemma expire_payments:
  "expireOverdueInvoices env s = (r, s') \<Longrightarrow> payments s' = payments s"
proof -
  have one: "keeps (\<lambda>s. payments s = P) (expire_invoice env i)" for P i
    unfolding expire_invoice_def
    by (intro hoare_rules keeps_transaction)
      (auto simp: keeps_def update_invoice_def update_row_def createWebhookEvent_def create_event_def
        create_row_def)
  have "keeps (\<lambda>s. payments s = P) (expireOverdueInvoices env)" for P
    unfolding expireOverdueInvoices_def by (intro hoare_rules one)
  then show "expireOverdueInvoices env s = (r, s') \<Longrightarrow> payments s' = payments s"
    unfolding keeps_def by (metis snd_conv)
qed

lemma confirm_ids:
  "keeps (\<lambda>s. map pay_id (payments s) = L) (confirm_payment env adapter req x)"
proof -
  have upd: "keeps (\<lambda>s. map pay_id (payments s) = L) (update_payment now k g)"
    if "\<And>r. pay_id (g r) = pay_id r" for now k g
    using that by (auto simp: keeps_def update_payment_def update_row_def map_update_rows)
  have other: "keeps (\<lambda>s. map pay_id (payments s) = L) (update_invoice now k f)"
    "keeps (\<lambda>s. map pay_id (payments s) = L) (createWebhookEvent env i type st h)" for now k f i type st h
    by (auto simp: keeps_def update_invoice_def update_row_def createWebhookEvent_def create_event_def
        create_row_def)
  have tx: "keeps (\<lambda>s. map pay_id (payments s) = L) (transaction ops)"
    if "list_all (keeps (\<lambda>s. map pay_id (payments s) = L)) ops" for ops :: "unit db_op list"
    using that by (intro keeps_transaction) (auto simp: list_all_iff)
  show ?thesis
    by (cases x) (auto simp: confirm_payment_def handleMissingTransaction_def failPayment_def
        moveToConfirming_def finalizePayment_def Let_def intro!: hoare_rules tx upd other
        split: option.split sum.split)
qed

definition row_taken :: "millis \<Rightarrow> chain_adapter \<Rightarrow> int \<Rightarrow> store \<Rightarrow> payment \<times> invoice \<Rightarrow> bool" where
  "row_taken now adapter req s x \<longleftrightarrow>
     pays_of s (pay_invoiceId (fst x)) = [next_row now adapter req (fst x)]"

lemma confirm_pass_loop:
  assumes inv: "pipeline_inv req s"
    and xs: "\<forall>x \<in> set xs. current s x \<and> is_active (fst x)" "distinct (map (\<lambda>x. pay_invoiceId (fst x)) xs)"
    and run: "for_each (confirm_payment env adapter req) xs s = (Inr (), s')"
  shows "pipeline_inv req s' \<and> (\<forall>x \<in> set xs. row_taken (pe_now env) adapter req s' x) \<and>
    (\<forall>y. pay_invoiceId (fst y) \<notin> (\<lambda>x. pay_invoiceId (fst x)) ` set xs \<longrightarrow>
       row_taken (pe_now env) adapter req s y \<longrightarrow> row_taken (pe_now env) adapter req s' y)"
proof (rule for_each_rows [where snap = "\<lambda>s x. current s x \<and> is_active (fst x)" and I = "pipeline_inv req"
      and key = "\<lambda>x. pay_invoiceId (fst x)" and post = "row_taken (pe_now env) adapter req",
      OF _ xs(2,1) inv run])
  fix x :: "payment \<times> invoice" and u t
  assume u: "pipeline_inv req u" and snap: "current u x \<and> is_active (fst x)"
    and go: "confirm_payment env adapter req x u = (Inr (), t)"
  obtain p i where x: "x = (p, i)" by (cases x)
  have step: "t = u \<or> pipe_step req (pay_invoiceId p) u t"
    using confirm_payment_step [OF u _ _ go [unfolded x]] snap x by auto
  have eff: "pays_of t (pay_invoiceId p) = [confirm_row (pe_now env) adapter req p]"
    using confirm_payment_effect [OF u _ _ go [unfolded x]] snap x by auto
  have "pipeline_inv req t" using step u pipe_step_keeps_inv by blast
  moreover have "row_taken (pe_now env) adapter req t x"
    using eff snap by (simp add: row_taken_def next_row_def x)
  moreover have "(current u y \<and> is_active (fst y) \<longrightarrow> current t y \<and> is_active (fst y)) \<and>
      (row_taken (pe_now env) adapter req u y \<longrightarrow> row_taken (pe_now env) adapter req t y)"
    if "pay_invoiceId (fst y) \<noteq> pay_invoiceId (fst x)" for y
  proof -
    have ne: "pay_invoiceId (fst y) \<noteq> pay_invoiceId p" using that x by simp
    from step show ?thesis
    proof
      assume "pipe_step req (pay_invoiceId p) u t"
      then show ?thesis
        using pipe_step_current [of req "pay_invoiceId p" u t y] pipe_step_frame(2) [of req "pay_invoiceId p" u t] ne
        by (simp add: row_taken_def)
    qed simp
  qed
  ultimately show "pipeline_inv req t \<and> row_taken (pe_now env) adapter req t x \<and>
      (\<forall>y. pay_invoiceId (fst y) \<noteq> pay_invoiceId (fst x) \<longrightarrow>
        (current u y \<and> is_active (fst y) \<longrightarrow> current t y \<and> is_active (fst y)) \<and>
        (row_taken (pe_now env) adapter req u y \<longrightarrow> row_taken (pe_now env) adapter req t y))" by blast
qed

lemma next_row_id: "pay_id (next_row now adapter req p) = pay_id p"
  by (simp add: next_row_def confirm_row_def write_defs split: option.split sum.split)

lemma map_by_key:
  assumes "map key us = map key ts" and "distinct (map key us)"
    and "\<And>t. t \<in> set ts \<Longrightarrow> g t \<in> set us" and "\<And>t. key (g t) = key t"
  shows "us = map g ts"
proof (rule nth_equalityI)
  show len: "length us = length (map g ts)" using assms(1) by (metis length_map)
  fix n
  assume n: "n < length us"
  then have "g (ts ! n) \<in> set us" using assms(3) len by simp
  moreover have "key (us ! n) = key (g (ts ! n))" using assms(1,4) n len by (metis length_map nth_map)
  ultimately show "us ! n = map g ts ! n" using distinct_key_eq [OF assms(2)] n len by simp
qed

text \<open>After the loop over the active payments, each row is what the pass makes of it, also the
  rows the loop did not visit.\<close>

lemma confirm_loop_rows:
  assumes inv: "pipeline_inv req t" and all: "fst ` set xs = set (filter is_active (payments t))"
    and taken: "\<forall>x \<in> set xs. row_taken now adapter req s' x"
    and others: "\<forall>y. pay_invoiceId (fst y) \<notin> (\<lambda>x. pay_invoiceId (fst x)) ` set xs \<longrightarrow>
      row_taken now adapter req t y \<longrightarrow> row_taken now adapter req s' y"
    and p: "p \<in> set (payments t)"
  shows "pays_of s' (pay_invoiceId p) = [next_row now adapter req p]"
proof (cases "is_active p")
  case True
  then have "p \<in> fst ` set xs" using p all by simp
  then obtain x where "x \<in> set xs" "fst x = p" by auto
  with taken show ?thesis by (auto simp: row_taken_def)
next
  case False
  obtain i where i: "inv_row t (pay_invoiceId p) = Some i" using pipeline_invD(4) [OF inv p] ..
  have "pay_invoiceId p \<notin> (\<lambda>x. pay_invoiceId (fst x)) ` set xs"
  proof
    assume "pay_invoiceId p \<in> (\<lambda>x. pay_invoiceId (fst x)) ` set xs"
    then obtain x where x: "x \<in> set xs" "pay_invoiceId (fst x) = pay_invoiceId p" by auto
    with all have "fst x \<in> set (payments t)" "is_active (fst x)" by auto
    with x(2) p False show False
      using distinct_key_eq [OF distinct_invoices_of_payments [OF inv]] by metis
  qed
  moreover have "row_taken now adapter req t (p, i)"
    using payment_single [OF inv p i] False by (simp add: row_taken_def next_row_def)
  ultimately have "row_taken now adapter req s' (p, i)" using others by simp
  then show ?thesis by (simp add: row_taken_def)
qed

lemma confirm_pass_rows:
  assumes inv: "pipeline_inv req s" and run: "runPaymentConfirm env adapter req s = (Inr (), s')"
  shows "payments s' = map (next_row (pe_now env) adapter req) (payments s)"
proof -
  obtain t where t: "expireOverdueInvoices env s = (Inr (), t)"
    and rest: "seq (\<lambda>s. (attach_invoices s (filter is_active (payments s)), s))
      (for_each (confirm_payment env adapter req)) t = (Inr (), s')"
    using run by (auto simp: runPaymentConfirm_def seq_eq_Inr)
  have invt: "pipeline_inv req t" using pass_okD(3) [OF expireOverdueInvoices_ok inv t] .
  obtain xs where xs: "attach_invoices t (filter is_active (payments t)) = Inr xs"
    "\<forall>x \<in> set xs. current t x \<and> is_active (fst x)" "distinct (map (\<lambda>x. pay_invoiceId (fst x)) xs)"
    by (rule active_snapshot [OF invt])
  have "map fst xs = filter is_active (payments t)"
    using attach_invoices_current [OF invt, of "filter is_active (payments t)"] xs(1) by auto
  from arg_cong [OF this, of set] have all: "fst ` set xs = set (filter is_active (payments t))" by simp
  have loop: "for_each (confirm_payment env adapter req) xs t = (Inr (), s')"
    using rest xs(1) by (simp add: seq_def)
  note finished = confirm_pass_loop [OF invt xs(2,3) loop]
  have "next_row (pe_now env) adapter req p \<in> set (payments s')" if "p \<in> set (payments t)" for p
  proof -
    have "next_row (pe_now env) adapter req p \<in> set (pays_of s' (pay_invoiceId p))"
      using confirm_loop_rows [OF invt all conjunct1 [OF conjunct2 [OF finished]] conjunct2 [OF conjunct2 [OF finished]] that]
      by simp
    then show ?thesis by (simp add: pays_of_def)
  qed
  moreover have "keeps (\<lambda>s. map pay_id (payments s) = map pay_id (payments t)) (for_each (confirm_payment env adapter req) xs)"
    by (intro hoare_rules confirm_ids)
  then have "map pay_id (payments s') = map pay_id (payments t)"
    using loop unfolding keeps_def by (metis snd_conv)
  ultimately have "payments s' = map (next_row (pe_now env) adapter req) (payments t)"
    using pipeline_invD(2) [of req s'] finished next_row_id by (intro map_by_key [where key = pay_id]) auto
  then show ?thesis using expire_payments [OF t] by simp
qed

section \<open>The pass returns\<close>

lemma expire_returns:
  assumes inv: "pipeline_inv req s"
    and inj: "inj_on (newId env ''evt'') (inv_id ` set (invoices s))"
    and free: "\<forall>i \<in> set (invoices s). event_id_free env (inv_id i) s"
  shows "\<exists>t. expireOverdueInvoices env s = (Inr (), t) \<and> pipeline_inv req t \<and>
    (\<forall>e \<in> set (events t). e \<in> set (events s) \<or>
       (\<exists>i \<in> set (overdue_invoices (pe_now env) s). evt_id e = newId env ''evt'' (inv_id i)))"
proof -
  let ?xs = "overdue_invoices (pe_now env) s"
  let ?snap = "\<lambda>u i. overdue_snapshot (pe_now env) u i \<and> event_id_free env (inv_id i) u"
  let ?I = "\<lambda>u. pipeline_inv req u \<and> (\<forall>e \<in> set (events u). e \<in> set (events s) \<or>
    (\<exists>i \<in> set ?xs. evt_id e = newId env ''evt'' (inv_id i)))"
  have mem: "i \<in> set (invoices s)" if "i \<in> set ?xs" for i
    using that by (simp add: overdue_invoices_def)
  have "\<exists>t. for_each (expire_invoice env) ?xs s = (Inr (), t) \<and> ?I t"
  proof (rule for_each_returns [where snap = ?snap and key = inv_id and I = ?I])
    fix i u
    assume i: "i \<in> set ?xs" and I: "?I u" and snap: "?snap u i"
    let ?e = "event_for env i ''invoice.expired'' Inv_EXPIRED None"
    let ?t = "touch (inv_id i) (inv_moves Inv_EXPIRED (pe_now env)) id [] [?e] u"
    have run: "expire_invoice env i u = (Inr (), ?t)"
      using snap expire_invoice_eq [of u i env] by (auto simp: overdue_snapshot_def event_id_free_def)
    have step: "pipe_step req (inv_id i) u ?t"
      using snap by (auto simp: overdue_snapshot_def intro: expire)
    have "?snap ?t y" if "y \<in> set ?xs" "inv_id y \<noteq> inv_id i" "?snap u y" for y
    proof -
      have "newId env ''evt'' (inv_id y) \<noteq> newId env ''evt'' (inv_id i)"
        using inj_onD [OF inj, of "inv_id y" "inv_id i"] that(2) mem [OF that(1)] mem [OF i] by auto
      with that show ?thesis
        using pipe_step_frame(1) [OF step, of "inv_id y"]
        by (auto simp: overdue_snapshot_def event_id_free_def)
    qed
    moreover have "?I ?t" using I i pipe_step_keeps_inv [OF step] by auto
    ultimately show "\<exists>t. expire_invoice env i u = (Inr (), t) \<and> ?I t \<and>
        (\<forall>y \<in> set ?xs. inv_id y \<noteq> inv_id i \<longrightarrow> ?snap u y \<longrightarrow> ?snap t y)"
      using run by blast
  next
    show "distinct (map inv_id ?xs)"
      using pipeline_invD(1) [OF inv] by (simp add: overdue_invoices_def distinct_map_filter)
    show "\<forall>i \<in> set ?xs. ?snap s i"
      using free by (auto simp: overdue_invoices_def overdue_snapshot_def inv_row_iff [OF inv])
    show "?I s" using inv by simp
  qed
  then show ?thesis by (simp add: expireOverdueInvoices_def seq_reads)
qed

lemma confirm_loop_returns:
  assumes inv: "pipeline_inv req s"
    and xs: "\<forall>x \<in> set xs. current s x \<and> is_active (fst x)" "distinct (map (\<lambda>x. pay_invoiceId (fst x)) xs)"
    and chain: "\<forall>x \<in> set xs. chain_answers adapter (fst x)"
    and inj: "inj_on (newId env ''evt'') ((\<lambda>x. pay_invoiceId (fst x)) ` set xs)"
    and free: "\<forall>x \<in> set xs. event_id_free env (pay_invoiceId (fst x)) s"
  shows "\<exists>s'. for_each (confirm_payment env adapter req) xs s = (Inr (), s') \<and> pipeline_inv req s'"
proof (rule for_each_returns [where key = "\<lambda>x. pay_invoiceId (fst x)" and I = "pipeline_inv req" and
      snap = "\<lambda>u x. current u x \<and> is_active (fst x) \<and> event_id_free env (pay_invoiceId (fst x)) u"])
  fix x :: "payment \<times> invoice" and u
  assume x: "x \<in> set xs" and I: "pipeline_inv req u"
    and snap: "current u x \<and> is_active (fst x) \<and> event_id_free env (pay_invoiceId (fst x)) u"
  obtain p i where p: "x = (p, i)" by (cases x)
  have cur: "current u (p, i)" "is_active p" "chain_answers adapter p"
    "event_id_free env (pay_invoiceId p) u"
    using snap chain x p by auto
  from confirm_payment_returns [OF I cur] obtain t where
    t: "confirm_payment env adapter req (p, i) u = (Inr (), t)" by blast
  have step: "t = u \<or> pipe_step req (pay_invoiceId p) u t"
    using confirm_payment_step [OF I cur(1,2) t] by simp
  have ev: "\<forall>e \<in> set (events t). e \<in> set (events u) \<or> evt_id e = newId env ''evt'' (pay_invoiceId p)"
    using confirm_payment_effect [OF I cur(1,2) t] by simp
  have "current t y \<and> is_active (fst y) \<and> event_id_free env (pay_invoiceId (fst y)) t"
    if y: "y \<in> set xs" "pay_invoiceId (fst y) \<noteq> pay_invoiceId p"
      "current u y \<and> is_active (fst y) \<and> event_id_free env (pay_invoiceId (fst y)) u" for y
  proof -
    have "newId env ''evt'' (pay_invoiceId (fst y)) \<noteq> newId env ''evt'' (pay_invoiceId (fst x))"
      using inj_onD [OF inj _ imageI [OF y(1)] imageI [OF x]] y(2) p by auto
    with ev y(3) p have "event_id_free env (pay_invoiceId (fst y)) t"
      by (auto simp: event_id_free_def)
    with y step show ?thesis using pipe_step_current by blast
  qed
  moreover have "pipeline_inv req t" using step I pipe_step_keeps_inv by blast
  ultimately show "\<exists>t. confirm_payment env adapter req x u = (Inr (), t) \<and> pipeline_inv req t \<and>
      (\<forall>y \<in> set xs. pay_invoiceId (fst y) \<noteq> pay_invoiceId (fst x) \<longrightarrow>
        current u y \<and> is_active (fst y) \<and> event_id_free env (pay_invoiceId (fst y)) u \<longrightarrow>
        current t y \<and> is_active (fst y) \<and> event_id_free env (pay_invoiceId (fst y)) t)"
    using t p by auto
qed (use assms in auto)

lemma confirm_pass_runs:
  assumes inv: "pipeline_inv req s"
    and chain: "\<forall>p \<in> set (payments s). is_active p \<longrightarrow> chain_answers adapter p"
    and inj: "inj_on (newId env ''evt'') (inv_id ` set (invoices s))"
    and free: "\<forall>i \<in> set (invoices s). event_id_free env (inv_id i) s"
  shows "\<exists>s'. runPaymentConfirm env adapter req s = (Inr (), s')"
proof -
  obtain t where t: "expireOverdueInvoices env s = (Inr (), t)" and invt: "pipeline_inv req t"
    and ev: "\<forall>e \<in> set (events t). e \<in> set (events s) \<or>
       (\<exists>i \<in> set (overdue_invoices (pe_now env) s). evt_id e = newId env ''evt'' (inv_id i))"
    using expire_returns [OF inv inj free] by blast
  have pt: "payments t = payments s" by (rule expire_payments [OF t])
  obtain xs where xs: "attach_invoices t (filter is_active (payments t)) = Inr xs"
    "\<forall>x \<in> set xs. current t x \<and> is_active (fst x)" "distinct (map (\<lambda>x. pay_invoiceId (fst x)) xs)"
    by (rule active_snapshot [OF invt])
  have pays: "fst x \<in> set (payments s)" if "x \<in> set xs" for x
    using xs(2) that pt by (auto simp: current_def)
  have keys: "\<exists>j \<in> set (invoices s). inv_id j = pay_invoiceId (fst x) \<and> inv_status j \<noteq> Inv_PENDING"
    if x: "x \<in> set xs" for x
  proof -
    obtain j where j: "inv_row s (pay_invoiceId (fst x)) = Some j"
      using pipeline_invD(4) [OF inv pays [OF x]] ..
    have "inv_status j \<noteq> Inv_PENDING"
      using pending_no_payments [OF inv j] payment_single [OF inv pays [OF x] j] by auto
    with inv_rowD [OF j] show ?thesis by blast
  qed
  have "event_id_free env (pay_invoiceId (fst x)) t" if x: "x \<in> set xs" for x
  proof -
    obtain j where j: "j \<in> set (invoices s)" "inv_id j = pay_invoiceId (fst x)" "inv_status j \<noteq> Inv_PENDING"
      using keys [OF x] by blast
    have "evt_id e \<noteq> newId env ''evt'' (inv_id j)" if "e \<in> set (events t)" for e
    proof (cases "e \<in> set (events s)")
      case True
      with free j show ?thesis by (auto simp: event_id_free_def)
    next
      case False
      with ev that obtain i where i: "i \<in> set (invoices s)" "inv_status i = Inv_PENDING"
        "evt_id e = newId env ''evt'' (inv_id i)" by (auto simp: overdue_invoices_def)
      have "inv_id i \<noteq> inv_id j"
        using distinct_key_eq [OF pipeline_invD(1) [OF inv] i(1) j(1)] i(2) j(3) by auto
      with i(3) inj_onD [OF inj _ imageI [OF i(1)] imageI [OF j(1)]] show ?thesis by auto
    qed
    then show ?thesis by (simp add: event_id_free_def j(2))
  qed
  moreover have "inj_on (newId env ''evt'') ((\<lambda>x. pay_invoiceId (fst x)) ` set xs)"
    by (rule inj_on_subset [OF inj]) (use keys in \<open>force\<close>)
  moreover have "\<forall>x \<in> set xs. chain_answers adapter (fst x)" using chain pays xs(2) by blast
  ultimately obtain s' where "for_each (confirm_payment env adapter req) xs t = (Inr (), s')"
    using confirm_loop_returns [OF invt xs(2,3)] by blast
  then show ?thesis using t xs(1) by (auto simp: runPaymentConfirm_def seq_def)
qed

section \<open>Properties\<close>

text \<open>C4. The confirmation pass, row by row: from a reachable store, a pass that returns has
  replaced every active payment by \<open>confirm_row\<close> of it and left all the others as they were.\<close>

theorem confirm_pass_functional:
  assumes "reachable req s" and "runPaymentConfirm env adapter req s = (Inr (), s')"
  shows "payments s' = map (next_row (pe_now env) adapter req) (payments s)"
  using confirm_pass_rows [OF reachable_inv [OF assms(1)] assms(2)] .

lemma sample_now: "pe_now sample_env = 1000000"
  by (simp add: sample_env_def)

lemma sample_confirm_pass:
  "runPaymentConfirm sample_env sample_adapter 2 sample_confirming = (Inr (), sample_paid)"
proof -
  have "\<exists>s'. runPaymentConfirm sample_env sample_adapter 2 sample_confirming = (Inr (), s')"
    by (rule confirm_pass_runs [OF reachable_inv [OF sample_reachable(3)]])
      (simp_all add: sample_confirming_rows chain_answers_def sample_adapter_def event_id_free_def)
  then show ?thesis unfolding sample_paid_def by auto
qed

theorem confirm_pass_functional_witness:
  "payments sample_paid = map (next_row 1000000 sample_adapter 2) (payments sample_confirming)"
  using confirm_pass_functional [OF sample_reachable(3) sample_confirm_pass] by (simp add: sample_env_def)

text \<open>C5. The confirmation pass makes progress: from a reachable store, when the chain answers
  for every active payment (with a count or with NotFoundError) and the generated event ids
  are new and different from each other, the pass returns, and every payment that was
  CONFIRMING with enough confirmations is then CONFIRMED, UNDERPAID or OVERPAID according to
  its amount.\<close>

theorem confirm_pass_settles:
  assumes "reachable req s"
    and "\<forall>p \<in> set (payments s). is_active p \<longrightarrow> chain_answers adapter p"
    and "inj_on (newId env ''evt'') (inv_id ` set (invoices s))"
    and "\<forall>i \<in> set (invoices s). event_id_free env (inv_id i) s"
  shows "\<exists>s'. runPaymentConfirm env adapter req s = (Inr (), s') \<and>
    (\<forall>p \<in> set (payments s). \<forall>h c. pay_status p = Pay_CONFIRMING \<and> pay_txHash p = Some h \<and> h \<noteq> [] \<and>
       getConfirmations adapter h = Inr c \<and> req \<le> c \<longrightarrow>
       (\<exists>q \<in> set (payments s'). pay_id q = pay_id p \<and>
          pay_status q = final_payment_status (payment_outcome p)))"
proof -
  obtain s' where s': "runPaymentConfirm env adapter req s = (Inr (), s')"
    using confirm_pass_runs [OF reachable_inv [OF assms(1)] assms(2-4)] by blast
  have rows: "payments s' = map (next_row (pe_now env) adapter req) (payments s)"
    by (rule confirm_pass_rows [OF reachable_inv [OF assms(1)] s'])
  have "\<exists>q \<in> set (payments s'). pay_id q = pay_id p \<and> pay_status q = final_payment_status (payment_outcome p)"
    if p: "p \<in> set (payments s)" "pay_status p = Pay_CONFIRMING" "pay_txHash p = Some h" "h \<noteq> []"
      "getConfirmations adapter h = Inr c" "req \<le> c" for p h c
  proof
    show "next_row (pe_now env) adapter req p \<in> set (payments s')" using p(1) rows by simp
    show "pay_id (next_row (pe_now env) adapter req p) = pay_id p \<and>
        pay_status (next_row (pe_now env) adapter req p) = final_payment_status (payment_outcome p)"
      using p by (simp add: next_row_def is_active_def confirm_row_def pay_finalized_def)
  qed
  with s' show ?thesis by blast
qed

theorem confirm_pass_settles_witness:
  "\<exists>s'. runPaymentConfirm sample_env sample_adapter 2 sample_confirming = (Inr (), s') \<and>
     (\<exists>q \<in> set (payments s'). pay_status q = Pay_CONFIRMED)"
proof -
  have out: "payment_outcome (pay_confirming 3 1000000 sample_payment) = Exact"
    by (simp add: payment_outcome_def pay_confirming_def evaluatePaymentAmount_cases)
  have "\<exists>s'. runPaymentConfirm sample_env sample_adapter 2 sample_confirming = (Inr (), s') \<and>
    (\<forall>p \<in> set (payments sample_confirming). \<forall>h c. pay_status p = Pay_CONFIRMING \<and> pay_txHash p = Some h \<and> h \<noteq> [] \<and>
       getConfirmations sample_adapter h = Inr c \<and> 2 \<le> c \<longrightarrow>
       (\<exists>q \<in> set (payments s'). pay_id q = pay_id p \<and>
          pay_status q = final_payment_status (payment_outcome p)))"
    by (rule confirm_pass_settles [OF sample_reachable(3)])
      (simp_all add: sample_confirming_rows chain_answers_def sample_adapter_def event_id_free_def)
  then show ?thesis
    using out by (auto simp: sample_confirming_rows sample_adapter_def pay_confirming_def)
qed

text \<open>C10. A vanished transaction gets its grace period: when a pass that returns has moved a
  payment to FAILED, the chain did not know its transaction, and the payment either was
  still DETECTED or had been REORG_DETECTED, unchanged, for at least ten minutes. A
  CONFIRMING payment is never failed by one pass: it becomes REORG_DETECTED first.\<close>

theorem failed_only_after_grace:
  assumes "reachable req s" and "runPaymentConfirm env adapter req s = (Inr (), s')"
    and "p \<in> set (payments s)" and "q \<in> set (payments s')" and "pay_id q = pay_id p"
    and "pay_status q = Pay_FAILED" and "pay_status p \<noteq> Pay_FAILED"
  shows "(\<exists>h e. pay_txHash p = Some h \<and> getConfirmations adapter h = Inl e) \<and>
    (pay_status p = Pay_DETECTED \<or>
     pay_status p = Pay_REORG_DETECTED \<and> 600000 \<le> pe_now env - pay_updatedAt p)"
proof -
  note inv = reachable_inv [OF assms(1)]
  have rows: "payments s' = map (next_row (pe_now env) adapter req) (payments s)"
    by (rule confirm_pass_rows [OF inv assms(2)])
  have "pipeline_inv req s'" by (rule pass_okD(3) [OF runPaymentConfirm_ok inv assms(2)])
  moreover have "next_row (pe_now env) adapter req p \<in> set (payments s')" using assms(3) rows by simp
  moreover have "pay_id q = pay_id (next_row (pe_now env) adapter req p)" using assms(5) by (simp add: next_row_id)
  ultimately have "q = next_row (pe_now env) adapter req p"
    using distinct_key_eq [OF pipeline_invD(2)] assms(4) by metis
  with assms(6,7) show ?thesis
    by (cases "payment_outcome p")
      (auto simp: next_row_def is_active_def confirm_row_def write_defs REORG_GRACE_MS_def
        split: if_splits option.splits sum.splits)
qed

definition missing_adapter :: chain_adapter where
  "missing_adapter = sample_adapter\<lparr>getConfirmations := (\<lambda>_. Inl (AppThrown (not_found_error ''gone'')))\<rparr>"

theorem failed_only_after_grace_witness:
  "\<exists>s'. runPaymentConfirm sample_env missing_adapter 2 sample_detected = (Inr (), s') \<and>
     pay_status sample_payment = Pay_DETECTED"
proof -
  have "\<exists>s'. runPaymentConfirm sample_env missing_adapter 2 sample_detected = (Inr (), s')"
    by (rule confirm_pass_runs [OF reachable_inv [OF sample_reachable(2)]])
      (simp_all add: sample_detected_rows chain_answers_def missing_adapter_def event_id_free_def
        is_NotFoundError_def not_found_error_def mk_error_def)
  then obtain s' where s': "runPaymentConfirm sample_env missing_adapter 2 sample_detected = (Inr (), s')" ..
  have "payments s' = [pay_moves Pay_FAILED 1000000 sample_payment]"
    using confirm_pass_rows [OF reachable_inv [OF sample_reachable(2)] s']
    by (simp add: sample_detected_rows [folded sample_payment_def] next_row_def is_active_def
        confirm_row_def missing_adapter_def sample_now)
  then have "pay_status sample_payment = Pay_DETECTED \<or>
     pay_status sample_payment = Pay_REORG_DETECTED \<and> 600000 \<le> pe_now sample_env - pay_updatedAt sample_payment"
    using failed_only_after_grace [OF sample_reachable(2) s', of sample_payment
        "pay_moves Pay_FAILED 1000000 sample_payment"]
    by (simp add: sample_detected_rows [folded sample_payment_def] pay_moves_def)
  with s' show ?thesis by auto
qed

end
