(* ===== verification/Interleaving.thy ===== *)
theory Interleaving
  imports Confirm_Progress
begin

text \<open>
  Two passes that overlap. The worker runs the scanner and the confirmation pass as two
  queues of one process, and each awaits the database between its reads and its writes. The
  writes carry no condition on the status that was read, so a write of one pass can land on
  a row the other has moved on. The store this leads to is outside the pipeline's invariant,
  and the confirmation pass cannot get past it.
\<close>

text \<open>C35. An expiry decided on a stale read wins over a detection: when the confirmation pass
  has read an overdue PENDING invoice, and the scanner then records a payment for it before
  the expiry is written, the invoice ends EXPIRED with a DETECTED payment and an
  \<open>invoice.expired\<close> event. From there the payment's confirmation step throws an invalid
  state transition in every pass that sees the transaction, and leaves the store as it is.\<close>

theorem stale_expiry_strands_payment:
  assumes "pipeline_inv req s" and "i \<in> set (overdue_invoices (pe_now env) s)"
    and "tryMatchTransfer env' t s = (Inr (), u)" and "u = detect env' t i s"
    and "event_id_free env (inv_id i) u"
    and "tr_txHash t \<noteq> []" and "getConfirmations adapter (tr_txHash t) = Inr c"
  shows "\<exists>w j e. expire_invoice env i u = (Inr (), w) \<and> inv_row w (inv_id i) = Some j \<and>
    inv_status j = Inv_EXPIRED \<and> pays_of w (inv_id i) = [detected_payment env' t i] \<and>
    \<not> pipeline_inv req w \<and> ae_class e = InvalidStateTransitionError \<and>
    confirm_payment env'' adapter req (detected_payment env' t i, j) w = (Inl (AppThrown e), w)"
proof -
  let ?p = "detected_payment env' t i"
  let ?w = "touch (inv_id i) (inv_moves Inv_EXPIRED (pe_now env)) id []
    [event_for env i ''invoice.expired'' Inv_EXPIRED None] u"
  let ?j = "inv_moves Inv_EXPIRED (pe_now env) (inv_moves Inv_DETECTED (pe_now env') i)"
  have i: "inv_row s (inv_id i) = Some i" "inv_status i = Inv_PENDING"
    using assms(1,2) by (auto simp: overdue_invoices_def inv_row_iff)
  have p: "pay_invoiceId ?p = inv_id i" "pay_status ?p = Pay_DETECTED" "pay_txHash ?p = Some (tr_txHash t)"
    by (simp_all add: detected_payment_def)
  have row: "inv_row u (inv_id i) = Some (inv_moves Inv_DETECTED (pe_now env') i)"
    and pays: "pays_of u (inv_id i) = [?p]"
    using i(1) p(1) pending_no_payments [OF assms(1) i]
    by (simp_all add: assms(4) detect_touch touch_views)
  have "list_ex (\<lambda>r. inv_id r = inv_id i) (invoices u)"
    using inv_rowD [OF row] by (auto simp: list_ex_iff)
  then have run: "expire_invoice env i u = (Inr (), ?w)"
    using assms(5)
    by (auto simp: expire_invoice_def transaction_def update_invoice_def update_row_def
        createWebhookEvent_def create_event_def create_row_def list_ex_iff eff_defs touch_def event_id_free_def)
  have w: "inv_row ?w (inv_id i) = Some ?j" "pays_of ?w (inv_id i) = [?p]"
    using row pays by (simp_all add: touch_views)
  have status: "inv_status ?j = Inv_EXPIRED" by (simp add: inv_moves_def del: write_folds)
  have "\<not> pipeline_inv req ?w"
    using payment_single_ok(1) [OF _ w] status p(2) by auto
  moreover have "\<exists>e. ae_class e = InvalidStateTransitionError \<and>
      confirm_payment env'' adapter req (?p, ?j) ?w = (Inl (AppThrown e), ?w)"
    using assms(6,7) p status
    by (simp add: confirm_payment_def moveToConfirming_def assertInvoiceTransition_def
        canTransitionInvoice_def error_defs throw_def)
  ultimately show ?thesis using run w status by blast
qed

definition late_env :: pass_env where
  "late_env = sample_env\<lparr>pe_now := 3000000\<rparr>"

theorem stale_expiry_strands_payment_witness:
  "\<exists>w j e. expire_invoice late_env sample_invoice
      (detect sample_env sample_transfer sample_invoice sample_created) = (Inr (), w) \<and>
    inv_row w (inv_id sample_invoice) = Some j \<and> inv_status j = Inv_EXPIRED \<and> \<not> pipeline_inv 2 w \<and>
    confirm_payment late_env sample_adapter 2 (detected_payment sample_env sample_transfer sample_invoice, j) w =
      (Inl (AppThrown e), w)"
proof -
  have sel: "pending_candidates sample_transfer sample_created = [sample_invoice]"
    by (simp add: pending_candidates_def sample_transfer_def sample_created_rows)
  have m: "selectMatchingInvoice [sample_invoice] sample_transfer = Some sample_invoice"
    by (simp add: selectMatchingInvoice_def matchesInvoice_def sample_transfer_def Let_def)
  have "tryMatchTransfer sample_env sample_transfer sample_created =
      (Inr (), detect sample_env sample_transfer sample_invoice sample_created)"
    by (simp add: tryMatchTransfer_eq sel m payment_of_tx_def sample_created_rows)
  moreover have "sample_invoice \<in> set (overdue_invoices (pe_now late_env) sample_created)"
    by (simp add: overdue_invoices_def sample_created_rows late_env_def)
  ultimately show ?thesis
    using stale_expiry_strands_payment [OF reachable_inv [OF sample_reachable(1)], of sample_invoice late_env
        sample_env sample_transfer "detect sample_env sample_transfer sample_invoice sample_created"
        sample_adapter 3 late_env]
    by (auto simp: event_id_free_def detect_def sample_created_rows sample_adapter_def sample_transfer_def)
qed

text \<open>The scanner looks for invoices by the exact spelling of the address: a transfer
  whose destination is spelled differently (in letter case, say) from the stored address of
  every pending invoice changes nothing, although \<open>matchesInvoice\<close> ignores letter case.\<close>

theorem scanner_needs_exact_address:
  assumes "\<forall>i \<in> set (invoices s). inv_status i = Inv_PENDING \<longrightarrow> inv_paymentAddress i \<noteq> tr_toAddress t"
  shows "tryMatchTransfer env t s = (Inr (), s)"
proof -
  have "pending_candidates t s = []"
    using assms by (auto simp: pending_candidates_def filter_empty_conv)
  then show ?thesis by (simp add: tryMatchTransfer_eq)
qed

definition lower_case_invoice :: invoice where
  "lower_case_invoice = sample_invoice\<lparr>inv_paymentAddress := ''0xab''\<rparr>"

definition checksummed_transfer :: token_transfer where
  "checksummed_transfer = sample_transfer\<lparr>tr_toAddress := ''0xAb''\<rparr>"

theorem scanner_needs_exact_address_witness:
  "matchesInvoice lower_case_invoice checksummed_transfer \<and>
   tryMatchTransfer sample_env checksummed_transfer (empty_store\<lparr>invoices := [lower_case_invoice]\<rparr>) =
     (Inr (), empty_store\<lparr>invoices := [lower_case_invoice]\<rparr>)"
proof
  have "to_lower ''0xab'' = to_lower ''0xAb''" by code_simp
  then show "matchesInvoice lower_case_invoice checksummed_transfer"
    by (simp add: matchesInvoice_def lower_case_invoice_def checksummed_transfer_def sample_transfer_def)
  show "tryMatchTransfer sample_env checksummed_transfer (empty_store\<lparr>invoices := [lower_case_invoice]\<rparr>) =
     (Inr (), empty_store\<lparr>invoices := [lower_case_invoice]\<rparr>)"
    by (rule scanner_needs_exact_address) (simp add: lower_case_invoice_def checksummed_transfer_def)
qed

end
