(* ===== verification/Frames.thy ===== *)
theory Frames
  imports Store
begin

text \<open>
  What an operation leaves as it was, or moves in one direction only, whether it returns or
  throws: a reflexive and transitive relation between the states before and after. The locale
  derives the relation of a composed operation from those of its parts.
\<close>

definition obeys :: "('s \<Rightarrow> 's \<Rightarrow> bool) \<Rightarrow> ('s, 'e, 'a) eff \<Rightarrow> bool" where
  "obeys R m \<longleftrightarrow> (\<forall>s. R s (snd (m s)))"

lemma obeysD: "obeys R m \<Longrightarrow> m s = (r, t) \<Longrightarrow> R s t"
  unfolding obeys_def by (metis snd_conv)

lemma obeys_mono: "obeys R m \<Longrightarrow> (\<And>s t. R s t \<Longrightarrow> Q s t) \<Longrightarrow> obeys Q m"
  by (simp add: obeys_def)

locale state_order =
  fixes R :: "'s \<Rightarrow> 's \<Rightarrow> bool"
  assumes R_refl: "R s s" and R_trans: "R s t \<Longrightarrow> R t u \<Longrightarrow> R s u"
begin

lemma no_write:
  "obeys R (ret x)" "obeys R (throw e)" "obeys R (reads f)" "obeys R (lift r)"
  "obeys R (\<lambda>s. (g s, s))"
  by (simp_all add: obeys_def eff_defs R_refl)

lemma writes: "(\<And>s. R s (f s)) \<Longrightarrow> obeys R (modify f)"
  by (simp add: obeys_def modify_def)

lemma in_sequence:
  assumes "obeys R m" and "\<And>x. obeys R (g x)"
  shows "obeys R (seq m g)"
  unfolding obeys_def
proof
  fix s
  obtain r t where m: "m s = (r, t)" by fastforce
  then have "R s t" by (rule obeysD [OF assms(1)])
  moreover have "R t (snd (g x t))" for x using assms(2) by (simp add: obeys_def)
  ultimately show "R s (snd (seq m g s))" using m by (cases r) (auto simp: seq_def intro: R_trans)
qed

lemma after_read: "(\<And>s. R s (snd (g (f s) s))) \<Longrightarrow> obeys R (seq (reads f) g)"
  by (simp add: obeys_def seq_reads)

lemma tried:
  assumes "obeys R m" and "\<And>e. obeys R (h e)"
  shows "obeys R (attempt m h)"
  unfolding obeys_def
proof
  fix s
  obtain r t where m: "m s = (r, t)" by fastforce
  then have "R s t" by (rule obeysD [OF assms(1)])
  moreover have "R t (snd (h e t))" for e using assms(2) by (simp add: obeys_def)
  ultimately show "R s (snd (attempt m h s))" using m by (cases r) (auto simp: attempt_def intro: R_trans)
qed

lemma ensured:
  assumes "obeys R m" and "\<And>s. R s (f s)"
  shows "obeys R (ensuring m f)"
  unfolding obeys_def
proof
  fix s
  obtain r t where m: "m s = (r, t)" by fastforce
  then have "R s t" by (rule obeysD [OF assms(1)])
  then show "R s (snd (ensuring m f s))" using m assms(2) by (auto simp: ensuring_def intro: R_trans)
qed

lemma looped: "(\<And>x. x \<in> set xs \<Longrightarrow> obeys R (f x)) \<Longrightarrow> obeys R (for_each f xs)"
  by (induction xs) (simp_all add: no_write in_sequence)

lemma transacted:
  assumes "\<And>m. m \<in> set ops \<Longrightarrow> obeys R m"
  shows "obeys R (transaction ops)"
  unfolding obeys_def
proof
  fix s
  obtain r t where m: "for_each (\<lambda>m. m) ops s = (r, t)" by fastforce
  have "obeys R (for_each (\<lambda>m. m) ops)" by (rule looped) (rule assms)
  then have "R s t" using m by (rule obeysD)
  then show "R s (snd (transaction ops s))" using m by (cases r) (auto simp: transaction_def R_refl)
qed

lemma created: "(\<And>s. R s (upd (\<lambda>t. t @ [r]) s)) \<Longrightarrow> obeys R (create_row rows upd clash r)"
  by (simp add: obeys_def create_row_def R_refl)

lemma updated: "(\<And>s. R s (upd (update_rows p f) s)) \<Longrightarrow> obeys R (update_row rows upd p f)"
  by (simp add: obeys_def update_row_def R_refl)

lemma updated_many: "(\<And>s. R s (upd (update_rows p f) s)) \<Longrightarrow> obeys R (update_many upd p f)"
  by (simp add: obeys_def update_many_def)

lemmas composed = no_write writes in_sequence tried ensured looped transacted created updated updated_many

end

section \<open>Operations beside payments and webhooks\<close>

text \<open>Everything but the tables of the payment pipeline and of the webhook queues may change.\<close>

definition beside :: "store \<Rightarrow> store \<Rightarrow> bool" where
  "beside s t \<longleftrightarrow> invoices t = invoices s \<and> payments t = payments s \<and> events t = events s \<and>
     endpoints t = endpoints s \<and> deliveries t = deliveries s"

interpretation beside: state_order beside
  by unfold_locales (simp_all add: beside_def)

text \<open>The books of the payment pipeline alone.\<close>

definition books :: "store \<Rightarrow> store \<Rightarrow> bool" where
  "books s t \<longleftrightarrow> invoices t = invoices s \<and> payments t = payments s \<and> events t = events s"

interpretation books: state_order books
  by unfold_locales (simp_all add: books_def)

section \<open>Operations that only add to what webhooks are made of\<close>

text \<open>Events and endpoints are never removed, an event never changes, an endpoint keeps its
  organization, URL and secret, identifiers stay unique, and deliveries are left alone.\<close>

definition endpoint_key :: "webhook_endpoint \<Rightarrow> ident \<times> ident \<times> string \<times> string" where
  "endpoint_key p = (we_id p, we_organizationId p, we_url p, we_secretEnc p)"

definition ids_distinct :: "'z store_scheme \<Rightarrow> bool" where
  "ids_distinct s \<longleftrightarrow> distinct (map evt_id (events s)) \<and> distinct (map we_id (endpoints s))"

definition grows :: "store \<Rightarrow> store \<Rightarrow> bool" where
  "grows s t \<longleftrightarrow> (\<exists>es. events t = events s @ es) \<and>
     (\<exists>ks. map endpoint_key (endpoints t) = map endpoint_key (endpoints s) @ ks) \<and>
     (ids_distinct s \<longrightarrow> ids_distinct t) \<and> deliveries t = deliveries s"

interpretation grow: state_order grows
  by unfold_locales (auto simp: grows_def)

lemma beside_grows: "beside s t \<Longrightarrow> grows s t"
  by (simp add: beside_def grows_def ids_distinct_def)

lemma create_event_grows: "obeys grows (create_event r)"
  by (auto simp: obeys_def create_event_def create_row_def grows_def ids_distinct_def list_ex_iff)

lemma create_endpoint_row_grows:
  "obeys grows (create_row endpoints endpoints_update (\<lambda>r s. we_id r = we_id s) p)"
  by (auto simp: obeys_def create_row_def grows_def ids_distinct_def list_ex_iff)

lemma update_endpoint_row_grows:
  assumes "\<And>r. endpoint_key (f r) = endpoint_key r"
  shows "obeys grows (update_row endpoints endpoints_update p f)"
proof -
  have keys: "map endpoint_key (update_rows p f rs) = map endpoint_key rs" for rs
    using assms by (simp add: update_rows_def)
  moreover have "map we_id rs = map fst (map endpoint_key rs)" for rs by (simp add: endpoint_key_def)
  ultimately have "map we_id (update_rows p f rs) = map we_id rs" for rs by metis
  then show ?thesis using keys by (simp add: obeys_def update_row_def grows_def ids_distinct_def)
qed

lemma other_row_grows:
  "obeys grows (update_row invoices invoices_update p1 f1)"
  "obeys grows (update_row payments payments_update p2 f2)"
  "obeys grows (create_row invoices invoices_update c1 r1)"
  "obeys grows (create_row payments payments_update c2 r2)"
  "obeys grows (update_row cursors cursors_update p3 f3)"
  "obeys grows (create_row cursors cursors_update c3 r3)"
  "obeys grows (create_row wallets wallets_update c4 r4)"
  by (simp_all add: obeys_def update_row_def create_row_def grows_def ids_distinct_def)

lemmas grow_steps = grow.composed(1-5) grow.in_sequence grow.tried grow.looped grow.transacted
  create_event_grows create_endpoint_row_grows update_endpoint_row_grows other_row_grows

end
