(* ===== verification/Crypto.thy ===== *)
theory Crypto
  imports App_Errors Shared_Ids
begin

text \<open>
  \<open>packages/crypto\<close>: hexadecimal comparison (\<open>hmac.ts\<close>), API keys (\<open>api-key.ts\<close>),
  webhook secrets (\<open>webhook-secret.ts\<close>) and field encryption (\<open>encryption.ts\<close>). The
  HMAC and the AES-GCM cipher are parameters; Node's hex and base64 codecs are modelled. A
  byte string is a list of numbers below 256; plaintext is ASCII.
\<close>

section \<open>Node's hex codec\<close>

definition hex_value :: "char \<Rightarrow> nat option" where
  "hex_value c =
     (let n = (of_char c :: nat)
      in if 48 \<le> n \<and> n \<le> 57 then Some (n - 48)
         else if 97 \<le> n \<and> n \<le> 102 then Some (n - 87)
         else if 65 \<le> n \<and> n \<le> 70 then Some (n - 55)
         else None)"

text \<open>\<open>Buffer.from(s, 'hex')\<close>: decoding stops at the first pair that is not two hex digits;
  nothing is thrown.\<close>

fun hex_decode :: "string \<Rightarrow> nat list" where
  "hex_decode (c # d # s) =
     (case (hex_value c, hex_value d) of
        (Some x, Some y) \<Rightarrow> (16 * x + y) # hex_decode s
      | _ \<Rightarrow> [])"
| "hex_decode s = []"

lemma hex_value_digit: "n < 16 \<Longrightarrow> hex_value (hex_digit n) = Some n"
proof -
  have "list_all (\<lambda>n. hex_value (hex_digit n) = Some n) [0..<16]" by code_simp
  then show "n < 16 \<Longrightarrow> hex_value (hex_digit n) = Some n" by (auto simp: list_all_iff)
qed

lemma hex_digit_mod: "hex_digit n = hex_digit (n mod 16)"
  by (simp add: hex_digit_def)

lemma hex_decode_encode:
  "list_all (\<lambda>b. b < 256) bs \<Longrightarrow> hex_decode (hex_encode bs) = bs"
proof (induction bs)
  case Nil
  then show ?case by (simp add: hex_encode_def)
next
  case (Cons b bs)
  have "b div 16 < 16" using Cons.prems by (auto simp: less_mult_imp_div_less)
  then have "hex_value (hex_digit (b div 16)) = Some (b div 16)" "hex_value (hex_digit b) = Some (b mod 16)"
    using hex_value_digit [of "b mod 16"] hex_digit_mod [of b] by (simp_all add: hex_value_digit)
  with Cons show ?case by (simp add: hex_encode_def)
qed

text \<open>\<open>timingSafeEqual\<close> on buffers of equal length is equality.\<close>

definition safeEqualHex :: "string \<Rightarrow> string \<Rightarrow> bool" where
  "safeEqualHex aHex bHex =
     (let a = hex_decode aHex; b = hex_decode bHex
      in if length a \<noteq> length b then False else a = b)"

lemma safeEqualHex_iff: "safeEqualHex a b \<longleftrightarrow> hex_decode a = hex_decode b"
  by (auto simp: safeEqualHex_def Let_def)

section \<open>HMAC\<close>

text \<open>\<open>hmac secret payload\<close> is the digest, as bytes.\<close>

type_synonym hmac = "string \<Rightarrow> string \<Rightarrow> nat list"

definition signHmacSha256 :: "hmac \<Rightarrow> string \<Rightarrow> string \<Rightarrow> string" where
  "signHmacSha256 hmac payload secret = hex_encode (hmac secret payload)"

definition verifyHmacSha256 :: "hmac \<Rightarrow> string \<Rightarrow> string \<Rightarrow> string \<Rightarrow> bool" where
  "verifyHmacSha256 hmac payload secret signatureHex =
     safeEqualHex (signHmacSha256 hmac payload secret) signatureHex"

text \<open>Documented of SHA-256: the digest is 32 bytes.\<close>

definition hmac_documented :: "hmac \<Rightarrow> bool" where
  "hmac_documented hmac \<longleftrightarrow>
     (\<forall>secret payload. length (hmac secret payload) = 32 \<and> list_all (\<lambda>b. b < 256) (hmac secret payload))"

lemma verifyHmacSha256_iff:
  "hmac_documented hmac \<Longrightarrow>
   verifyHmacSha256 hmac payload secret sig \<longleftrightarrow> hex_decode sig = hmac secret payload"
  by (auto simp: verifyHmacSha256_def safeEqualHex_iff signHmacSha256_def hex_decode_encode hmac_documented_def)

section \<open>Base64\<close>

definition b64_char :: "nat \<Rightarrow> char" where
  "b64_char n =
     (if n < 26 then char_of (n + 65) else if n < 52 then char_of (n + 71)
      else if n < 62 then char_of (n - 4) else if n = 62 then CHR ''+'' else CHR ''/'')"

definition b64url_char :: "nat \<Rightarrow> char" where
  "b64url_char n = (if n = 62 then CHR ''-'' else if n = 63 then CHR ''_'' else b64_char n)"

text \<open>The decoder accepts both alphabets and skips every other character.\<close>

definition b64_value :: "char \<Rightarrow> nat option" where
  "b64_value c =
     (let n = (of_char c :: nat)
      in if 65 \<le> n \<and> n \<le> 90 then Some (n - 65)
         else if 97 \<le> n \<and> n \<le> 122 then Some (n - 71)
         else if 48 \<le> n \<and> n \<le> 57 then Some (n + 4)
         else if c = CHR ''+'' \<or> c = CHR ''-'' then Some 62
         else if c = CHR ''/'' \<or> c = CHR ''_'' then Some 63
         else None)"

fun sextets :: "nat list \<Rightarrow> nat list" where
  "sextets [] = []"
| "sextets [a] = [a div 4, (a mod 4) * 16]"
| "sextets [a, b] = [a div 4, (a mod 4) * 16 + b div 16, (b mod 16) * 4]"
| "sextets (a # b # c # bs) =
     [a div 4, (a mod 4) * 16 + b div 16, (b mod 16) * 4 + c div 64, c mod 64] @ sextets bs"

fun octets :: "nat list \<Rightarrow> nat list" where
  "octets (p # q # r # s # ss) =
     [p * 4 + q div 16, (q mod 16) * 16 + r div 4, (r mod 4) * 64 + s] @ octets ss"
| "octets [p, q, r] = [p * 4 + q div 16, (q mod 16) * 16 + r div 4]"
| "octets [p, q] = [p * 4 + q div 16]"
| "octets _ = []"

definition base64_encode :: "nat list \<Rightarrow> string" where
  "base64_encode bs =
     map b64_char (sextets bs) @ replicate ((3 - length bs mod 3) mod 3) (CHR ''='')"

definition base64url_encode :: "nat list \<Rightarrow> string" where
  "base64url_encode bs = map b64url_char (sextets bs)"

definition base64_decode :: "string \<Rightarrow> nat list" where
  "base64_decode s = octets (map the (filter (\<lambda>v. v \<noteq> None) (map b64_value s)))"

lemma join_digits:
  fixes x y :: nat
  shows "y < 16 \<Longrightarrow> (x * 16 + y) div 16 = x" "y < 16 \<Longrightarrow> (x * 16 + y) mod 16 = y"
    "y < 4 \<Longrightarrow> (x * 4 + y) div 4 = x" "y < 4 \<Longrightarrow> (x * 4 + y) mod 4 = y"
    "x * 16 div 16 = x" "x * 4 div 4 = x"
  by simp_all

lemma byte_parts:
  fixes b :: nat
  assumes "b < 256"
  shows "b div 4 < 64" "b div 16 < 16" "b div 64 < 4"
  using assms by (simp_all add: less_mult_imp_div_less)

lemma sextet_sums:
  fixes a b c :: nat
  shows "b < 256 \<Longrightarrow> a div 4 * 4 + (a mod 4 * 16 + b div 16) div 16 = a"
    and "a div 4 * 4 + a mod 4 * 16 div 16 = a"
    and "b < 256 \<Longrightarrow> c < 256 \<Longrightarrow> (a mod 4 * 16 + b div 16) mod 16 * 16 + (b mod 16 * 4 + c div 64) div 4 = b"
    and "b < 256 \<Longrightarrow> (a mod 4 * 16 + b div 16) mod 16 * 16 + b mod 16 * 4 div 4 = b"
    and "c < 256 \<Longrightarrow> (b mod 16 * 4 + c div 64) mod 4 * 64 + c mod 64 = c"
  by (simp_all only: join_digits byte_parts div_mult_mod_eq)

lemma sextet_bounds:
  fixes a b c :: nat
  shows "a < 256 \<Longrightarrow> a div 4 < 64" "b < 256 \<Longrightarrow> a mod 4 * 16 + b div 16 < 64" "a mod 4 * 16 < 64"
    "c < 256 \<Longrightarrow> b mod 16 * 4 + c div 64 < 64" "b mod 16 * 4 < 64" "c mod 64 < 64"
proof -
  have m: "a mod 4 < 4" "b mod 16 < 16" by simp_all
  show "a mod 4 * 16 < 64" "b mod 16 * 4 < 64" "c mod 64 < 64" using m by linarith+
  show "a < 256 \<Longrightarrow> a div 4 < 64" by (rule byte_parts)
  show "b < 256 \<Longrightarrow> a mod 4 * 16 + b div 16 < 64" using m byte_parts(2) [of b] by linarith
  show "c < 256 \<Longrightarrow> b mod 16 * 4 + c div 64 < 64" using m byte_parts(3) [of c] by linarith
qed

lemma octets_sextets:
  "list_all (\<lambda>b. b < 256) bs \<Longrightarrow> octets (sextets bs) = bs"
proof (induction bs rule: sextets.induct)
  case (4 a b c bs)
  then show ?case
    by (simp only: sextets.simps octets.simps append.simps list.pred_inject sextet_sums simp_thms)
qed (simp_all only: sextets.simps octets.simps list.pred_inject sextet_sums simp_thms)

lemma sextets_range:
  "list_all (\<lambda>b. b < 256) bs \<Longrightarrow> list_all (\<lambda>v. v < 64) (sextets bs)"
proof (induction bs rule: sextets.induct)
  case (2 a)
  then show ?case using sextet_bounds(1) [of a] sextet_bounds(3) [of a] by simp
next
  case (3 a b)
  then show ?case
    using sextet_bounds(1) [of a] sextet_bounds(2) [of b a] sextet_bounds(5) [of b] by simp
next
  case (4 a b c bs)
  then show ?case
    using sextet_bounds(1) [of a] sextet_bounds(2) [of b a] sextet_bounds(4) [of c b]
      sextet_bounds(6) [of c] by simp
qed simp

lemma b64_value_char: "n < 64 \<Longrightarrow> b64_value (b64_char n) = Some n"
proof -
  assume n: "n < 64"
  have last: "b64_value (CHR ''+'') = Some 62" "b64_value (CHR ''/'') = Some 63" by code_simp+
  consider "n < 26" | "26 \<le> n" "n < 52" | "52 \<le> n" "n < 62" | "n = 62" | "n = 63" using n by linarith
  then show ?thesis
  proof cases
    case 1
    then show ?thesis by (simp add: b64_char_def b64_value_def Let_def)
  next
    case 2
    then show ?thesis by (simp add: b64_char_def b64_value_def Let_def)
  next
    case 3
    then have "48 \<le> n - 4" "n - 4 \<le> 57" "(n - 4) mod 256 = n - 4" by simp_all
    with 3 show ?thesis by (simp add: b64_char_def b64_value_def Let_def)
  qed (simp_all add: b64_char_def last)
qed

lemma b64_value_pad: "b64_value (CHR ''='') = None"
  by code_simp

lemma base64_decode_encode:
  assumes "list_all (\<lambda>b. b < 256) bs"
  shows "base64_decode (base64_encode bs) = bs"
proof -
  have vals: "map b64_value (map b64_char ss) = map Some ss" if "list_all (\<lambda>v. v < 64) ss" for ss
    using that by (induction ss) (simp_all add: b64_value_char)
  have some: "map the (filter (\<lambda>v. v \<noteq> None) (map Some ss)) = ss" for ss :: "nat list"
    by (induction ss) simp_all
  have "map b64_value (base64_encode bs) =
      map Some (sextets bs) @ replicate ((3 - length bs mod 3) mod 3) None"
    unfolding base64_encode_def map_append vals [OF sextets_range [OF assms]]
    by (simp add: b64_value_pad)
  then have "map the (filter (\<lambda>v. v \<noteq> None) (map b64_value (base64_encode bs))) = sextets bs"
    using some [of "sextets bs"] by simp
  then show ?thesis using octets_sextets [OF assms] by (simp add: base64_decode_def)
qed

section \<open>API keys and webhook secrets\<close>

fun keyPrefix :: "api_key_environment \<Rightarrow> string" where
  "keyPrefix Env_test = ''cp_test_''"
| "keyPrefix Env_live = ''cp_live_''"

definition DISPLAY_PREFIX_LENGTH :: nat where
  "DISPLAY_PREFIX_LENGTH = 12"

record generated_api_key =
  gk_raw :: string
  gk_prefix :: string
  gk_hash :: string
  gk_environment :: api_key_environment

definition hashApiKey :: "hmac \<Rightarrow> string \<Rightarrow> string \<Rightarrow> string" where
  "hashApiKey hmac raw pepper = signHmacSha256 hmac raw pepper"

text \<open>\<open>bytes\<close> are the 24 random bytes.\<close>

definition generateApiKey :: "hmac \<Rightarrow> nat list \<Rightarrow> api_key_environment \<Rightarrow> string \<Rightarrow> generated_api_key" where
  "generateApiKey hmac bytes environment pepper =
     (let raw = keyPrefix environment @ base64url_encode bytes
      in \<lparr>gk_raw = raw, gk_prefix = take DISPLAY_PREFIX_LENGTH raw,
          gk_hash = hashApiKey hmac raw pepper, gk_environment = environment\<rparr>)"

definition verifyApiKey :: "hmac \<Rightarrow> string \<Rightarrow> string \<Rightarrow> string \<Rightarrow> bool" where
  "verifyApiKey hmac raw pepper storedHash = safeEqualHex (hashApiKey hmac raw pepper) storedHash"

definition parseApiKeyEnvironment :: "string \<Rightarrow> api_key_environment option" where
  "parseApiKeyEnvironment raw =
     (if starts_with raw (keyPrefix Env_live) then Some Env_live
      else if starts_with raw (keyPrefix Env_test) then Some Env_test
      else None)"

definition generateWebhookSecret :: "nat list \<Rightarrow> string" where
  "generateWebhookSecret bytes = ''whsec_'' @ base64url_encode bytes"

section \<open>Field encryption\<close>

text \<open>The cipher: \<open>seal key iv plaintext\<close> returns the ciphertext and the tag,
  \<open>open key iv tag ciphertext\<close> the plaintext, or nothing when the tag does not fit.\<close>

record aead =
  aead_seal :: "nat list \<Rightarrow> nat list \<Rightarrow> nat list \<Rightarrow> nat list \<times> nat list"
  aead_open :: "nat list \<Rightarrow> nat list \<Rightarrow> nat list \<Rightarrow> nat list \<Rightarrow> nat list option"

definition IV_LENGTH :: nat where "IV_LENGTH = 12"
definition AUTH_TAG_LENGTH :: nat where "AUTH_TAG_LENGTH = 16"
definition KEY_LENGTH_BYTES :: nat where "KEY_LENGTH_BYTES = 32"

definition decodeKey :: "string \<Rightarrow> thrown + nat list" where
  "decodeKey keyHex =
     (let key = hex_decode keyHex
      in if length key \<noteq> KEY_LENGTH_BYTES
         then Inl (OtherThrown ''Encryption key must decode to 32 bytes'') else Inr key)"

definition encryptSecret :: "aead \<Rightarrow> nat list \<Rightarrow> string \<Rightarrow> string \<Rightarrow> thrown + string" where
  "encryptSecret c iv plaintext keyHex =
     (case decodeKey keyHex of
        Inl e \<Rightarrow> Inl e
      | Inr key \<Rightarrow>
          (case aead_seal c key iv (map of_char plaintext) of
             (ciphertext, authTag) \<Rightarrow> Inr (base64_encode (iv @ authTag @ ciphertext))))"

definition decryptSecret :: "aead \<Rightarrow> string \<Rightarrow> string \<Rightarrow> thrown + string" where
  "decryptSecret c encoded keyHex =
     (case decodeKey keyHex of
        Inl e \<Rightarrow> Inl e
      | Inr key \<Rightarrow>
          (let raw = base64_decode encoded;
               iv = take IV_LENGTH raw;
               authTag = take AUTH_TAG_LENGTH (drop IV_LENGTH raw);
               ciphertext = drop (IV_LENGTH + AUTH_TAG_LENGTH) raw
           in case aead_open c key iv authTag ciphertext of
                None \<Rightarrow> Inl (OtherThrown ''Unsupported state or unable to authenticate data'')
              | Some p \<Rightarrow> Inr (map char_of p)))"

text \<open>Documented of AES-256-GCM: what was sealed is opened again, the tag has 16 bytes.\<close>

definition aead_documented :: "aead \<Rightarrow> bool" where
  "aead_documented c \<longleftrightarrow>
     (\<forall>key iv p. list_all (\<lambda>b. b < 256) p \<longrightarrow>
        (case aead_seal c key iv p of (ciphertext, tag) \<Rightarrow>
           length tag = 16 \<and> list_all (\<lambda>b. b < 256) tag \<and> list_all (\<lambda>b. b < 256) ciphertext \<and>
           aead_open c key iv tag ciphertext = Some p))"

text \<open>What the services rely on of stored secrets.\<close>

locale secret_box =
  fixes ok :: "'c \<Rightarrow> bool"
    and nonce_ok :: "'n \<Rightarrow> bool"
    and encrypt :: "'c \<Rightarrow> 'n \<Rightarrow> string \<Rightarrow> string \<Rightarrow> thrown + string"
    and decrypt :: "'c \<Rightarrow> string \<Rightarrow> string \<Rightarrow> thrown + string"
  assumes decrypt_encrypt:
    "ok c \<Longrightarrow> nonce_ok n \<Longrightarrow> encrypt c n plaintext key = Inr encoded \<Longrightarrow> decrypt c encoded key = Inr plaintext"
begin

text \<open>Two secrets that encrypt to the same text under one key are the same secret.\<close>

lemma encrypt_injective:
  "ok c \<Longrightarrow> nonce_ok n \<Longrightarrow> nonce_ok m \<Longrightarrow> encrypt c n p key = Inr e \<Longrightarrow> encrypt c m q key = Inr e \<Longrightarrow> p = q"
  using decrypt_encrypt [of c n p key e] decrypt_encrypt [of c m q key e] by simp

end

lemma of_char_byte [simp]: "(of_char c :: nat) < 256"
  by (metis of_char_mod_256 mod_less_divisor zero_less_numeral)

lemma decrypt_encrypt_secret:
  assumes "aead_documented c" and "length iv = 12 \<and> list_all (\<lambda>b. b < 256) iv"
    and "encryptSecret c iv plaintext keyHex = Inr encoded"
  shows "decryptSecret c encoded keyHex = Inr plaintext"
proof -
  obtain key where key: "decodeKey keyHex = Inr key"
    using assms(3) by (auto simp: encryptSecret_def split: sum.splits)
  obtain ct tag where seal: "aead_seal c key iv (map of_char plaintext) = (ct, tag)" by fastforce
  have plain: "list_all (\<lambda>b. b < 256) (map (of_char :: char \<Rightarrow> nat) plaintext)"
    by (simp add: list_all_iff)
  have c: "length tag = 16" "list_all (\<lambda>b. b < 256) tag" "list_all (\<lambda>b. b < 256) ct"
    "aead_open c key iv tag ct = Some (map of_char plaintext)"
    using assms(1) plain seal unfolding aead_documented_def by (metis (mono_tags, lifting) case_prod_conv)+
  have "base64_decode encoded = iv @ tag @ ct"
    using assms(2,3) key seal c by (auto simp: encryptSecret_def base64_decode_encode)
  then show ?thesis
    using key c assms(2) by (simp add: decryptSecret_def IV_LENGTH_def AUTH_TAG_LENGTH_def Let_def comp_def)
qed

interpretation aes_box: secret_box aead_documented "\<lambda>iv. length iv = 12 \<and> list_all (\<lambda>b. b < 256) iv"
    encryptSecret decryptSecret
  by unfold_locales (rule decrypt_encrypt_secret)

end
