(* ===== verification/Guards.thy ===== *)
theory Guards
  imports Crypto Store
begin

text \<open>
  The request guards of the API (\<open>apps/api/src/common/guards\<close>) and the parameter
  decorators (\<open>common/decorators\<close>). A guard takes the request and returns it with the
  fields it filled in, or throws. The JWT library is a parameter. The locale
  \<open>request_guard\<close> is what the controllers rely on of a guard; it is interpreted for every
  guard that runs on the store, and two guards in sequence are one again.
\<close>

section \<open>The request\<close>

text \<open>A header is one string or several.\<close>

datatype header = One string | Many "string list"

record request =
  rq_method :: string
  rq_url :: string
  rq_ip :: string
  rq_cookies :: "string \<Rightarrow> string option"
  rq_headers :: "string \<Rightarrow> header option"
  rq_bodyEmail :: "string option"
  rq_userId :: "ident option"
  rq_organizationId :: "ident option"
  rq_membershipRole :: "membership_role option"
  rq_apiKeyId :: "ident option"
  rq_apiKeyScopes :: "api_key_scope list option"

text \<open>A string that JavaScript takes for true: present and not empty.\<close>

definition truthy :: "string option \<Rightarrow> string option" where
  "truthy v = (case v of Some (c # s) \<Rightarrow> Some (c # s) | _ \<Rightarrow> None)"

lemma truthy_Some: "truthy v = Some s \<longleftrightarrow> v = Some s \<and> s \<noteq> []"
  by (auto simp: truthy_def split: option.splits list.splits)

definition single_header :: "request \<Rightarrow> string \<Rightarrow> string option" where
  "single_header q name = (case rq_headers q name of Some (One v) \<Rightarrow> Some v | _ \<Rightarrow> None)"

type_synonym guard = "request \<Rightarrow> request db_op"

section \<open>Sessions\<close>

text \<open>\<open>jose\<close>: \<open>jwt_sign secret sub iat exp\<close> is the token; \<open>jwt_verify secret now token\<close> is
  nothing where \<open>jwtVerify\<close> throws, else the payload's \<open>sub\<close>, where there is one.\<close>

record jwt =
  jwt_sign :: "string \<Rightarrow> ident \<Rightarrow> int \<Rightarrow> int \<Rightarrow> string"
  jwt_verify :: "string \<Rightarrow> int \<Rightarrow> string \<Rightarrow> ident option option"

record api_config =
  cfg_jwtAccessSecret :: string
  cfg_accessTtlSeconds :: int
  cfg_jwtRefreshSecret :: string
  cfg_refreshTtlSeconds :: int
  cfg_apiKeyPepper :: string
  cfg_encryptionKey :: string
  cfg_checkoutBaseUrl :: string
  cfg_cookieSecure :: bool
  cfg_rateGlobal :: int
  cfg_rateLogin :: int
  cfg_rateCheckout :: int

definition sign_access_token :: "jwt \<Rightarrow> api_config \<Rightarrow> millis \<Rightarrow> ident \<Rightarrow> string" where
  "sign_access_token j cfg now userId =
     jwt_sign j (cfg_jwtAccessSecret cfg) userId (now div 1000) (now div 1000 + cfg_accessTtlSeconds cfg)"

definition verify_access_token :: "jwt \<Rightarrow> api_config \<Rightarrow> millis \<Rightarrow> string \<Rightarrow> thrown + ident" where
  "verify_access_token j cfg now token =
     (case jwt_verify j (cfg_jwtAccessSecret cfg) (now div 1000) token of
        None \<Rightarrow> Inl (AppThrown (unauthorized_error ''Invalid or expired session''))
      | Some None \<Rightarrow> Inl (AppThrown (unauthorized_error ''Invalid session token''))
      | Some (Some sub) \<Rightarrow> Inr sub)"

definition SessionAuthGuard :: "jwt \<Rightarrow> api_config \<Rightarrow> millis \<Rightarrow> guard" where
  "SessionAuthGuard j cfg now q =
     (case truthy (rq_cookies q ''cp_at'') of
        None \<Rightarrow> throw (AppThrown (unauthorized_error ''Authentication required''))
      | Some token \<Rightarrow>
          (case verify_access_token j cfg now token of
             Inl _ \<Rightarrow> throw (AppThrown (unauthorized_error ''Invalid or expired session''))
           | Inr sub \<Rightarrow> ret (q\<lparr>rq_userId := Some sub\<rparr>)))"

section \<open>Organizations, roles, CSRF\<close>

definition memberships_of :: "ident \<Rightarrow> 'z store_scheme \<Rightarrow> membership list" where
  "memberships_of userId s = filter (\<lambda>m. mem_userId m = userId) (memberships s)"

text \<open>The organization the request is for: the header's, or the only one the user has.\<close>

definition targetOrganization :: "request \<Rightarrow> membership list \<Rightarrow> ident option" where
  "targetOrganization q ms =
     (case truthy (single_header q ''x-organization-id'') of
        Some i \<Rightarrow> Some i
      | None \<Rightarrow> (case ms of [only] \<Rightarrow> truthy (Some (mem_organizationId only)) | _ \<Rightarrow> None))"

definition OrganizationScopeGuard :: guard where
  "OrganizationScopeGuard q =
     (case truthy (rq_userId q) of
        None \<Rightarrow> throw (AppThrown (unauthorized_error ''Authentication required''))
      | Some userId \<Rightarrow>
          seq (reads (memberships_of userId)) (\<lambda>ms.
          if ms = [] then throw (AppThrown (forbidden_error ''You do not belong to any organization yet''))
          else
            (case targetOrganization q ms of
               None \<Rightarrow> throw (AppThrown (forbidden_error
                         ''You belong to multiple organizations - specify X-Organization-Id''))
             | Some target \<Rightarrow>
                 (case find (\<lambda>m. mem_organizationId m = target) ms of
                    None \<Rightarrow> throw (AppThrown (forbidden_error ''You do not have access to this organization''))
                  | Some m \<Rightarrow> ret (q\<lparr>rq_organizationId := Some (mem_organizationId m),
                                     rq_membershipRole := Some (mem_role m)\<rparr>)))))"

definition RolesGuard :: "membership_role list \<Rightarrow> guard" where
  "RolesGuard required q =
     (if required = [] then ret q
      else (case rq_membershipRole q of
              Some r \<Rightarrow> if r \<in> set required then ret q
                        else throw (AppThrown (forbidden_error ''Insufficient role for this action''))
            | None \<Rightarrow> throw (AppThrown (forbidden_error ''Insufficient role for this action''))))"

definition to_upper_char :: "char \<Rightarrow> char" where
  "to_upper_char c =
     (let n = (of_char c :: nat) in if 97 \<le> n \<and> n \<le> 122 then char_of (n - 32) else c)"

definition SAFE_METHODS :: "string list" where
  "SAFE_METHODS = [''GET'', ''HEAD'', ''OPTIONS'']"

definition CsrfGuard :: guard where
  "CsrfGuard q =
     (if map to_upper_char (rq_method q) \<in> set SAFE_METHODS then ret q
      else (case (truthy (rq_cookies q ''cp_csrf''), single_header q ''x-csrf-token'') of
              (Some cookieToken, Some headerToken) \<Rightarrow>
                if safeEqualHex cookieToken headerToken then ret q
                else throw (AppThrown (forbidden_error ''Invalid or missing CSRF token''))
            | _ \<Rightarrow> throw (AppThrown (forbidden_error ''Invalid or missing CSRF token''))))"

section \<open>API keys\<close>

definition BEARER :: string where
  "BEARER = ''Bearer ''"

definition key_by_hash :: "string \<Rightarrow> 'z store_scheme \<Rightarrow> api_key option" where
  "key_by_hash h s = find (\<lambda>k. key_hash k = h) (apiKeys s)"

definition key_usable :: "millis \<Rightarrow> api_key \<Rightarrow> bool" where
  "key_usable now k \<longleftrightarrow>
     key_revokedAt k = None \<and> (case key_expiresAt k of None \<Rightarrow> True | Some t \<Rightarrow> \<not> t < now)"

text \<open>The write of \<open>lastUsedAt\<close> is not awaited and its failure is swallowed; the model does it
  at once, on the row that was just found.\<close>

definition touch_key :: "millis \<Rightarrow> ident \<Rightarrow> unit db_op" where
  "touch_key now i =
     update_many apiKeys_update (\<lambda>k. key_id k = i) (\<lambda>k. k\<lparr>key_lastUsedAt := Some now\<rparr>)"

definition ApiKeyAuthGuard :: "hmac \<Rightarrow> api_config \<Rightarrow> millis \<Rightarrow> guard" where
  "ApiKeyAuthGuard hmac cfg now q =
     (case single_header q ''authorization'' of
        None \<Rightarrow> throw (AppThrown (unauthorized_error ''Missing API key''))
      | Some h \<Rightarrow>
          if \<not> starts_with h BEARER then throw (AppThrown (unauthorized_error ''Missing API key''))
          else
            (let raw = trim (drop (length BEARER) h)
             in if parseApiKeyEnvironment raw = None
                then throw (AppThrown (unauthorized_error ''Malformed API key''))
                else
                  seq (reads (key_by_hash (hashApiKey hmac raw (cfg_apiKeyPepper cfg)))) (\<lambda>found.
                  case found of
                    None \<Rightarrow> throw (AppThrown (unauthorized_error ''Invalid or revoked API key''))
                  | Some k \<Rightarrow>
                      if \<not> key_usable now k
                      then throw (AppThrown (unauthorized_error ''Invalid or revoked API key''))
                      else
                        seq (touch_key now (key_id k)) (\<lambda>_.
                        ret (q\<lparr>rq_organizationId := Some (key_organizationId k),
                               rq_apiKeyId := Some (key_id k),
                               rq_apiKeyScopes := Some (key_scopes k)\<rparr>)))))"

definition ScopesGuard :: "api_key_scope list \<Rightarrow> guard" where
  "ScopesGuard required q =
     (if required = [] then ret q
      else
        (let granted = (case rq_apiKeyScopes q of None \<Rightarrow> [] | Some ss \<Rightarrow> ss)
         in if list_all (\<lambda>scope. scope \<in> set granted) required then ret q
            else throw (AppThrown (forbidden_error ''API key is missing a required scope''))))"

section \<open>The parameter decorators\<close>

definition CurrentUserId :: "request \<Rightarrow> ident db_op" where
  "CurrentUserId q =
     (case truthy (rq_userId q) of
        None \<Rightarrow> throw (AppThrown (unauthorized_error ''Authentication required''))
      | Some i \<Rightarrow> ret i)"

definition CurrentOrganizationId :: "request \<Rightarrow> ident db_op" where
  "CurrentOrganizationId q =
     (case truthy (rq_organizationId q) of
        None \<Rightarrow> throw (AppThrown (forbidden_error ''No organization context for this request''))
      | Some i \<Rightarrow> ret i)"

definition CurrentApiKeyId :: "request \<Rightarrow> ident db_op" where
  "CurrentApiKeyId q =
     (case truthy (rq_apiKeyId q) of
        None \<Rightarrow> throw (AppThrown (forbidden_error ''No API key context for this request''))
      | Some i \<Rightarrow> ret i)"

section \<open>What a guard promises\<close>

text \<open>What remains of a store when the usage stamps of the API keys are left out: guards write
  nothing else.\<close>

definition without_usage :: "store \<Rightarrow> store" where
  "without_usage s = s\<lparr>apiKeys := map (\<lambda>k. k\<lparr>key_lastUsedAt := None\<rparr>) (apiKeys s)\<rparr>"

definition is_denial :: "thrown \<Rightarrow> bool" where
  "is_denial e \<longleftrightarrow> (\<exists>m. e = AppThrown (unauthorized_error m) \<or> e = AppThrown (forbidden_error m))"

locale request_guard =
  fixes guard :: "'c \<Rightarrow> request \<Rightarrow> request db_op"
  assumes writes_usage_only: "without_usage (snd (guard c q s)) = without_usage s"
    and denies: "fst (guard c q s) = Inl e \<Longrightarrow> is_denial e"
begin

text \<open>A handler behind the guard runs after it passed, and otherwise not at all.\<close>

lemma guarded_handler:
  "seq (guard c q) h s = (r, s') \<Longrightarrow>
   (\<exists>e. r = Inl e \<and> is_denial e \<and> without_usage s' = without_usage s) \<or>
   (\<exists>q' t. guard c q s = (Inr q', t) \<and> without_usage t = without_usage s \<and> h q' t = (r, s'))"
  using denies [of c q s] writes_usage_only [of c q s]
  by (cases "guard c q s"; cases "fst (guard c q s)") (auto simp: seq_def)

end

locale guard_pair = first: request_guard g + second: request_guard h
  for g :: "'c \<Rightarrow> request \<Rightarrow> request db_op" and h :: "'d \<Rightarrow> request \<Rightarrow> request db_op"

sublocale guard_pair \<subseteq> both: request_guard "\<lambda>(c, d) q. seq (g c q) (h d)"
proof
  fix cd :: "'c \<times> 'd" and q s e
  obtain c d where cd: "cd = (c, d)" by fastforce
  show "without_usage (snd ((case cd of (c, d) \<Rightarrow> \<lambda>q. seq (g c q) (h d)) q s)) = without_usage s"
    using first.writes_usage_only [of c q s] second.writes_usage_only [of d]
    by (cases "g c q s"; cases "fst (g c q s)") (auto simp: cd seq_def)
  show "is_denial e" if "fst ((case cd of (c, d) \<Rightarrow> \<lambda>q. seq (g c q) (h d)) q s) = Inl e"
    using that first.denies [of c q s] second.denies [of d]
    by (cases "g c q s"; cases "fst (g c q s)") (auto simp: cd seq_def)
qed

lemmas guard_defs = SessionAuthGuard_def OrganizationScopeGuard_def RolesGuard_def CsrfGuard_def
  ApiKeyAuthGuard_def ScopesGuard_def

interpretation session_guard: request_guard "\<lambda>(j, cfg, now). SessionAuthGuard j cfg now"
  by unfold_locales
    (auto simp: SessionAuthGuard_def is_denial_def eff_defs split: prod.splits option.splits sum.splits)

interpretation org_guard: request_guard "\<lambda>_ :: unit. OrganizationScopeGuard"
  by unfold_locales
    (auto simp: OrganizationScopeGuard_def is_denial_def eff_defs split: option.splits if_splits)

interpretation roles_guard: request_guard RolesGuard
  by unfold_locales (auto simp: RolesGuard_def is_denial_def eff_defs split: option.splits if_splits)

interpretation csrf_guard: request_guard "\<lambda>_ :: unit. CsrfGuard"
  by unfold_locales (auto simp: CsrfGuard_def is_denial_def eff_defs split: option.splits if_splits)

lemma touch_key_usage: "without_usage (snd (touch_key now i s)) = without_usage s"
  by (simp add: touch_key_def update_many_def without_usage_def update_rows_def comp_def if_distrib cong: if_cong)

interpretation key_guard: request_guard "\<lambda>(hmac, cfg, now). ApiKeyAuthGuard hmac cfg now"
proof
  fix c :: "hmac \<times> api_config \<times> millis" and q s e
  obtain hmac cfg now where c: "c = (hmac, cfg, now)" by (cases c)
  have fst_touch: "fst (touch_key now i t) = Inr ()" for i t by (simp add: touch_key_def update_many_def)
  have touched: "seq (touch_key now i) (\<lambda>_. ret x) t = (Inr x, snd (touch_key now i t))" for i x t
    using fst_touch [of i t] by (cases "touch_key now i t") (simp add: seq_def ret_def)
  show "without_usage (snd ((case c of (hmac, cfg, now) \<Rightarrow> ApiKeyAuthGuard hmac cfg now) q s)) = without_usage s"
    by (auto simp: c ApiKeyAuthGuard_def Let_def seq_reads throw_def touched touch_key_usage
        split: option.splits)
  show "is_denial e" if "fst ((case c of (hmac, cfg, now) \<Rightarrow> ApiKeyAuthGuard hmac cfg now) q s) = Inl e"
    using that
    by (auto simp: c ApiKeyAuthGuard_def Let_def seq_reads throw_def touched is_denial_def
        split: option.splits if_splits)
qed

interpretation scopes_guard: request_guard ScopesGuard
  by unfold_locales (auto simp: ScopesGuard_def is_denial_def eff_defs Let_def split: if_splits)

section \<open>The guard stacks of the controllers\<close>

text \<open>Reading routes of the dashboard, changing routes of the dashboard (owners and
  administrators only), and the merchant API.\<close>

definition dashboard_guards :: "jwt \<Rightarrow> api_config \<Rightarrow> millis \<Rightarrow> guard" where
  "dashboard_guards j cfg now q = seq (SessionAuthGuard j cfg now q) OrganizationScopeGuard"

definition admin_guards :: "jwt \<Rightarrow> api_config \<Rightarrow> millis \<Rightarrow> guard" where
  "admin_guards j cfg now q =
     seq (dashboard_guards j cfg now q) (\<lambda>q1. seq (RolesGuard [OWNER, ADMIN] q1) CsrfGuard)"

definition session_guards :: "jwt \<Rightarrow> api_config \<Rightarrow> millis \<Rightarrow> guard" where
  "session_guards j cfg now q = seq (SessionAuthGuard j cfg now q) CsrfGuard"

definition merchant_guards :: "hmac \<Rightarrow> api_config \<Rightarrow> millis \<Rightarrow> api_key_scope list \<Rightarrow> guard" where
  "merchant_guards hmac cfg now scopes q = seq (ApiKeyAuthGuard hmac cfg now q) (ScopesGuard scopes)"

interpretation session_org: guard_pair "\<lambda>(j, cfg, now). SessionAuthGuard j cfg now" "\<lambda>_ :: unit. OrganizationScopeGuard"
  by unfold_locales

interpretation roles_csrf: guard_pair RolesGuard "\<lambda>_ :: unit. CsrfGuard"
  by unfold_locales

interpretation session_csrf: guard_pair "\<lambda>(j, cfg, now). SessionAuthGuard j cfg now" "\<lambda>_ :: unit. CsrfGuard"
  by unfold_locales

interpretation key_scopes: guard_pair "\<lambda>(hmac, cfg, now). ApiKeyAuthGuard hmac cfg now" ScopesGuard
  by unfold_locales

interpretation dashboard_guard: request_guard "\<lambda>(j, cfg, now). dashboard_guards j cfg now"
proof -
  have eq: "dashboard_guards j cfg now = (\<lambda>q. seq (SessionAuthGuard j cfg now q) OrganizationScopeGuard)" for j cfg now
    by (simp add: fun_eq_iff dashboard_guards_def)
  show "request_guard (\<lambda>(j, cfg, now). dashboard_guards j cfg now)"
    using session_org.both.writes_usage_only [of "((_, _, _), ())"] session_org.both.denies [of "((_, _, _), ())"]
    by (unfold_locales; clarsimp simp: eq)
qed

interpretation admin_pair: guard_pair "\<lambda>(j, cfg, now). dashboard_guards j cfg now"
    "\<lambda>(rs, u :: unit) q. seq (RolesGuard rs q) CsrfGuard"
  by (intro guard_pair.intro dashboard_guard.request_guard_axioms roles_csrf.both.request_guard_axioms)

interpretation admin_guard: request_guard "\<lambda>(j, cfg, now). admin_guards j cfg now"
proof -
  have eq: "admin_guards j cfg now = (\<lambda>q. seq (dashboard_guards j cfg now q) (\<lambda>q1. seq (RolesGuard [OWNER, ADMIN] q1) CsrfGuard))" for j cfg now
    by (simp add: fun_eq_iff admin_guards_def)
  show "request_guard (\<lambda>(j, cfg, now). admin_guards j cfg now)"
    using admin_pair.both.writes_usage_only [of "((_, _, _), ([OWNER, ADMIN], ()))"]
      admin_pair.both.denies [of "((_, _, _), ([OWNER, ADMIN], ()))"]
    by (unfold_locales; clarsimp simp: eq)
qed

interpretation merchant_guard: request_guard "\<lambda>(hmac, cfg, now, scopes). merchant_guards hmac cfg now scopes"
proof -
  have eq: "merchant_guards hmac cfg now scopes = (\<lambda>q. seq (ApiKeyAuthGuard hmac cfg now q) (ScopesGuard scopes))" for hmac cfg now scopes
    by (simp add: fun_eq_iff merchant_guards_def)
  show "request_guard (\<lambda>(hmac, cfg, now, scopes). merchant_guards hmac cfg now scopes)"
    using key_scopes.both.writes_usage_only [of "((_, _, _), _)"] key_scopes.both.denies [of "((_, _, _), _)"]
    by (unfold_locales; clarsimp simp: eq)
qed

section \<open>Who passes\<close>

lemma session_passes:
  "SessionAuthGuard j cfg now q s = (Inr q', s') \<longleftrightarrow>
   s' = s \<and> (\<exists>token userId. rq_cookies q ''cp_at'' = Some token \<and> token \<noteq> [] \<and>
      jwt_verify j (cfg_jwtAccessSecret cfg) (now div 1000) token = Some (Some userId) \<and>
      q' = q\<lparr>rq_userId := Some userId\<rparr>)"
  by (auto simp: SessionAuthGuard_def verify_access_token_def truthy_def eff_defs
      split: option.splits sum.splits list.splits)

lemma org_passes:
  "OrganizationScopeGuard q s = (Inr q', s') \<Longrightarrow>
   s' = s \<and> (\<exists>userId m. rq_userId q = Some userId \<and> m \<in> set (memberships s) \<and> mem_userId m = userId \<and>
      q' = q\<lparr>rq_organizationId := Some (mem_organizationId m), rq_membershipRole := Some (mem_role m)\<rparr> \<and>
      (case truthy (single_header q ''x-organization-id'') of Some i \<Rightarrow> mem_organizationId m = i | None \<Rightarrow> True))"
proof -
  assume pass: "OrganizationScopeGuard q s = (Inr q', s')"
  then obtain userId target m where
    u: "truthy (rq_userId q) = Some userId" and st: "s' = s"
    and t: "targetOrganization q (memberships_of userId s) = Some target"
    and m: "find (\<lambda>m. mem_organizationId m = target) (memberships_of userId s) = Some m"
    and q': "q' = q\<lparr>rq_organizationId := Some (mem_organizationId m), rq_membershipRole := Some (mem_role m)\<rparr>"
    by (auto simp: OrganizationScopeGuard_def seq_reads ret_def throw_def split: option.splits if_splits)
  have "m \<in> set (memberships s) \<and> mem_userId m = userId \<and> mem_organizationId m = target"
    using find_SomeD [OF m] by (auto simp: memberships_of_def)
  moreover have "case truthy (single_header q ''x-organization-id'') of Some i \<Rightarrow> target = i | None \<Rightarrow> True"
    using t by (auto simp: targetOrganization_def split: option.splits)
  ultimately show ?thesis using u st q' by (auto simp: truthy_Some)
qed

lemma roles_passes:
  "RolesGuard required q s = (Inr q', s') \<longleftrightarrow>
   q' = q \<and> s' = s \<and> (required = [] \<or> (\<exists>r \<in> set required. rq_membershipRole q = Some r))"
  by (auto simp: RolesGuard_def eff_defs split: option.splits)

lemma csrf_passes:
  "CsrfGuard q s = (Inr q', s') \<longleftrightarrow>
   q' = q \<and> s' = s \<and>
   (map to_upper_char (rq_method q) \<in> set SAFE_METHODS \<or>
    (\<exists>c h. rq_cookies q ''cp_csrf'' = Some c \<and> c \<noteq> [] \<and> single_header q ''x-csrf-token'' = Some h \<and>
       hex_decode c = hex_decode h))"
  by (auto simp: CsrfGuard_def eff_defs safeEqualHex_iff truthy_def split: option.splits list.splits)

text \<open>C19. A changing dashboard request that gets past its guards comes with a session cookie the
  JWT library accepts for some user, is for an organization that user is a member of with the
  role OWNER or ADMIN (the one named in the header, if any), and carries a CSRF header that
  decodes to the same bytes as the CSRF cookie; the guards have then changed nothing.\<close>

theorem admin_route_authorized:
  assumes "admin_guards j cfg now q s = (Inr q', s')"
    and "map to_upper_char (rq_method q) \<notin> set SAFE_METHODS"
  shows "s' = s \<and> (\<exists>token userId m c h.
    rq_cookies q ''cp_at'' = Some token \<and>
    jwt_verify j (cfg_jwtAccessSecret cfg) (now div 1000) token = Some (Some userId) \<and>
    m \<in> set (memberships s) \<and> mem_userId m = userId \<and> mem_role m \<in> {OWNER, ADMIN} \<and>
    (case truthy (single_header q ''x-organization-id'') of Some i \<Rightarrow> mem_organizationId m = i | None \<Rightarrow> True) \<and>
    rq_userId q' = Some userId \<and> rq_organizationId q' = Some (mem_organizationId m) \<and>
    rq_cookies q ''cp_csrf'' = Some c \<and> c \<noteq> [] \<and> single_header q ''x-csrf-token'' = Some h \<and>
    hex_decode c = hex_decode h)"
proof -
  from assms(1) obtain q1 s1 q2 s2 q3 s3 where steps:
    "SessionAuthGuard j cfg now q s = (Inr q1, s1)" "OrganizationScopeGuard q1 s1 = (Inr q2, s2)"
    "RolesGuard [OWNER, ADMIN] q2 s2 = (Inr q3, s3)" "CsrfGuard q3 s3 = (Inr q', s')"
    by (auto simp: admin_guards_def dashboard_guards_def seq_eq_Inr)
  obtain token userId where session: "s1 = s" "rq_cookies q ''cp_at'' = Some token"
    "jwt_verify j (cfg_jwtAccessSecret cfg) (now div 1000) token = Some (Some userId)"
    "q1 = q\<lparr>rq_userId := Some userId\<rparr>"
    using steps(1) by (auto simp: session_passes)
  have head: "single_header q1 x = single_header q x" for x by (simp add: session(4) single_header_def)
  obtain m where m: "s2 = s1" "m \<in> set (memberships s)" "mem_userId m = userId"
    "q2 = q1\<lparr>rq_organizationId := Some (mem_organizationId m), rq_membershipRole := Some (mem_role m)\<rparr>"
    "case truthy (single_header q ''x-organization-id'') of Some i \<Rightarrow> mem_organizationId m = i | None \<Rightarrow> True"
    using org_passes [OF steps(2)] session(1,4) unfolding head by auto
  have role: "q3 = q2" "s3 = s2" "mem_role m \<in> {OWNER, ADMIN}"
    using steps(3) by (auto simp: roles_passes m(4))
  have "single_header q3 x = single_header q x" for x by (simp add: role(1) m(4) session(4) single_header_def)
  then have "q' = q3 \<and> s' = s3 \<and> (\<exists>c h. rq_cookies q ''cp_csrf'' = Some c \<and> c \<noteq> [] \<and>
      single_header q ''x-csrf-token'' = Some h \<and> hex_decode c = hex_decode h)"
    using steps(4) assms(2) unfolding csrf_passes role(1) m(4) session(4) by simp
  then show ?thesis using session m role by auto
qed

definition sample_jwt :: jwt where
  "sample_jwt =
     \<lparr>jwt_sign = (\<lambda>secret sub iat exp. sub),
      jwt_verify = (\<lambda>secret now token. Some (Some token))\<rparr>"

definition sample_config :: api_config where
  "sample_config =
     \<lparr>cfg_jwtAccessSecret = ''a'', cfg_accessTtlSeconds = 900, cfg_jwtRefreshSecret = ''r'',
      cfg_refreshTtlSeconds = 2592000, cfg_apiKeyPepper = ''p'', cfg_encryptionKey = replicate 64 (CHR ''a''),
      cfg_checkoutBaseUrl = ''https://pay.example'', cfg_cookieSecure = True, cfg_rateGlobal = 100,
      cfg_rateLogin = 5, cfg_rateCheckout = 100\<rparr>"

definition sample_request :: request where
  "sample_request =
     \<lparr>rq_method = ''POST'', rq_url = ''/v1/api-keys'', rq_ip = ''203.0.113.9'',
      rq_cookies = (\<lambda>n. if n = ''cp_at'' then Some ''usr_1'' else if n = ''cp_csrf'' then Some ''ab12'' else None),
      rq_headers = (\<lambda>n. if n = ''x-csrf-token'' then Some (One ''ab12'') else None),
      rq_bodyEmail = None, rq_userId = None, rq_organizationId = None, rq_membershipRole = None,
      rq_apiKeyId = None, rq_apiKeyScopes = None\<rparr>"

definition sample_members :: store where
  "sample_members = empty_store\<lparr>memberships :=
     [\<lparr>mem_id = ''m1'', mem_userId = ''usr_1'', mem_organizationId = ''org_1'', mem_role = ADMIN, mem_createdAt = 0\<rparr>]\<rparr>"

theorem admin_route_authorized_witness:
  "\<exists>q'. fst (admin_guards sample_jwt sample_config 1000 sample_request sample_members) = Inr q' \<and>
     rq_organizationId q' = Some ''org_1''"
proof -
  let ?g = "admin_guards sample_jwt sample_config 1000 sample_request sample_members"
  have "case fst ?g of Inl e \<Rightarrow> False | Inr q \<Rightarrow> True" by code_simp
  then obtain q' s' where g: "?g = (Inr q', s')" by (cases ?g) (auto split: sum.splits)
  have "map to_upper_char (rq_method sample_request) \<notin> set SAFE_METHODS" by code_simp
  from admin_route_authorized [OF g this] obtain m where
    "m \<in> set (memberships sample_members)" "rq_organizationId q' = Some (mem_organizationId m)" by blast
  then show ?thesis using g by (simp add: sample_members_def)
qed

end
