(* ===== verification/Auth_Tokens.thy ===== *)
theory Auth_Tokens
  imports Guards Invoices
begin

text \<open>
  Opaque tokens: refresh tokens (\<open>auth/tokens/refresh-token.service.ts\<close>), which are rotated
  on every use in families, and e-mail verification tokens
  (\<open>auth/tokens/email-verification.service.ts\<close>). Tokens are stored by their keyed hash
  (\<open>auth/tokens/token-hash.util.ts\<close>). The random bytes come from the environment of the
  operation.
\<close>

definition hashOpaqueToken :: "hmac \<Rightarrow> string \<Rightarrow> string \<Rightarrow> string \<Rightarrow> string" where
  "hashOpaqueToken hmac raw secret purpose = signHmacSha256 hmac raw (secret @ '':'' @ purpose)"

definition randomToken :: "pass_env \<Rightarrow> string \<Rightarrow> string" where
  "randomToken env purpose = base64url_encode (pe_randomBytes env ''token'' purpose)"

section \<open>Refresh tokens\<close>

definition refreshHash :: "hmac \<Rightarrow> api_config \<Rightarrow> string \<Rightarrow> string" where
  "refreshHash hmac cfg raw = hashOpaqueToken hmac raw (cfg_jwtRefreshSecret cfg) ''refresh''"

definition new_refresh_token ::
    "hmac \<Rightarrow> api_config \<Rightarrow> pass_env \<Rightarrow> ident \<Rightarrow> ident \<Rightarrow> request_context \<Rightarrow> refresh_token" where
  "new_refresh_token hmac cfg env userId familyId ctx =
     \<lparr>rt_id = newId env ''c'' ''refresh_token'', rt_userId = userId,
      rt_tokenHash = refreshHash hmac cfg (randomToken env ''refresh''), rt_familyId = familyId,
      rt_replacedById = None, rt_revokedAt = None,
      rt_expiresAt = pe_now env + cfg_refreshTtlSeconds cfg * 1000,
      rt_userAgent = rc_userAgent ctx, rt_ipAddress = Some (rc_ip ctx)\<rparr>"

text \<open>\<open>familyId\<close> is nothing for a new session.\<close>

definition issue_refresh ::
    "hmac \<Rightarrow> api_config \<Rightarrow> pass_env \<Rightarrow> ident \<Rightarrow> ident option \<Rightarrow> request_context \<Rightarrow> (string \<times> refresh_token) db_op" where
  "issue_refresh hmac cfg env userId familyId ctx =
     (let family = (case familyId of Some f \<Rightarrow> f | None \<Rightarrow> newId env ''fam'' ''family'');
          t = new_refresh_token hmac cfg env userId family ctx
      in seq (create_row refreshTokens refreshTokens_update refresh_clash t)
           (\<lambda>_. ret (randomToken env ''refresh'', t)))"

definition revokeFamily :: "pass_env \<Rightarrow> ident \<Rightarrow> unit db_op" where
  "revokeFamily env familyId =
     update_many refreshTokens_update (\<lambda>t. rt_familyId t = familyId \<and> rt_revokedAt t = None)
       (\<lambda>t. t\<lparr>rt_revokedAt := Some (pe_now env)\<rparr>)"

definition revokeByRawToken :: "hmac \<Rightarrow> api_config \<Rightarrow> pass_env \<Rightarrow> string \<Rightarrow> unit db_op" where
  "revokeByRawToken hmac cfg env raw =
     update_many refreshTokens_update (\<lambda>t. rt_tokenHash t = refreshHash hmac cfg raw \<and> rt_revokedAt t = None)
       (\<lambda>t. t\<lparr>rt_revokedAt := Some (pe_now env)\<rparr>)"

definition token_by_hash :: "string \<Rightarrow> store \<Rightarrow> refresh_token option" where
  "token_by_hash h s = find (\<lambda>t. rt_tokenHash t = h) (refreshTokens s)"

text \<open>What follows the lookup: the row is the one that was read.\<close>

definition rotate_found ::
    "hmac \<Rightarrow> api_config \<Rightarrow> pass_env \<Rightarrow> request_context \<Rightarrow> refresh_token \<Rightarrow> (string \<times> refresh_token) db_op" where
  "rotate_found hmac cfg env ctx existing =
     (if rt_revokedAt existing \<noteq> None \<or> rt_expiresAt existing < pe_now env
      then seq (revokeFamily env (rt_familyId existing))
             (\<lambda>_. throw (AppThrown (unauthorized_error ''Session has been revoked, please log in again'')))
      else
        seq (issue_refresh hmac cfg env (rt_userId existing) (Some (rt_familyId existing)) ctx) (\<lambda>next'.
        seq (update_row refreshTokens refreshTokens_update (\<lambda>t. rt_id t = rt_id existing)
               (\<lambda>t. t\<lparr>rt_revokedAt := Some (pe_now env), rt_replacedById := Some (rt_id (snd next'))\<rparr>)) (\<lambda>_.
        ret next')))"

definition rotate_refresh ::
    "hmac \<Rightarrow> api_config \<Rightarrow> pass_env \<Rightarrow> request_context \<Rightarrow> string \<Rightarrow> (string \<times> refresh_token) db_op" where
  "rotate_refresh hmac cfg env ctx raw =
     seq (reads (token_by_hash (refreshHash hmac cfg raw))) (\<lambda>found.
     case found of
       None \<Rightarrow> throw (AppThrown (unauthorized_error ''Invalid refresh token''))
     | Some existing \<Rightarrow> rotate_found hmac cfg env ctx existing)"

section \<open>E-mail verification\<close>

definition TTL_HOURS :: int where
  "TTL_HOURS = 24"

definition emailHash :: "hmac \<Rightarrow> api_config \<Rightarrow> string \<Rightarrow> string" where
  "emailHash hmac cfg raw = hashOpaqueToken hmac raw (cfg_jwtRefreshSecret cfg) ''email_verification''"

definition issue_email_token :: "hmac \<Rightarrow> api_config \<Rightarrow> pass_env \<Rightarrow> ident \<Rightarrow> string db_op" where
  "issue_email_token hmac cfg env userId =
     (let raw = randomToken env ''email_verification''
      in seq (create_row emailTokens emailTokens_update email_token_clash
                \<lparr>et_id = newId env ''c'' ''email_token'', et_userId = userId,
                 et_tokenHash = emailHash hmac cfg raw,
                 et_expiresAt = pe_now env + TTL_HOURS * 3600000, et_consumedAt = None\<rparr>)
           (\<lambda>_. ret raw))"

definition consume_email_token :: "hmac \<Rightarrow> api_config \<Rightarrow> pass_env \<Rightarrow> string \<Rightarrow> ident db_op" where
  "consume_email_token hmac cfg env raw =
     seq (reads (\<lambda>s. find (\<lambda>t. et_tokenHash t = emailHash hmac cfg raw) (emailTokens s))) (\<lambda>found.
     case found of
       None \<Rightarrow> throw (AppThrown (validation_error ''Invalid or expired verification token'' None))
     | Some t \<Rightarrow>
         if et_consumedAt t \<noteq> None \<or> et_expiresAt t < pe_now env
         then throw (AppThrown (validation_error ''Invalid or expired verification token'' None))
         else
           seq (transaction
                  [update_row emailTokens emailTokens_update (\<lambda>r. et_id r = et_id t)
                     (\<lambda>r. r\<lparr>et_consumedAt := Some (pe_now env)\<rparr>),
                   update_row users users_update (\<lambda>u. usr_id u = et_userId t)
                     (\<lambda>u. u\<lparr>usr_status := ACTIVE, usr_emailVerifiedAt := Some (pe_now env)\<rparr>)])
             (\<lambda>_. ret (et_userId t)))"

section \<open>Families of refresh tokens\<close>

definition live_token :: "refresh_token \<Rightarrow> bool" where
  "live_token t \<longleftrightarrow> rt_revokedAt t = None"

definition families_inv :: "store \<Rightarrow> bool" where
  "families_inv s \<longleftrightarrow>
     distinct (map rt_id (refreshTokens s)) \<and> distinct (map rt_tokenHash (refreshTokens s)) \<and>
     (\<forall>t \<in> set (refreshTokens s). \<forall>u \<in> set (refreshTokens s).
        live_token t \<and> live_token u \<and> rt_familyId t = rt_familyId u \<longrightarrow> t = u)"

text \<open>What happens to the refresh tokens: a session opens with a family identifier that is not
  in use, a token is presented, a session is closed. Everything else leaves them alone.\<close>

inductive token_step :: "hmac \<Rightarrow> api_config \<Rightarrow> store \<Rightarrow> store \<Rightarrow> bool" for hmac cfg where
  Open: "\<forall>t \<in> set (refreshTokens s). rt_familyId t \<noteq> newId env ''fam'' ''family'' \<Longrightarrow>
    token_step hmac cfg s (snd (issue_refresh hmac cfg env userId None ctx s))"
| Present: "token_step hmac cfg s (snd (rotate_refresh hmac cfg env ctx raw s))"
| Close: "token_step hmac cfg s (snd (revokeByRawToken hmac cfg env raw s))"
| Apart: "refreshTokens s' = refreshTokens s \<Longrightarrow> token_step hmac cfg s s'"

lemma new_refresh_fields [simp]:
  "rt_familyId (new_refresh_token hmac cfg env userId f ctx) = f"
  "rt_revokedAt (new_refresh_token hmac cfg env userId f ctx) = None"
  "rt_userId (new_refresh_token hmac cfg env userId f ctx) = userId"
  "rt_tokenHash (new_refresh_token hmac cfg env userId f ctx) = refreshHash hmac cfg (randomToken env ''refresh'')"
  by (simp_all add: new_refresh_token_def)

lemma issue_refresh_result:
  "issue_refresh hmac cfg env userId familyId ctx s =
     (let t = new_refresh_token hmac cfg env userId
                (case familyId of Some f \<Rightarrow> f | None \<Rightarrow> newId env ''fam'' ''family'') ctx
      in if list_ex (refresh_clash t) (refreshTokens s) then (Inl (DbThrown UniqueViolation), s)
         else (Inr (randomToken env ''refresh'', t), s\<lparr>refreshTokens := refreshTokens s @ [t]\<rparr>))"
  by (simp add: issue_refresh_def eff_defs Let_def)

text \<open>The successor is appended, the presented token revoked.\<close>

lemma rotate_found_result:
  assumes "existing \<in> set (refreshTokens s)"
  shows "rotate_found hmac cfg env ctx existing s =
    (if rt_revokedAt existing \<noteq> None \<or> rt_expiresAt existing < pe_now env
     then (Inl (AppThrown (unauthorized_error ''Session has been revoked, please log in again'')),
           s\<lparr>refreshTokens := update_rows (\<lambda>t. rt_familyId t = rt_familyId existing \<and> rt_revokedAt t = None)
                (\<lambda>t. t\<lparr>rt_revokedAt := Some (pe_now env)\<rparr>) (refreshTokens s)\<rparr>)
     else
       (let t = new_refresh_token hmac cfg env (rt_userId existing) (rt_familyId existing) ctx
        in if list_ex (refresh_clash t) (refreshTokens s) then (Inl (DbThrown UniqueViolation), s)
           else (Inr (randomToken env ''refresh'', t),
                 s\<lparr>refreshTokens :=
                     update_rows (\<lambda>u. rt_id u = rt_id existing)
                       (\<lambda>u. u\<lparr>rt_revokedAt := Some (pe_now env), rt_replacedById := Some (rt_id t)\<rparr>)
                       (refreshTokens s) @ [t]\<rparr>)))"
proof -
  have found: "list_ex (\<lambda>t. rt_id t = rt_id existing) (refreshTokens s @ [t])" for t
    using assms by (auto simp: list_ex_iff)
  have "rt_id t \<noteq> rt_id existing" if "\<not> list_ex (refresh_clash t) (refreshTokens s)" for t
    using that assms by (auto simp: list_ex_iff refresh_clash_def)
  then show ?thesis
    using found
    by (auto simp: rotate_found_def issue_refresh_result Let_def seq_def ret_def throw_def revokeFamily_def
        update_many_def update_row_def update_rows_append update_rows_def)
qed

lemma revokeByRawToken_result:
  "snd (revokeByRawToken hmac cfg env raw s) =
   s\<lparr>refreshTokens := update_rows (\<lambda>t. rt_tokenHash t = refreshHash hmac cfg raw \<and> rt_revokedAt t = None)
       (\<lambda>t. t\<lparr>rt_revokedAt := Some (pe_now env)\<rparr>) (refreshTokens s)\<rparr>"
  by (cases s) (simp add: revokeByRawToken_def update_many_def)

lemma set_rows_fresh: "r \<in> set (update_rows p f t) \<Longrightarrow> r \<in> set t \<or> (\<exists>r0 \<in> set t. p r0 \<and> r = f r0)"
  by (auto simp: update_rows_def)

lemma revoke_keeps_inv:
  assumes inv: "families_inv s"
  shows "families_inv (s\<lparr>refreshTokens := update_rows p (\<lambda>t. t\<lparr>rt_revokedAt := Some n\<rparr>) (refreshTokens s)\<rparr>)"
proof -
  have dead: "\<not> live_token (t\<lparr>rt_revokedAt := Some n\<rparr>)" for t by (simp add: live_token_def)
  have old: "t \<in> set (refreshTokens s)"
    if "t \<in> set (update_rows p (\<lambda>t. t\<lparr>rt_revokedAt := Some n\<rparr>) (refreshTokens s))" "live_token t" for t
    using set_rows_fresh [OF that(1)] that(2) dead by auto
  show ?thesis
    using inv old by (auto simp: families_inv_def map_update_rows)
qed

lemma append_keeps_inv:
  assumes "families_inv s" and "\<not> list_ex (refresh_clash t) (refreshTokens s)"
    and "\<forall>u \<in> set (refreshTokens s). live_token u \<longrightarrow> rt_familyId u \<noteq> rt_familyId t"
  shows "families_inv (s\<lparr>refreshTokens := refreshTokens s @ [t]\<rparr>)"
  using assms by (force simp: families_inv_def list_ex_iff refresh_clash_def)

lemma rotate_keeps_inv:
  assumes inv: "families_inv s" and e: "existing \<in> set (refreshTokens s)" and live: "live_token existing"
    and fresh: "\<not> list_ex (refresh_clash t) (refreshTokens s)" and fam: "rt_familyId t = rt_familyId existing"
  shows "families_inv (s\<lparr>refreshTokens :=
    update_rows (\<lambda>u. rt_id u = rt_id existing)
      (\<lambda>u. u\<lparr>rt_revokedAt := Some n, rt_replacedById := Some (rt_id t)\<rparr>) (refreshTokens s) @ [t]\<rparr>)"
proof -
  let ?f = "\<lambda>u. u\<lparr>rt_revokedAt := Some n, rt_replacedById := Some (rt_id t)\<rparr>"
  let ?ts = "update_rows (\<lambda>u. rt_id u = rt_id existing) ?f (refreshTokens s)"
  have ids: "distinct (map rt_id (refreshTokens s))" using inv by (simp add: families_inv_def)
  have keys: "map rt_id ?ts = map rt_id (refreshTokens s)" "map rt_tokenHash ?ts = map rt_tokenHash (refreshTokens s)"
    by (simp_all add: map_update_rows)
  have old: "u \<in> set (refreshTokens s) \<and> rt_familyId u \<noteq> rt_familyId existing"
    if u: "u \<in> set ?ts" "live_token u" for u
  proof -
    have m: "u \<in> set (refreshTokens s)" "rt_id u \<noteq> rt_id existing"
      using u by (auto simp: update_rows_def live_token_def split: if_splits)
    then show ?thesis using inv e live u(2) by (auto simp: families_inv_def)
  qed
  have new: "rt_id t \<notin> set (map rt_id ?ts)" "rt_tokenHash t \<notin> set (map rt_tokenHash ?ts)"
    using fresh unfolding keys by (auto simp: list_ex_iff refresh_clash_def)
  have "distinct (map rt_id (?ts @ [t]))" "distinct (map rt_tokenHash (?ts @ [t]))"
    using inv new keys by (simp_all add: families_inv_def del: set_map)
  moreover have "u = v" if "u \<in> set (?ts @ [t])" "v \<in> set (?ts @ [t])"
      "live_token u" "live_token v" "rt_familyId u = rt_familyId v" for u v
  proof -
    have "(u = t \<or> u \<in> set ?ts) \<and> (v = t \<or> v \<in> set ?ts)" using that(1,2) by auto
    then show ?thesis using old [of u] old [of v] that(3,4,5) fam inv by (auto simp: families_inv_def)
  qed
  ultimately show ?thesis unfolding families_inv_def by simp
qed

lemma token_by_hash_Some: "token_by_hash h s = Some t \<Longrightarrow> t \<in> set (refreshTokens s) \<and> rt_tokenHash t = h"
  using find_SomeD by (fastforce simp: token_by_hash_def)

lemma token_step_inv:
  assumes "token_step hmac cfg s s'" and inv: "families_inv s"
  shows "families_inv s'"
  using assms(1)
proof cases
  case (Open env userId ctx)
  then show ?thesis
    using inv append_keeps_inv [OF inv] by (auto simp: issue_refresh_result Let_def)
next
  case (Present env ctx raw)
  show ?thesis
  proof (cases "token_by_hash (refreshHash hmac cfg raw) s")
    case None
    then show ?thesis using inv Present by (simp add: rotate_refresh_def seq_reads throw_def)
  next
    case (Some t)
    then have t: "t \<in> set (refreshTokens s)" using token_by_hash_Some by blast
    show ?thesis
      using inv Some Present rotate_keeps_inv [OF inv t] revoke_keeps_inv [OF inv]
      by (auto simp: rotate_refresh_def seq_reads rotate_found_result [OF t] Let_def live_token_def)
  qed
next
  case (Close env raw)
  then show ?thesis
    using revoke_keeps_inv [OF inv] by (simp add: revokeByRawToken_result)
next
  case Apart
  then show ?thesis using inv by (simp add: families_inv_def)
qed

section \<open>Reuse of a token\<close>

lemma token_steps_inv: "(token_step hmac cfg)\<^sup>*\<^sup>* s s' \<Longrightarrow> families_inv s \<Longrightarrow> families_inv s'"
  by (induction rule: rtranclp_induct) (auto intro: token_step_inv)

text \<open>A row that carries a hash and is revoked; it stays so, in its family.\<close>

definition revoked_in :: "store \<Rightarrow> string \<Rightarrow> ident \<Rightarrow> bool" where
  "revoked_in s h family \<longleftrightarrow>
     (\<exists>t \<in> set (refreshTokens s). rt_tokenHash t = h \<and> rt_familyId t = family \<and> rt_revokedAt t \<noteq> None)"

lemma revoked_append:
  "revoked_in s h family \<Longrightarrow> revoked_in (s\<lparr>refreshTokens := refreshTokens s @ l\<rparr>) h family"
  by (auto simp: revoked_in_def)

lemma revoked_update:
  assumes "revoked_in s h family"
    and "\<And>t. rt_tokenHash (f t) = rt_tokenHash t \<and> rt_familyId (f t) = rt_familyId t \<and> rt_revokedAt (f t) \<noteq> None"
  shows "revoked_in (s\<lparr>refreshTokens := update_rows p f (refreshTokens s)\<rparr>) h family"
proof -
  obtain t where t: "t \<in> set (refreshTokens s)" "rt_tokenHash t = h" "rt_familyId t = family" "rt_revokedAt t \<noteq> None"
    using assms(1) by (auto simp: revoked_in_def)
  have "(if p t then f t else t) \<in> set (update_rows p f (refreshTokens s))"
    using t(1) by (simp add: update_rows_def)
  moreover have "rt_tokenHash (if p t then f t else t) = h" "rt_familyId (if p t then f t else t) = family"
    "rt_revokedAt (if p t then f t else t) \<noteq> None"
    using t(2,3,4) assms(2) by simp_all
  ultimately show ?thesis unfolding revoked_in_def by auto
qed

lemma revoked_update_append:
  assumes "revoked_in s h family"
    and "\<And>t. rt_tokenHash (f t) = rt_tokenHash t \<and> rt_familyId (f t) = rt_familyId t \<and> rt_revokedAt (f t) \<noteq> None"
  shows "revoked_in (s\<lparr>refreshTokens := update_rows p f (refreshTokens s) @ l\<rparr>) h family"
  using revoked_append [OF revoked_update [OF assms], of p l] by simp

lemma token_step_revoked:
  assumes "token_step hmac cfg s s'" and r: "revoked_in s h family"
  shows "revoked_in s' h family"
  using assms(1)
proof cases
  case (Open env userId ctx)
  then show ?thesis using r by (auto simp: issue_refresh_result Let_def revoked_in_def)
next
  case (Present env ctx raw)
  show ?thesis
  proof (cases "token_by_hash (refreshHash hmac cfg raw) s")
    case None
    then show ?thesis using r Present by (simp add: rotate_refresh_def seq_reads throw_def)
  next
    case (Some t)
    then have t: "t \<in> set (refreshTokens s)" using token_by_hash_Some by blast
    show ?thesis
      using r Some Present
      by (auto simp: rotate_refresh_def seq_reads rotate_found_result [OF t] Let_def
          revoked_update [OF r] revoked_update_append [OF r])
  qed
next
  case (Close env raw)
  then show ?thesis
    by (simp add: revokeByRawToken_result revoked_update [OF r])
next
  case Apart
  then show ?thesis using r by (simp add: revoked_in_def)
qed

lemma token_steps_revoked:
  "(token_step hmac cfg)\<^sup>*\<^sup>* s s' \<Longrightarrow> revoked_in s h family \<Longrightarrow> revoked_in s' h family"
  by (induction rule: rtranclp_induct) (auto intro: token_step_revoked)

lemma rotate_revokes_presented:
  assumes inv: "families_inv s" and ok: "rotate_refresh hmac cfg env ctx raw s = (Inr (raw', t), s')"
  shows "revoked_in s' (refreshHash hmac cfg raw) (rt_familyId t)"
proof -
  obtain e where e: "token_by_hash (refreshHash hmac cfg raw) s = Some e"
    using ok by (auto simp: rotate_refresh_def seq_reads throw_def split: option.splits)
  note mem = token_by_hash_Some [OF e]
  have res: "rotate_found hmac cfg env ctx e s = (Inr (raw', t), s')"
    using ok e by (simp add: rotate_refresh_def seq_reads)
  then have t: "rt_familyId t = rt_familyId e"
    and s': "refreshTokens s' = update_rows (\<lambda>u. rt_id u = rt_id e)
      (\<lambda>u. u\<lparr>rt_revokedAt := Some (pe_now env), rt_replacedById := Some (rt_id t)\<rparr>) (refreshTokens s) @ [t]"
    using mem by (auto simp: rotate_found_result Let_def split: if_splits)
  have "e\<lparr>rt_revokedAt := Some (pe_now env), rt_replacedById := Some (rt_id t)\<rparr> \<in> set (refreshTokens s')"
    using mem by (force simp: s' update_rows_def)
  then show ?thesis
    unfolding revoked_in_def by (rule bexI [rotated]) (use mem in \<open>simp add: t\<close>)
qed

text \<open>C25. A session has one live refresh token at most, and a token works once: after it was
  exchanged, whatever happens to the tokens in between, presenting it again throws and leaves
  the whole family without a live token.\<close>

theorem refresh_token_reuse:
  assumes "families_inv s" and "rotate_refresh hmac cfg env ctx raw s = (Inr (raw', t), s1)"
    and "(token_step hmac cfg)\<^sup>*\<^sup>* s1 s2"
  shows "families_inv s2 \<and>
    (\<exists>s3. rotate_refresh hmac cfg env' ctx' raw s2 =
        (Inl (AppThrown (unauthorized_error ''Session has been revoked, please log in again'')), s3) \<and>
      (\<forall>u \<in> set (refreshTokens s3). rt_familyId u = rt_familyId t \<longrightarrow> \<not> live_token u))"
proof -
  have "token_step hmac cfg s s1" using token_step.Present [of hmac cfg s env ctx raw] assms(2) by simp
  then have inv: "families_inv s2" using token_steps_inv [OF assms(3)] token_step_inv assms(1) by blast
  have "revoked_in s2 (refreshHash hmac cfg raw) (rt_familyId t)"
    using token_steps_revoked [OF assms(3)] rotate_revokes_presented [OF assms(1,2)] by blast
  then obtain e where e: "e \<in> set (refreshTokens s2)" "rt_tokenHash e = refreshHash hmac cfg raw"
    "rt_familyId e = rt_familyId t" "rt_revokedAt e \<noteq> None"
    by (auto simp: revoked_in_def)
  have "token_by_hash (refreshHash hmac cfg raw) s2 = Some e"
    using find_key [of rt_tokenHash "refreshTokens s2" e] inv e by (simp add: token_by_hash_def families_inv_def)
  then have res: "rotate_refresh hmac cfg env' ctx' raw s2 = rotate_found hmac cfg env' ctx' e s2"
    by (simp add: rotate_refresh_def seq_reads)
  have dead: "\<not> live_token u"
    if "u \<in> set (update_rows (\<lambda>x. rt_familyId x = rt_familyId e \<and> rt_revokedAt x = None)
        (\<lambda>x. x\<lparr>rt_revokedAt := Some (pe_now env')\<rparr>) (refreshTokens s2))" "rt_familyId u = rt_familyId t" for u
    using that e(3) by (auto simp: update_rows_def live_token_def split: if_splits)
  show ?thesis
    using inv dead e(4) unfolding res rotate_found_result [OF e(1)] by auto
qed

definition toy_hmac :: hmac where
  "toy_hmac secret text' = [length text' mod 256]"

definition sample_token_env :: "nat \<Rightarrow> pass_env" where
  "sample_token_env n =
     \<lparr>pe_now = 1000, pe_randomBytes = (\<lambda>_ _. replicate n 1), pe_decimalToString = (\<lambda>_. '''')\<rparr>"

definition sample_context :: request_context where
  "sample_context = \<lparr>rc_ip = ''203.0.113.9'', rc_userAgent = None\<rparr>"

definition sample_session :: store where
  "sample_session =
     snd (issue_refresh toy_hmac sample_config (sample_token_env 20) ''usr_1'' None sample_context empty_store)"

theorem refresh_token_reuse_witness:
  "\<exists>t s1. rotate_refresh toy_hmac sample_config (sample_token_env 22) sample_context
       (randomToken (sample_token_env 20) ''refresh'') sample_session = (Inr t, s1) \<and>
     (\<forall>u \<in> set (refreshTokens (snd (rotate_refresh toy_hmac sample_config (sample_token_env 24) sample_context
         (randomToken (sample_token_env 20) ''refresh'') s1))).
       rt_familyId u = rt_familyId (snd t) \<longrightarrow> \<not> live_token u)"
proof -
  let ?r = "rotate_refresh toy_hmac sample_config (sample_token_env 22) sample_context
       (randomToken (sample_token_env 20) ''refresh'') sample_session"
  have "case fst ?r of Inl e \<Rightarrow> False | Inr x \<Rightarrow> True" by code_simp
  then obtain raw t s1 where r: "?r = (Inr (raw, t), s1)" by (cases ?r) (auto split: sum.splits)
  have "length (refreshTokens sample_session) = 1" by code_simp
  then obtain u where "refreshTokens sample_session = [u]" by (auto simp: length_Suc_conv)
  then have inv: "families_inv sample_session" by (simp add: families_inv_def)
  show ?thesis
    using refresh_token_reuse [OF inv r rtranclp.rtrancl_refl, where env' = "sample_token_env 24" and ctx' = sample_context] r
    by auto
qed

text \<open>Rotation reads the presented token first and revokes it last. When a second request
  with the same token has read it before the first one revoked it, both return a new token,
  and the family has two live ones: neither is detected as a reuse later.\<close>

theorem parallel_refresh_forks_session:
  assumes "existing \<in> set (refreshTokens s)" and "live_token existing"
    and "\<not> rt_expiresAt existing < pe_now env" and "\<not> rt_expiresAt existing < pe_now env'"
    and "rotate_found hmac cfg env ctx existing s = (Inr (raw1, t1), s1)"
    and "rotate_found hmac cfg env' ctx' existing s1 = (Inr (raw2, t2), s2)"
  shows "{t1, t2} \<subseteq> set (refreshTokens s2) \<and> live_token t1 \<and> live_token t2 \<and> rt_id t1 \<noteq> rt_id t2 \<and>
    rt_familyId t1 = rt_familyId existing \<and> rt_familyId t2 = rt_familyId existing"
proof -
  have alive: "rt_revokedAt existing = None" using assms(2) by (simp add: live_token_def)
  let ?w = "\<lambda>env t u. u\<lparr>rt_revokedAt := Some (pe_now env), rt_replacedById := Some (rt_id t)\<rparr>"
  have s1: "\<not> list_ex (refresh_clash t1) (refreshTokens s)"
    "refreshTokens s1 = update_rows (\<lambda>u. rt_id u = rt_id existing) (?w env t1) (refreshTokens s) @ [t1]"
    "rt_familyId t1 = rt_familyId existing" "rt_revokedAt t1 = None"
    using assms(5) by (simp_all add: rotate_found_result [OF assms(1)] alive assms(3) Let_def split: if_splits) auto
  have ne1: "rt_id t1 \<noteq> rt_id existing"
    using s1(1) assms(1) by (auto simp: list_ex_iff refresh_clash_def)
  have found: "list_ex (\<lambda>t. rt_id t = rt_id existing) (refreshTokens s1 @ [t])" for t
  proof -
    have "rt_id existing \<in> set (map rt_id (refreshTokens s1))"
      unfolding s1(2) map_append using assms(1) by (simp add: map_update_rows del: set_map) simp
    then show ?thesis by (auto simp: list_ex_iff)
  qed
  have s2: "\<not> list_ex (refresh_clash t2) (refreshTokens s1)" "t2 \<in> set (refreshTokens s2)"
    "t1 \<in> set (refreshTokens s2)" "rt_familyId t2 = rt_familyId existing" "rt_revokedAt t2 = None"
  proof -
    have t2: "t2 = new_refresh_token hmac cfg env' (rt_userId existing) (rt_familyId existing) ctx'"
      "\<not> list_ex (refresh_clash t2) (refreshTokens s1)"
      "refreshTokens s2 = update_rows (\<lambda>u. rt_id u = rt_id existing) (?w env' t2) (refreshTokens s1 @ [t2])"
      using assms(6) found
      by (simp_all add: rotate_found_def issue_refresh_result alive assms(4) Let_def seq_def ret_def update_row_def
          split: if_splits) auto
    have "rt_id existing \<in> set (map rt_id (refreshTokens s1))"
      unfolding s1(2) map_append using assms(1) by (simp add: map_update_rows del: set_map) simp
    then have "rt_id t2 \<noteq> rt_id existing"
      using t2(2) by (auto simp: list_ex_iff refresh_clash_def)
    then have keep: "u \<in> set (refreshTokens s1 @ [t2]) \<Longrightarrow> rt_id u \<noteq> rt_id existing \<Longrightarrow> u \<in> set (refreshTokens s2)" for u
      unfolding t2(3) set_update_rows by force
    show "\<not> list_ex (refresh_clash t2) (refreshTokens s1)" by (rule t2(2))
    show "t2 \<in> set (refreshTokens s2)" using keep [of t2] \<open>rt_id t2 \<noteq> rt_id existing\<close> by simp
    show "t1 \<in> set (refreshTokens s2)" using keep [of t1] ne1 by (simp add: s1(2))
    show "rt_familyId t2 = rt_familyId existing" "rt_revokedAt t2 = None" by (simp_all add: t2(1))
  qed
  have "rt_id t1 \<noteq> rt_id t2" using s2(1) by (auto simp: s1(2) list_ex_iff refresh_clash_def)
  then show ?thesis using s1 s2 by (simp add: live_token_def)
qed

theorem parallel_refresh_forks_session_witness:
  "\<exists>e t1 t2 (s2 :: store). refreshTokens sample_session = [e] \<and> {t1, t2} \<subseteq> set (refreshTokens s2) \<and>
     live_token t1 \<and> live_token t2 \<and> rt_id t1 \<noteq> rt_id t2 \<and> rt_familyId t1 = rt_familyId t2"
proof -
  have len: "length (refreshTokens sample_session) = 1" by code_simp
  then obtain e where e: "refreshTokens sample_session = [e]" by (auto simp: length_Suc_conv)
  have "list_all (\<lambda>t. rt_revokedAt t = None \<and> 1000 < rt_expiresAt t) (refreshTokens sample_session)" by code_simp
  then have live: "live_token e" "\<not> rt_expiresAt e < pe_now (sample_token_env n)" for n
    using e by (simp_all add: live_token_def sample_token_env_def)
  let ?r1 = "\<lambda>e. rotate_found toy_hmac sample_config (sample_token_env 22) sample_context e sample_session"
  let ?r2 = "\<lambda>e. rotate_found toy_hmac sample_config (sample_token_env 24) sample_context e (snd (?r1 e))"
  have "case fst (?r1 (hd (refreshTokens sample_session))) of Inl e \<Rightarrow> False | Inr x \<Rightarrow> True" by code_simp
  then obtain raw1 t1 s1 where r1: "?r1 e = (Inr (raw1, t1), s1)"
    using e by (cases "?r1 e") (auto split: sum.splits)
  have "case fst (?r2 (hd (refreshTokens sample_session))) of Inl e \<Rightarrow> False | Inr x \<Rightarrow> True" by code_simp
  then obtain raw2 t2 s2 where r2: "?r2 e = (Inr (raw2, t2), s2)"
    using e by (cases "?r2 e") (auto split: sum.splits)
  have mem: "e \<in> set (refreshTokens sample_session)" by (simp add: e)
  have "rotate_found toy_hmac sample_config (sample_token_env 24) sample_context e s1 = (Inr (raw2, t2), s2)"
    using r1 r2 by simp
  from parallel_refresh_forks_session [OF mem live(1) live(2) live(2) r1 this] e
  have "refreshTokens sample_session = [e] \<and> {t1, t2} \<subseteq> set (refreshTokens s2) \<and>
     live_token t1 \<and> live_token t2 \<and> rt_id t1 \<noteq> rt_id t2 \<and> rt_familyId t1 = rt_familyId t2" by simp
  then show ?thesis by blast
qed

end
