(* ===== verification/Auth_Service.thy ===== *)
theory Auth_Service
  imports Auth_Tokens
begin

text \<open>
  Accounts: \<open>auth/auth.service.ts\<close> (registration, login with lockout and second factor,
  token refresh, logout, two-factor setup), \<open>auth/totp.service.ts\<close> and
  \<open>packages/crypto/src/password.ts\<close>. Argon2 and the TOTP library are parameters. Logging is
  left out.
\<close>

section \<open>The libraries\<close>

text \<open>\<open>argon2.verify\<close> may throw (nothing); \<open>totp.validate\<close> answers with the time step's
  offset or null (nothing).\<close>

record auth_world =
  aw_hmac :: hmac
  aw_jwt :: jwt
  aw_aead :: aead
  aw_argonHash :: "string \<Rightarrow> string"
  aw_argonVerify :: "string \<Rightarrow> string \<Rightarrow> bool option"
  aw_totpValidate :: "string \<Rightarrow> nat \<Rightarrow> string \<Rightarrow> millis \<Rightarrow> int option"
  aw_base32 :: "nat list \<Rightarrow> string"
  aw_otpauthUrl :: "string \<Rightarrow> string \<Rightarrow> string"

definition verifyPassword :: "auth_world \<Rightarrow> string \<Rightarrow> string \<Rightarrow> bool" where
  "verifyPassword w hash password =
     (case aw_argonVerify w hash password of Some b \<Rightarrow> b | None \<Rightarrow> False)"

definition TOTP_WINDOW :: nat where
  "TOTP_WINDOW = 1"

definition totp_verify :: "auth_world \<Rightarrow> millis \<Rightarrow> string \<Rightarrow> string \<Rightarrow> bool" where
  "totp_verify w now secretBase32 code = (aw_totpValidate w secretBase32 TOTP_WINDOW code now \<noteq> None)"

section \<open>Accounts\<close>

definition user_by_email :: "string \<Rightarrow> store \<Rightarrow> user option" where
  "user_by_email email s = find (\<lambda>u. usr_email u = email) (users s)"

definition user_by_id :: "ident \<Rightarrow> store \<Rightarrow> user option" where
  "user_by_id i s = find (\<lambda>u. usr_id u = i) (users s)"

definition update_user :: "ident \<Rightarrow> (user \<Rightarrow> user) \<Rightarrow> unit db_op" where
  "update_user i f = update_row users users_update (\<lambda>u. usr_id u = i) f"

text \<open>The audit entry of an account's own action: no organization.\<close>

definition account_audit :: "ident \<Rightarrow> string \<Rightarrow> request_context \<Rightarrow> audit_log" where
  "account_audit userId action ctx =
     \<lparr>aud_organizationId = None, aud_actorId = Some userId, aud_actorType = ''user'', aud_action = action,
      aud_resourceType = ''user'', aud_resourceId = Some userId, aud_ip = Some (rc_ip ctx),
      aud_userAgent = rc_userAgent ctx, aud_metadata = None\<rparr>"

definition register ::
    "auth_world \<Rightarrow> api_config \<Rightarrow> pass_env \<Rightarrow> string \<Rightarrow> string \<Rightarrow> request_context \<Rightarrow> unit db_op" where
  "register w cfg env email password ctx =
     seq (reads (user_by_email email)) (\<lambda>existing.
     if existing \<noteq> None then ret ()
     else
       (let u = \<lparr>usr_id = newId env ''c'' ''user'', usr_email = email, usr_status = PENDING_VERIFICATION,
                 usr_passwordHash = aw_argonHash w password, usr_emailVerifiedAt = None,
                 usr_twoFactorEnabled = False, usr_twoFactorSecretEnc = None,
                 usr_failedLoginAttempts = 0, usr_lockedUntil = None, usr_lastLoginAt = None\<rparr>
        in seq (create_row users users_update user_clash u) (\<lambda>_.
           seq (issue_email_token (aw_hmac w) cfg env (usr_id u)) (\<lambda>_.
           audit_record (account_audit (usr_id u) ''user.register'' ctx)))))"

definition verifyEmail :: "auth_world \<Rightarrow> api_config \<Rightarrow> pass_env \<Rightarrow> string \<Rightarrow> unit db_op" where
  "verifyEmail w cfg env raw = seq (consume_email_token (aw_hmac w) cfg env raw) (\<lambda>_. ret ())"

section \<open>Login\<close>

definition FAILED_LOGIN_LOCK_THRESHOLD :: int where
  "FAILED_LOGIN_LOCK_THRESHOLD = 5"

definition FAILED_LOGIN_LOCK_DURATION_MS :: int where
  "FAILED_LOGIN_LOCK_DURATION_MS = 15 * 60 * 1000"

definition failed_login :: "millis \<Rightarrow> user \<Rightarrow> user \<Rightarrow> user" where
  "failed_login now user r =
     (let attempts = usr_failedLoginAttempts user + 1
      in if attempts \<ge> FAILED_LOGIN_LOCK_THRESHOLD
         then r\<lparr>usr_failedLoginAttempts := attempts,
                usr_lockedUntil := Some (now + FAILED_LOGIN_LOCK_DURATION_MS), usr_status := LOCKED\<rparr>
         else r\<lparr>usr_failedLoginAttempts := attempts\<rparr>)"

definition registerFailedLogin :: "pass_env \<Rightarrow> user \<Rightarrow> unit db_op" where
  "registerFailedLogin env user = update_user (usr_id user) (failed_login (pe_now env) user)"

definition reject_login :: "string \<Rightarrow> 'a db_op" where
  "reject_login message = throw (AppThrown (unauthorized_error message))"

record auth_tokens =
  at_accessToken :: string
  at_refreshToken :: string

text \<open>The second factor, where the account has one.\<close>

definition check_second_factor :: "auth_world \<Rightarrow> api_config \<Rightarrow> pass_env \<Rightarrow> user \<Rightarrow> string option \<Rightarrow> unit db_op" where
  "check_second_factor w cfg env user totpCode =
     (if \<not> usr_twoFactorEnabled user then ret ()
      else
        (case (truthy totpCode, truthy (usr_twoFactorSecretEnc user)) of
           (None, _) \<Rightarrow> reject_login ''Two-factor authentication code required''
         | (Some code, None) \<Rightarrow>
             throw (AppThrown (internal_error ''Two-factor is enabled but no secret is configured'' None))
         | (Some code, Some enc) \<Rightarrow>
             seq (lift (decryptSecret (aw_aead w) enc (cfg_encryptionKey cfg))) (\<lambda>secret.
             if totp_verify w (pe_now env) secret code then ret ()
             else seq (registerFailedLogin env user) (\<lambda>_. reject_login ''Invalid two-factor code''))))"

definition logged_in :: "millis \<Rightarrow> user \<Rightarrow> user" where
  "logged_in now u = u\<lparr>usr_failedLoginAttempts := 0, usr_lockedUntil := None, usr_status := ACTIVE,
     usr_lastLoginAt := Some now\<rparr>"

definition open_session ::
    "auth_world \<Rightarrow> api_config \<Rightarrow> pass_env \<Rightarrow> user \<Rightarrow> request_context \<Rightarrow> auth_tokens db_op" where
  "open_session w cfg env user ctx =
     seq (update_user (usr_id user) (logged_in (pe_now env))) (\<lambda>_.
     seq (issue_refresh (aw_hmac w) cfg env (usr_id user) None ctx) (\<lambda>issued.
     seq (audit_record (account_audit (usr_id user) ''user.login'' ctx)) (\<lambda>_.
     ret \<lparr>at_accessToken = sign_access_token (aw_jwt w) cfg (pe_now env) (usr_id user),
          at_refreshToken = fst issued\<rparr>)))"

definition login ::
    "auth_world \<Rightarrow> api_config \<Rightarrow> pass_env \<Rightarrow> login_input \<Rightarrow> request_context \<Rightarrow> auth_tokens db_op" where
  "login w cfg env input ctx =
     seq (reads (user_by_email (li_email input))) (\<lambda>found.
     case found of
       None \<Rightarrow> reject_login ''Invalid email or password''
     | Some user \<Rightarrow>
         if usr_status user = SUSPENDED then reject_login ''Account is suspended''
         else if (case usr_lockedUntil user of Some t \<Rightarrow> t > pe_now env | None \<Rightarrow> False)
         then reject_login ''Account temporarily locked due to repeated failed logins''
         else if \<not> verifyPassword w (usr_passwordHash user) (li_password input)
         then seq (registerFailedLogin env user) (\<lambda>_. reject_login ''Invalid email or password'')
         else if usr_emailVerifiedAt user = None
         then reject_login ''Please verify your email before logging in''
         else seq (check_second_factor w cfg env user (li_totpCode input)) (\<lambda>_.
              open_session w cfg env user ctx))"

definition refresh ::
    "auth_world \<Rightarrow> api_config \<Rightarrow> pass_env \<Rightarrow> string \<Rightarrow> request_context \<Rightarrow> auth_tokens db_op" where
  "refresh w cfg env raw ctx =
     seq (rotate_refresh (aw_hmac w) cfg env ctx raw) (\<lambda>rotated.
     ret \<lparr>at_accessToken = sign_access_token (aw_jwt w) cfg (pe_now env) (rt_userId (snd rotated)),
          at_refreshToken = fst rotated\<rparr>)"

definition logout :: "auth_world \<Rightarrow> api_config \<Rightarrow> pass_env \<Rightarrow> string option \<Rightarrow> unit db_op" where
  "logout w cfg env raw =
     (case truthy raw of None \<Rightarrow> ret () | Some t \<Rightarrow> revokeByRawToken (aw_hmac w) cfg env t)"

section \<open>Two-factor setup\<close>

definition requireUser :: "ident \<Rightarrow> user db_op" where
  "requireUser userId =
     seq (reads (user_by_id userId)) (\<lambda>found.
     case found of None \<Rightarrow> throw (AppThrown (unauthorized_error ''User not found'')) | Some u \<Rightarrow> ret u)"

definition enableTwoFactor :: "auth_world \<Rightarrow> api_config \<Rightarrow> pass_env \<Rightarrow> ident \<Rightarrow> (string \<times> string) db_op" where
  "enableTwoFactor w cfg env userId =
     seq (requireUser userId) (\<lambda>user.
     let secretBase32 = aw_base32 w (pe_randomBytes env ''totp'' ''secret'');
         otpauthUrl = aw_otpauthUrl w (usr_email user) secretBase32
     in seq (lift (encryptSecret (aw_aead w) (pe_randomBytes env ''iv'' ''totp'') secretBase32 (cfg_encryptionKey cfg))) (\<lambda>encrypted.
        seq (update_user userId (\<lambda>u. u\<lparr>usr_twoFactorSecretEnc := Some encrypted, usr_twoFactorEnabled := False\<rparr>)) (\<lambda>_.
        ret (secretBase32, otpauthUrl))))"

definition confirmTwoFactor :: "auth_world \<Rightarrow> api_config \<Rightarrow> pass_env \<Rightarrow> ident \<Rightarrow> string \<Rightarrow> unit db_op" where
  "confirmTwoFactor w cfg env userId code =
     seq (requireUser userId) (\<lambda>user.
     case truthy (usr_twoFactorSecretEnc user) of
       None \<Rightarrow> throw (AppThrown (validation_error ''Two-factor setup was not started'' None))
     | Some enc \<Rightarrow>
         seq (lift (decryptSecret (aw_aead w) enc (cfg_encryptionKey cfg))) (\<lambda>secret.
         if totp_verify w (pe_now env) secret code
         then update_user userId (\<lambda>u. u\<lparr>usr_twoFactorEnabled := True\<rparr>)
         else throw (AppThrown (validation_error ''Invalid two-factor code'' None))))"

section \<open>Who gets in\<close>

definition may_log_in :: "auth_world \<Rightarrow> api_config \<Rightarrow> millis \<Rightarrow> user \<Rightarrow> login_input \<Rightarrow> bool" where
  "may_log_in w cfg now user input \<longleftrightarrow>
     usr_status user \<noteq> SUSPENDED \<and>
     (case usr_lockedUntil user of Some t \<Rightarrow> t \<le> now | None \<Rightarrow> True) \<and>
     aw_argonVerify w (usr_passwordHash user) (li_password input) = Some True \<and>
     usr_emailVerifiedAt user \<noteq> None \<and>
     (usr_twoFactorEnabled user \<longrightarrow>
        (\<exists>code enc secret. li_totpCode input = Some code \<and> code \<noteq> [] \<and>
           usr_twoFactorSecretEnc user = Some enc \<and>
           decryptSecret (aw_aead w) enc (cfg_encryptionKey cfg) = Inr secret \<and>
           aw_totpValidate w secret 1 code now \<noteq> None))"

lemma check_second_factor_returns:
  "check_second_factor w cfg env user totpCode s = (Inr x, s') \<Longrightarrow>
   s' = s \<and> (usr_twoFactorEnabled user \<longrightarrow>
     (\<exists>code enc secret. totpCode = Some code \<and> code \<noteq> [] \<and> usr_twoFactorSecretEnc user = Some enc \<and>
        decryptSecret (aw_aead w) enc (cfg_encryptionKey cfg) = Inr secret \<and>
        aw_totpValidate w secret 1 code (pe_now env) \<noteq> None))"
  by (auto simp: check_second_factor_def reject_login_def eff_defs totp_verify_def TOTP_WINDOW_def truthy_def
      split: if_splits option.splits list.splits sum.splits prod.splits)

lemma issue_refresh_users: "users (snd (issue_refresh hmac cfg env i f ctx s)) = users s"
  by (simp add: issue_refresh_result Let_def)

text \<open>C21. A login that returns tokens was for an account that is not suspended and not locked,
  with the right password, a verified e-mail address and, where two-factor authentication is on,
  a code that the stored secret validates; it resets the account's failure counter and lock and
  changes no other account.\<close>

theorem login_only_when_entitled:
  assumes "login w cfg env input ctx s = (Inr tokens, s')"
  shows "\<exists>user. user_by_email (li_email input) s = Some user \<and> may_log_in w cfg (pe_now env) user input \<and>
    users s' = update_rows (\<lambda>u. usr_id u = usr_id user) (logged_in (pe_now env)) (users s) \<and>
    at_accessToken tokens = sign_access_token (aw_jwt w) cfg (pe_now env) (usr_id user)"
proof -
  obtain user where user: "user_by_email (li_email input) s = Some user"
    using assms by (auto simp: login_def seq_reads reject_login_def throw_def split: option.splits)
  have rest: "seq (check_second_factor w cfg env user (li_totpCode input)) (\<lambda>_. open_session w cfg env user ctx) s
      = (Inr tokens, s')"
    and entitled: "usr_status user \<noteq> SUSPENDED" "\<not> (case usr_lockedUntil user of Some t \<Rightarrow> t > pe_now env | None \<Rightarrow> False)"
      "verifyPassword w (usr_passwordHash user) (li_password input)" "usr_emailVerifiedAt user \<noteq> None"
    using assms user
    by (auto simp: login_def seq_reads reject_login_def throw_def seq_eq_Inr split: if_splits)
  obtain x t where factor: "check_second_factor w cfg env user (li_totpCode input) s = (Inr x, t)"
    and opened: "open_session w cfg env user ctx t = (Inr tokens, s')"
    using rest by (auto simp: seq_eq_Inr)
  note f = check_second_factor_returns [OF factor]
  have "users s' = update_rows (\<lambda>u. usr_id u = usr_id user) (logged_in (pe_now env)) (users s) \<and>
      at_accessToken tokens = sign_access_token (aw_jwt w) cfg (pe_now env) (usr_id user)"
  proof -
    obtain t1 t2 iss where steps: "update_user (usr_id user) (logged_in (pe_now env)) s = (Inr (), t1)"
      "issue_refresh (aw_hmac w) cfg env (usr_id user) None ctx t1 = (Inr iss, t2)"
      "s' = auditLogs_update (\<lambda>l. l @ [account_audit (usr_id user) ''user.login'' ctx]) t2"
      "at_accessToken tokens = sign_access_token (aw_jwt w) cfg (pe_now env) (usr_id user)"
      using opened f by (auto simp: open_session_def seq_eq_Inr audit_record_def modify_def ret_def)
    have "users t1 = update_rows (\<lambda>u. usr_id u = usr_id user) (logged_in (pe_now env)) (users s)"
      using steps(1) by (simp add: update_user_def user_tbl.rows_after_update)
    moreover have "users t2 = users t1" using issue_refresh_users steps(2) by (metis snd_conv)
    ultimately show ?thesis using steps by simp
  qed
  moreover have "may_log_in w cfg (pe_now env) user input"
    using entitled f by (auto simp: may_log_in_def verifyPassword_def split: option.splits)
  ultimately show ?thesis using user by blast
qed

section \<open>A sample account\<close>

definition sample_auth :: auth_world where
  "sample_auth =
     \<lparr>aw_hmac = toy_hmac, aw_jwt = sample_jwt,
      aw_aead = \<lparr>aead_seal = (\<lambda>_ _ p. (p, replicate 16 0)), aead_open = (\<lambda>_ _ _ c. Some c)\<rparr>,
      aw_argonHash = (\<lambda>p. p), aw_argonVerify = (\<lambda>h p. Some (h = p)),
      aw_totpValidate = (\<lambda>_ _ code _. if code = ''123456'' then Some 0 else None),
      aw_base32 = (\<lambda>_. ''SECRET''), aw_otpauthUrl = (\<lambda>l s. l @ s)\<rparr>"

definition sample_user :: "int \<Rightarrow> user" where
  "sample_user failures =
     \<lparr>usr_id = ''usr_1'', usr_email = ''a@b.example'', usr_status = ACTIVE, usr_passwordHash = ''pass123456'',
      usr_emailVerifiedAt = Some 0, usr_twoFactorEnabled = False, usr_twoFactorSecretEnc = None,
      usr_failedLoginAttempts = failures, usr_lockedUntil = None, usr_lastLoginAt = None\<rparr>"

definition sample_accounts :: "int \<Rightarrow> store" where
  "sample_accounts failures = empty_store\<lparr>users := [sample_user failures]\<rparr>"

definition sample_login :: "string \<Rightarrow> login_input" where
  "sample_login password = \<lparr>li_email = ''a@b.example'', li_password = password, li_totpCode = None\<rparr>"

lemma sample_user_found: "user_by_email (li_email (sample_login p)) (sample_accounts n) = Some (sample_user n)"
  by (simp add: user_by_email_def sample_login_def sample_accounts_def sample_user_def)

theorem login_only_when_entitled_witness:
  "\<exists>tokens. fst (login sample_auth sample_config (sample_token_env 20) (sample_login ''pass123456'') sample_context
      (sample_accounts 3)) = Inr tokens \<and>
     may_log_in sample_auth sample_config 1000 (sample_user 3) (sample_login ''pass123456'')"
proof -
  let ?l = "login sample_auth sample_config (sample_token_env 20) (sample_login ''pass123456'') sample_context (sample_accounts 3)"
  have "case fst ?l of Inl e \<Rightarrow> False | Inr x \<Rightarrow> True" by code_simp
  then obtain tokens s' where l: "?l = (Inr tokens, s')" by (cases ?l) (auto split: sum.splits)
  have "pe_now (sample_token_env 20) = 1000" by (simp add: sample_token_env_def)
  with login_only_when_entitled [OF l] l show ?thesis by (auto simp: sample_user_found)
qed

section \<open>Lockout\<close>



end
