(* ===== verification/Organizations.thy ===== *)
theory Organizations
  imports Auth_Service
begin

text \<open>
  Organizations and their members (\<open>organizations/organizations.service.ts\<close>): the slug of
  a name, creation with a bounded search for a free slug, updates, and invitations.
\<close>

section \<open>Slugs\<close>

text \<open>\<open>replace(/[^a-z0-9]+/g, '-')\<close>: a run of other characters becomes one hyphen.\<close>

fun hyphenate :: "string \<Rightarrow> string" where
  "hyphenate [] = []"
| "hyphenate (c # s) =
     (if is_slug_char c then c # hyphenate s
      else (case s of
              d # _ \<Rightarrow> if is_slug_char d then CHR ''-'' # hyphenate s else hyphenate s
            | [] \<Rightarrow> [CHR ''-'']))"

text \<open>\<open>replace(/^-+|-+$/g, '')\<close>.\<close>

definition strip_hyphens :: "string \<Rightarrow> string" where
  "strip_hyphens s =
     (let p = (\<lambda>c. c = CHR ''-'') in rev (dropWhile p (rev (dropWhile p s))))"

definition slugify :: "string \<Rightarrow> string" where
  "slugify name =
     (let s = strip_hyphens (hyphenate (trim (to_lower name))) in if s = [] then ''org'' else s)"

text \<open>No two hyphens meet.\<close>

fun no_double :: "string \<Rightarrow> bool" where
  "no_double (c # d # s) \<longleftrightarrow> \<not> (c = CHR ''-'' \<and> d = CHR ''-'') \<and> no_double (d # s)"
| "no_double _ \<longleftrightarrow> True"

lemma hyphen_no_slug_char: "\<not> is_slug_char (CHR ''-'')"
  by code_simp

lemma hyphenate_chars: "c \<in> set (hyphenate s) \<Longrightarrow> is_slug_char c \<or> c = CHR ''-''"
  by (induction s rule: hyphenate.induct) (auto split: if_splits list.splits)

lemma hyphenate_no_double:
  "no_double (hyphenate s) \<and> (\<forall>c r. s = c # r \<and> is_slug_char c \<longrightarrow> hyphenate s = c # hyphenate r)"
proof (induction s rule: hyphenate.induct)
  case 1
  then show ?case by simp
next
  case (2 c s)
  have single: "no_double (x # t) \<longleftrightarrow> x \<noteq> CHR ''-'' \<and> no_double t \<or> t = [] \<or> (hd t \<noteq> CHR ''-'' \<and> no_double t)" for x t
    by (cases t) auto
  show ?case
  proof (cases "is_slug_char c")
    case True
    then have "c \<noteq> CHR ''-''" using hyphen_no_slug_char by auto
    then show ?thesis using 2(1) True single [of c "hyphenate s"] by simp
  next
    case False
    then show ?thesis
    proof (cases s)
      case Nil
      then show ?thesis using False by simp
    next
      case (Cons d r)
      show ?thesis
      proof (cases "is_slug_char d")
        case True
        then have "hyphenate s = d # hyphenate r" "d \<noteq> CHR ''-''" using hyphen_no_slug_char by (auto simp: Cons)
        moreover have "no_double (hyphenate s)" using 2(2) [OF False Cons True] by simp
        ultimately show ?thesis using False True single [of "CHR ''-''" "hyphenate s"] by (simp add: Cons)
      next
        case no: False
        then show ?thesis using 2(3) [OF False Cons no] False by (simp add: Cons)
      qed
    qed
  qed
qed

lemma no_double_suffix: "no_double (t @ s) \<Longrightarrow> no_double s"
proof (induction t)
  case (Cons c t)
  then show ?case by (cases "t @ s") auto
qed simp

lemma no_double_prefix: "no_double (s @ t) \<Longrightarrow> no_double s"
proof (induction s)
  case (Cons c s)
  then show ?case by (cases s) auto
qed simp

lemma dropWhile_parts: "\<exists>t. s = t @ dropWhile p s"
  by (metis takeWhile_dropWhile_id)

lemma slug_shape:
  assumes "s \<noteq> []" "\<forall>c \<in> set s. is_slug_char c \<or> c = CHR ''-''" "no_double s"
    "hd s \<noteq> CHR ''-''" "last s \<noteq> CHR ''-''"
  shows "slugPattern s"
  using assms
proof (induction s rule: slugPattern.induct)
  case 1
  then show ?case by simp
next
  case (2 c)
  then show ?case by auto
next
  case (3 c d s)
  have c: "is_slug_char c" using 3(4,6) by auto
  show ?case
  proof (cases "d = CHR ''-''")
    case True
    have s: "s \<noteq> []" using 3(7) True by auto
    then have "hd s \<noteq> CHR ''-''" using 3(5) True by (cases s) auto
    moreover have "no_double s" using 3(5) no_double_suffix [of "[c, d]" s] by simp
    ultimately have "slugPattern s" using 3(1) True 3(4,7) s by simp
    then show ?thesis using True c by simp
  next
    case False
    have "slugPattern (d # s)" using 3(2) [OF False] 3(4,5,7) False by simp
    then show ?thesis using False c by simp
  qed
qed

lemma hd_after_drop: "dropWhile (\<lambda>c. c = x) t \<noteq> [] \<Longrightarrow> hd (dropWhile (\<lambda>c. c = x) t) \<noteq> x"
  by (induction t) auto

text \<open>The slug made of any name is one the update schema accepts: groups of lower-case
  letters and digits, separated by single hyphens, none at the ends, and never empty.\<close>

theorem slugify_matches_pattern: "slugPattern (slugify name)"
proof -
  let ?p = "\<lambda>c. c = CHR ''-''" and ?h = "hyphenate (trim (to_lower name))"
  let ?d = "dropWhile ?p ?h"
  let ?s = "rev (dropWhile ?p (rev ?d))"
  have org: "slugPattern ''org''" by code_simp
  obtain t where t: "?h = t @ ?d" using dropWhile_parts by blast
  obtain u where u: "rev ?d = u @ dropWhile ?p (rev ?d)" using dropWhile_parts by blast
  then have d: "?d = ?s @ rev u" by (metis rev_append rev_rev_ident)
  have nd: "no_double ?s"
  proof (rule no_double_prefix [of _ "rev u"], rule no_double_suffix [of t])
    have "no_double ?h" using hyphenate_no_double by blast
    then show "no_double (t @ ?s @ rev u)" unfolding d [symmetric] t [symmetric] .
  qed
  have sub: "set ?s \<subseteq> set ?h" 
    using set_dropWhileD [of _ ?p "rev ?d"] set_dropWhileD [of _ ?p ?h] by (metis set_rev subsetI)
  have "slugPattern ?s" if ne: "?s \<noteq> []"
  proof (rule slug_shape [OF ne _ nd])
    show "\<forall>c \<in> set ?s. is_slug_char c \<or> c = CHR ''-''"
    proof
      fix c
      assume "c \<in> set ?s"
      with sub have "c \<in> set ?h" by (rule subsetD)
      then show "is_slug_char c \<or> c = CHR ''-''" by (rule hyphenate_chars)
    qed
    have "?d \<noteq> []" using ne by (rule contrapos_nn) (simp del: dropWhile_eq_Nil_conv)
    then have "hd ?d \<noteq> CHR ''-''" by (rule hd_after_drop)
    moreover have "hd ?d = hd (?s @ rev u)" by (rule arg_cong [OF d])
    ultimately show "hd ?s \<noteq> CHR ''-''" by (simp only: hd_append2 [OF ne, of "rev u"] not_False_eq_True)
    have "dropWhile ?p (rev ?d) \<noteq> []" using ne by (rule contrapos_nn) (simp del: dropWhile_eq_Nil_conv)
    then have "hd (dropWhile ?p (rev ?d)) \<noteq> CHR ''-''" by (rule hd_after_drop)
    then show "last ?s \<noteq> CHR ''-''" by (simp only: last_rev not_False_eq_True)
  qed
  then show ?thesis using org by (auto simp: slugify_def strip_hyphens_def Let_def)
qed

section \<open>Creating an organization\<close>

definition organization_by_slug :: "string \<Rightarrow> store \<Rightarrow> organization option" where
  "organization_by_slug slug s = find (\<lambda>o'. org_slug o' = slug) (organizations s)"

definition MAX_SLUG_TRIES :: nat where
  "MAX_SLUG_TRIES = 5"

text \<open>
  The loop: while the slug is taken, take another suffix; after the sixth the search fails, even
  if that one is free. \<open>suffixes\<close> are the random suffixes in the order they are drawn;
  the recursion is on the number of tries left.
\<close>

fun free_slug :: "string \<Rightarrow> (nat \<Rightarrow> string) \<Rightarrow> nat \<Rightarrow> nat \<Rightarrow> string \<Rightarrow> store \<Rightarrow> thrown + string" where
  "free_slug baseSlug suffixes left suffix slug s =
     (if organization_by_slug slug s = None then Inr slug
      else (case left of
              0 \<Rightarrow> Inl (AppThrown (conflict_error
                     ''Could not generate a unique organization slug, try a different name''))
            | Suc left' \<Rightarrow>
                free_slug baseSlug suffixes left' (suffix + 1) (baseSlug @ ''-'' @ suffixes suffix) s))"

definition new_slug :: "pass_env \<Rightarrow> string \<Rightarrow> store \<Rightarrow> thrown + string" where
  "new_slug env name s =
     (let baseSlug = slugify name
      in free_slug baseSlug (\<lambda>n. hex_encode (pe_randomBytes env ''slug'' (replicate n (CHR ''i''))))
           MAX_SLUG_TRIES 0 baseSlug s)"

definition create_organization ::
    "pass_env \<Rightarrow> ident \<Rightarrow> string \<Rightarrow> request_context \<Rightarrow> organization db_op" where
  "create_organization env userId name ctx =
     seq (reads (new_slug env name)) (\<lambda>found.
     seq (lift found) (\<lambda>slug.
     let o' = \<lparr>org_id = newId env ''c'' ''organization'', org_name = name, org_slug = slug\<rparr>;
         m = \<lparr>mem_id = newId env ''c'' ''membership'', mem_userId = userId, mem_organizationId = org_id o',
              mem_role = OWNER, mem_createdAt = pe_now env\<rparr>
     in seq (transaction [create_row organizations organizations_update organization_clash o',
                          create_row memberships memberships_update membership_clash m]) (\<lambda>_.
        seq (audit_record (audit_entry (org_id o') userId ''user'' ''organization.create''
               ''organization'' (org_id o') None ctx)) (\<lambda>_.
        ret o'))))"

definition organization_by_id :: "ident \<Rightarrow> store \<Rightarrow> organization option" where
  "organization_by_id i s = find (\<lambda>o'. org_id o' = i) (organizations s)"

text \<open>An empty slug in the request is not checked; the schema does not let one through.\<close>

definition update_organization ::
    "ident \<Rightarrow> string option \<Rightarrow> string option \<Rightarrow> ident \<Rightarrow> request_context \<Rightarrow> organization db_op" where
  "update_organization organizationId name slug actorId ctx =
     seq (reads (\<lambda>s. case truthy slug of None \<Rightarrow> None | Some g \<Rightarrow> organization_by_slug g s)) (\<lambda>existing.
     if (case existing of None \<Rightarrow> False | Some o' \<Rightarrow> org_id o' \<noteq> organizationId)
     then throw (AppThrown (conflict_error ''This slug is already taken''))
     else
       seq (update_row organizations organizations_update (\<lambda>o'. org_id o' = organizationId)
              (\<lambda>o'. o'\<lparr>org_name := (case name of None \<Rightarrow> org_name o' | Some n \<Rightarrow> n),
                     org_slug := (case slug of None \<Rightarrow> org_slug o' | Some g \<Rightarrow> g)\<rparr>)) (\<lambda>_.
       seq (reads (organization_by_id organizationId)) (\<lambda>updated.
       seq (audit_record (audit_entry organizationId actorId ''user'' ''organization.update''
              ''organization'' organizationId None ctx)) (\<lambda>_.
       lift (case updated of None \<Rightarrow> Inl (DbThrown RecordNotFound) | Some o' \<Rightarrow> Inr o')))))"

section \<open>Members\<close>

text \<open>A member with the user's id and e-mail address.\<close>

definition listMembers :: "ident \<Rightarrow> store \<Rightarrow> (membership \<times> (ident \<times> string) option) list" where
  "listMembers organizationId s =
     map (\<lambda>m. (m, map_option (\<lambda>u. (usr_id u, usr_email u)) (user_by_id (mem_userId m) s)))
       (sort_key mem_createdAt (filter (\<lambda>m. mem_organizationId m = organizationId) (memberships s)))"

definition role_name :: "membership_role \<Rightarrow> string" where
  "role_name r = (case r of OWNER \<Rightarrow> ''OWNER'' | ADMIN \<Rightarrow> ''ADMIN'' | MEMBER \<Rightarrow> ''MEMBER'')"

definition membership_of :: "ident \<Rightarrow> ident \<Rightarrow> store \<Rightarrow> membership option" where
  "membership_of userId organizationId s =
     find (\<lambda>m. mem_userId m = userId \<and> mem_organizationId m = organizationId) (memberships s)"

definition inviteMember ::
    "pass_env \<Rightarrow> ident \<Rightarrow> string \<Rightarrow> membership_role \<Rightarrow> ident \<Rightarrow> request_context \<Rightarrow> membership db_op" where
  "inviteMember env organizationId email role actorId ctx =
     seq (reads (user_by_email email)) (\<lambda>found.
     case found of
       None \<Rightarrow> throw (AppThrown (forbidden_error ''No CryptoPay account exists for this email yet''))
     | Some user \<Rightarrow>
         seq (reads (membership_of (usr_id user) organizationId)) (\<lambda>existing.
         seq (case existing of
                None \<Rightarrow>
                  (let m = \<lparr>mem_id = newId env ''c'' ''membership'', mem_userId = usr_id user,
                            mem_organizationId = organizationId, mem_role = role, mem_createdAt = pe_now env\<rparr>
                   in seq (create_row memberships memberships_update membership_clash m) (\<lambda>_. ret m))
              | Some m \<Rightarrow>
                  seq (update_row memberships memberships_update (\<lambda>r. mem_id r = mem_id m) (\<lambda>r. r\<lparr>mem_role := role\<rparr>))
                    (\<lambda>_. ret (m\<lparr>mem_role := role\<rparr>))) (\<lambda>m.
         seq (audit_record (audit_entry organizationId actorId ''user'' ''membership.invite'' ''membership''
                (mem_id m) (Some [(''invitedEmail'', JStr email), (''role'', JStr (role_name role))]) ctx)) (\<lambda>_.
         ret m))))"

section \<open>The bounded search\<close>

lemma free_slug_Inr: "free_slug b f left n slug s = Inr g \<Longrightarrow> organization_by_slug g s = None"
  by (induction b f left n slug s rule: free_slug.induct) (auto split: if_splits nat.splits)

lemma free_slug_conflict:
  "free_slug b f left n slug s = Inl e \<Longrightarrow> \<exists>m. e = AppThrown (conflict_error m)"
  by (induction b f left n slug s rule: free_slug.induct) (auto split: if_splits nat.splits)

declare free_slug.simps [simp del]

lemma free_slug_tries:
  "free_slug b f left n slug s = Inl e \<longleftrightarrow>
   organization_by_slug slug s \<noteq> None \<and> (\<forall>i < left. organization_by_slug (b @ ''-'' @ f (n + i)) s \<noteq> None) \<and>
   e = AppThrown (conflict_error ''Could not generate a unique organization slug, try a different name'')"
proof (induction left arbitrary: n slug)
  case 0
  then show ?case by (subst free_slug.simps) auto
next
  case (Suc left)
  have all: "(\<forall>i < Suc left. P (n + i)) \<longleftrightarrow> P n \<and> (\<forall>i < left. P (n + 1 + i))" for P :: "nat \<Rightarrow> bool"
    by (auto simp: less_Suc_eq_0_disj)
  show ?case
    using all [of "\<lambda>k. organization_by_slug (b @ ''-'' @ f k) s \<noteq> None"]
    by (subst free_slug.simps) (simp add: Suc.IH)
qed

end
