(* ===== verification/Js_Text.thy ===== *)
theory Js_Text
  imports Crypto
begin

text \<open>
  The text conversions of JavaScript that the webhook code relies on: printing an integer
  (\<open>toString\<close>), reading a number (\<open>Number\<close>), \<open>String.split\<close> and
  \<open>JSON.stringify\<close>. Decimal literals keep their exact value; the rounding of a literal
  of more than fifteen significant digits to the nearest double is not modelled.
\<close>

section \<open>Printing integers\<close>

fun nat_toString :: "nat \<Rightarrow> string" where
  "nat_toString n =
     (if n < 10 then [char_of (48 + n)] else nat_toString (n div 10) @ [char_of (48 + n mod 10)])"

declare nat_toString.simps [simp del]

definition int_toString :: "int \<Rightarrow> string" where
  "int_toString n = (if n < 0 then CHR ''-'' # nat_toString (nat (- n)) else nat_toString (nat n))"

lemma digit_char:
  assumes "n < 10"
  shows "is_digit (char_of (48 + n))" and "digit_value (char_of (48 + n)) = n"
  using assms by (simp_all add: is_digit_def digit_value_def Let_def)

lemma nat_toString_digits: "list_all is_digit (nat_toString n)"
proof (induction n rule: nat_toString.induct)
  case (1 n)
  then show ?case
    by (subst nat_toString.simps) (simp add: digit_char(1))
qed

lemma nat_toString_nonempty [simp]: "nat_toString n \<noteq> []"
  by (subst nat_toString.simps) simp

lemma digits_value_append:
  "digits_value acc (s @ [c]) = 10 * digits_value acc s + digit_value c"
  by (induction s arbitrary: acc) simp_all

lemma digits_value_toString: "digits_value 0 (nat_toString n) = n"
proof (induction n rule: nat_toString.induct)
  case (1 n)
  show ?case
  proof (cases "n < 10")
    case True
    then show ?thesis by (subst nat_toString.simps) (simp add: digit_char(2))
  next
    case False
    then show ?thesis
      using 1 by (subst nat_toString.simps) (simp add: digits_value_append digit_char(2))
  qed
qed

lemma digit_props:
  assumes "is_digit c"
  shows "\<not> is_space c" "c \<noteq> CHR ''.''" "c \<noteq> CHR ''-''" "c \<noteq> CHR ''+''" "c \<noteq> CHR ''{''"
    "c \<noteq> CHR '':''" "c \<noteq> CHR ''I''"
  using assms by (auto simp: is_digit_def is_space_def Let_def)

text \<open>No leading zero, except in the number zero itself.\<close>

lemma nat_toString_hd: "hd (nat_toString n) = CHR ''0'' \<longleftrightarrow> n = 0"
proof (induction n rule: nat_toString.induct)
  case (1 n)
  have zero: "char_of (48 + n) = (CHR ''0'' :: char) \<longleftrightarrow> n = 0" if "n < 10"
  proof
    have "digit_value (CHR ''0'') = 0" by code_simp
    then show "char_of (48 + n) = (CHR ''0'' :: char) \<Longrightarrow> n = 0" using digit_char(2) [OF that] by simp
    have "char_of (48 :: nat) = CHR ''0''" by code_simp
    then show "n = 0 \<Longrightarrow> char_of (48 + n) = (CHR ''0'' :: char)" by simp
  qed
  show ?case
  proof (cases "n < 10")
    case True
    then have "nat_toString n = [char_of (48 + n)]" by (subst nat_toString.simps) simp
    then show ?thesis using zero [OF True] by (simp only: list.sel)
  next
    case False
    then have "nat_toString n = nat_toString (n div 10) @ [char_of (48 + n mod 10)]"
      by (subst nat_toString.simps) simp
    then have "hd (nat_toString n) = hd (nat_toString (n div 10))" by (simp only: hd_append2 nat_toString_nonempty not_False_eq_True)
    moreover have "n div 10 \<noteq> 0" "n \<noteq> 0" using False by simp_all
    ultimately show ?thesis using 1 [OF False] by (simp only:)
  qed
qed

section \<open>Reading numbers\<close>

text \<open>The literals with a radix prefix: \<open>0x\<close>, \<open>0o\<close>, \<open>0b\<close>, in either case.\<close>

definition radix_of :: "char \<Rightarrow> nat option" where
  "radix_of c =
     (let l = to_lower_char c
      in if l = CHR ''x'' then Some 16 else if l = CHR ''o'' then Some 8
         else if l = CHR ''b'' then Some 2 else None)"

definition radix_digit :: "nat \<Rightarrow> char \<Rightarrow> bool" where
  "radix_digit b c = (case hex_value c of Some v \<Rightarrow> v < b | None \<Rightarrow> False)"

fun radix_literal :: "string \<Rightarrow> rat option" where
  "radix_literal (c # d # e # ds) =
     (case radix_of d of
        Some b \<Rightarrow>
          if c = CHR ''0'' \<and> list_all (radix_digit b) (e # ds)
          then Some (of_nat (foldl (\<lambda>acc x. acc * b + the (hex_value x)) 0 (e # ds)))
          else None
      | None \<Rightarrow> None)"
| "radix_literal _ = None"

text \<open>A signed string: the sign and what follows it.\<close>

fun signed :: "string \<Rightarrow> int \<times> string" where
  "signed (c # s) =
     (if c = CHR ''-'' then (-1, s) else if c = CHR ''+'' then (1, s) else (1, c # s))"
| "signed [] = (1, [])"

definition exponent_part :: "string \<Rightarrow> int option" where
  "exponent_part s =
     (case s of
        [] \<Rightarrow> Some 0
      | c # r \<Rightarrow>
          (case signed r of (sg, ds) \<Rightarrow>
             if to_lower_char c = CHR ''e'' \<and> ds \<noteq> [] \<and> list_all is_digit ds
             then Some (sg * int (digits_value 0 ds)) else None))"

definition fraction_part :: "string \<Rightarrow> string \<times> string" where
  "fraction_part s =
     (case s of
        c # r \<Rightarrow> if c = CHR ''.'' then (takeWhile is_digit r, dropWhile is_digit r) else ([], s)
      | [] \<Rightarrow> ([], []))"

definition pow10 :: "int \<Rightarrow> rat" where
  "pow10 e = (if 0 \<le> e then 10 ^ nat e else 1 / 10 ^ nat (- e))"

definition decimal_literal :: "string \<Rightarrow> rat option" where
  "decimal_literal s =
     (case signed s of (sg, r) \<Rightarrow>
        let whole = takeWhile is_digit r;
            (fraction, r') = fraction_part (dropWhile is_digit r)
        in case exponent_part r' of
             None \<Rightarrow> None
           | Some e \<Rightarrow>
               if whole @ fraction = [] then None
               else Some (of_int sg * of_nat (digits_value 0 (whole @ fraction))
                          * pow10 (e - int (length fraction))))"

text \<open>The least number that no longer rounds to a finite double.\<close>

definition double_limit :: rat where
  "double_limit = 2 ^ 1024 - 2 ^ 970"

text \<open>
  \<open>Number(s)\<close> where it is finite; \<open>None\<close> stands for \<open>NaN\<close> and the infinities
  (\<open>Infinity\<close> is no decimal literal).
\<close>

definition js_Number :: "string \<Rightarrow> rat option" where
  "js_Number str =
     (let s = trim str
      in if s = [] then Some 0
         else case radix_literal s of
                Some v \<Rightarrow> if v < double_limit then Some v else None
              | None \<Rightarrow>
                  (case decimal_literal s of
                     Some v \<Rightarrow> if \<bar>v\<bar> < double_limit then Some v else None
                   | None \<Rightarrow> None))"

lemma trim_id: "(\<forall>c \<in> set s. \<not> is_space c) \<Longrightarrow> trim s = s"
proof -
  have idle: "(\<forall>c \<in> set t. \<not> is_space c) \<Longrightarrow> dropWhile is_space t = t" for t
    by (cases t) simp_all
  show "(\<forall>c \<in> set s. \<not> is_space c) \<Longrightarrow> trim s = s"
    using idle [of s] idle [of "rev s"] by (simp add: trim_def)
qed

lemma radix_literal_digits: "list_all is_digit s \<Longrightarrow> radix_literal s = None"
proof (induction s rule: radix_literal.induct)
  case (1 c d e ds)
  then have "is_digit d" by simp
  then have "to_lower_char d = d" "d \<noteq> CHR ''x''" "d \<noteq> CHR ''o''" "d \<noteq> CHR ''b''"
    by (auto simp: is_digit_def to_lower_char_def Let_def)
  then have "radix_of d = None" by (simp add: radix_of_def)
  then show ?case by simp
qed simp_all

lemma decimal_literal_digits:
  assumes "list_all is_digit s" and "s \<noteq> []"
  shows "decimal_literal s = Some (of_nat (digits_value 0 s))"
proof -
  obtain c r where s: "s = c # r" using assms(2) by (cases s) auto
  have sgn: "signed s = (1, s)" using assms(1) digit_props(3,4) [of c] by (simp add: s)
  have "takeWhile is_digit s = s" "dropWhile is_digit s = []"
    using assms(1) by (auto simp: list_all_iff)
  then show ?thesis
    using assms(2)
    by (simp add: decimal_literal_def sgn fraction_part_def exponent_part_def pow10_def Let_def
        del: dropWhile_eq_Nil_conv takeWhile_eq_all_conv)
qed

text \<open>A number printed and read again.\<close>

lemma js_Number_toString:
  assumes "of_nat n < double_limit"
  shows "js_Number (nat_toString n) = Some (of_nat n)"
proof -
  have digits: "list_all is_digit (nat_toString n)" by (rule nat_toString_digits)
  then have "trim (nat_toString n) = nat_toString n"
    by (intro trim_id) (auto simp: list_all_iff digit_props)
  then show ?thesis
    using assms by (simp add: js_Number_def radix_literal_digits [OF digits]
      decimal_literal_digits [OF digits] digits_value_toString)
qed

text \<open>A character that is no digit, sign, point, space or letter makes the text no number.\<close>

lemma trim_set: "c \<in> set s \<Longrightarrow> \<not> is_space c \<Longrightarrow> c \<in> set (trim s)"
proof -
  have keep: "c \<in> set t \<Longrightarrow> \<not> is_space c \<Longrightarrow> c \<in> set (dropWhile is_space t)" for t
    by (induction t) auto
  show "c \<in> set s \<Longrightarrow> \<not> is_space c \<Longrightarrow> c \<in> set (trim s)"
    using keep [of "rev (dropWhile is_space s)"] keep [of s] by (simp add: trim_def)
qed

lemma set_split_takeWhile: "c \<in> set s \<Longrightarrow> c \<notin> set (dropWhile p s) \<Longrightarrow> p c"
  by (metis Un_iff set_append set_takeWhileD takeWhile_dropWhile_id)

lemma js_Number_no_brace: "js_Number s = Some v \<Longrightarrow> CHR ''{'' \<notin> set s"
proof
  assume num: "js_Number s = Some v" and brace: "CHR ''{'' \<in> set s"
  have no: "\<not> is_space (CHR ''{'')" "\<not> is_digit (CHR ''{'')" "hex_value (CHR ''{'') = None"
    "radix_of (CHR ''{'') = None" "to_lower_char (CHR ''{'') \<noteq> CHR ''e''" by code_simp+
  have radix: "CHR ''{'' \<in> set t \<Longrightarrow> radix_literal t = None" for t
    using no by (cases t rule: radix_literal.cases)
      (auto simp: radix_digit_def list_all_iff split: option.splits)
  have expo: "CHR ''{'' \<in> set t \<Longrightarrow> exponent_part t = None" for t
    using no by (cases t; cases "tl t") (auto simp: exponent_part_def list_all_iff)
  have frac: "CHR ''{'' \<in> set t \<Longrightarrow> CHR ''{'' \<in> set (snd (fraction_part t))" for t
    using no set_split_takeWhile [of "CHR ''{''" "tl t" is_digit]
    by (cases t) (auto simp: fraction_part_def)
  have sgn: "CHR ''{'' \<in> set t \<Longrightarrow> CHR ''{'' \<in> set (snd (signed t))" for t
    by (cases t) auto
  have dec: "CHR ''{'' \<in> set t \<Longrightarrow> decimal_literal t = None" for t
  proof -
    assume t: "CHR ''{'' \<in> set t"
    obtain g r where r: "signed t = (g, r)" by fastforce
    have "CHR ''{'' \<in> set r" using sgn [OF t] r by simp
    then have "CHR ''{'' \<in> set (dropWhile is_digit r)" using set_split_takeWhile no(2) by metis
    moreover obtain f r' where fr: "fraction_part (dropWhile is_digit r) = (f, r')" by fastforce
    ultimately have "CHR ''{'' \<in> set r'" using frac by fastforce
    then show ?thesis using expo by (simp add: decimal_literal_def r fr)
  qed
  have "CHR ''{'' \<in> set (trim s)" using trim_set brace no(1) by blast
  then show False
    using num radix dec by (cases "trim s = []") (auto simp: js_Number_def Let_def)
qed

section \<open>Splitting\<close>

text \<open>\<open>s.split(c)\<close> for one character.\<close>

fun split_char :: "char \<Rightarrow> string \<Rightarrow> string list" where
  "split_char c [] = [[]]"
| "split_char c (d # s) =
     (if d = c then [] # split_char c s
      else (case split_char c s of x # xs \<Rightarrow> (d # x) # xs | [] \<Rightarrow> [[d]]))"

lemma split_char_nonempty [simp]: "split_char c s \<noteq> []"
  by (induction s) (auto split: list.splits)

lemma split_char_none: "c \<notin> set s \<Longrightarrow> split_char c s = [s]"
  by (induction s) auto

lemma split_char_append:
  "c \<notin> set s \<Longrightarrow> split_char c (s @ c # t) = s # split_char c t"
  by (induction s) auto

section \<open>JSON\<close>

fun json_escape :: "char \<Rightarrow> string" where
  "json_escape c =
     (let n = (of_char c :: nat)
      in if n = 34 then [char_of (92::nat), c]
         else if n = 92 then [c, c]
         else if n = 8 then [char_of (92::nat), CHR ''b'']
         else if n = 9 then [char_of (92::nat), CHR ''t'']
         else if n = 10 then [char_of (92::nat), CHR ''n'']
         else if n = 12 then [char_of (92::nat), CHR ''f'']
         else if n = 13 then [char_of (92::nat), CHR ''r'']
         else if n < 32 then char_of (92::nat) # ''u00'' @ [hex_digit (n div 16), hex_digit n]
         else [c])"

definition quote_json :: "string \<Rightarrow> string" where
  "quote_json s = CHR 0x22 # concat (map json_escape s) @ [CHR 0x22]"

fun jsonStringify :: "json \<Rightarrow> string" where
  "jsonStringify (JObj ms) =
     ''{'' @ join '','' (map (\<lambda>(k, v). quote_json k @ '':'' @ jsonStringify v) ms) @ ''}''"
| "jsonStringify (JArr js) = ''['' @ join '','' (map jsonStringify js) @ '']''"
| "jsonStringify (JStr s) = quote_json s"
| "jsonStringify (JInt n) = int_toString n"
| "jsonStringify JNil = ''null''"

lemma jsonStringify_object: "\<exists>r. jsonStringify (JObj ms) = CHR ''{'' # r"
  by simp

end
