(* ===== verification/Api_Keys.thy ===== *)
theory Api_Keys
  imports Guards Invoices Js_Text
begin

text \<open>
  API keys of an organization (\<open>api-keys/api-keys.service.ts\<close>,
  \<open>api-key.presenter.ts\<close>), and what a created key opens at the guards of the merchant API.
\<close>

definition scope_name :: "api_key_scope \<Rightarrow> string" where
  "scope_name s =
     (case s of
        Invoices_read \<Rightarrow> ''invoices:read'' | Invoices_write \<Rightarrow> ''invoices:write''
      | Payments_read \<Rightarrow> ''payments:read'' | PaymentLinks_read \<Rightarrow> ''payment_links:read''
      | PaymentLinks_write \<Rightarrow> ''payment_links:write'' | Webhooks_read \<Rightarrow> ''webhooks:read''
      | Webhooks_write \<Rightarrow> ''webhooks:write'')"

definition environment_name :: "api_key_environment \<Rightarrow> string" where
  "environment_name e = (case e of Env_test \<Rightarrow> ''test'' | Env_live \<Rightarrow> ''live'')"

definition new_api_key ::
    "hmac \<Rightarrow> api_config \<Rightarrow> pass_env \<Rightarrow> ident \<Rightarrow> string \<Rightarrow> api_key_environment \<Rightarrow> api_key_scope list \<Rightarrow>
     api_key \<times> string" where
  "new_api_key hmac cfg env organizationId name environment scopes =
     (let generated = generateApiKey hmac (pe_randomBytes env ''key'' ''raw'') environment (cfg_apiKeyPepper cfg)
      in (\<lparr>key_id = newId env ''c'' ''api_key'', key_organizationId = organizationId, key_name = name,
           key_environment = environment, key_prefix = gk_prefix generated, key_hash = gk_hash generated,
           key_scopes = scopes, key_lastUsedAt = None, key_expiresAt = None, key_revokedAt = None,
           key_createdAt = pe_now env\<rparr>,
          gk_raw generated))"

definition create_api_key ::
    "hmac \<Rightarrow> api_config \<Rightarrow> pass_env \<Rightarrow> ident \<Rightarrow> string \<Rightarrow> api_key_environment \<Rightarrow> api_key_scope list \<Rightarrow>
     ident \<Rightarrow> request_context \<Rightarrow> (api_key \<times> string) db_op" where
  "create_api_key hmac cfg env organizationId name environment scopes actorId ctx =
     (case new_api_key hmac cfg env organizationId name environment scopes of
        (k, rawKey) \<Rightarrow>
          seq (create_row apiKeys apiKeys_update api_key_clash k) (\<lambda>_.
          seq (audit_record (audit_entry organizationId actorId ''user'' ''api_key.create'' ''api_key''
                 (key_id k)
                 (Some [(''environment'', JStr (environment_name environment)),
                        (''scopes'', JArr (map (\<lambda>x. JStr (scope_name x)) scopes))]) ctx)) (\<lambda>_.
          ret (k, rawKey))))"

definition list_api_keys :: "ident \<Rightarrow> store \<Rightarrow> api_key list" where
  "list_api_keys organizationId s =
     sort_key (\<lambda>k. - key_createdAt k) (filter (\<lambda>k. key_organizationId k = organizationId) (apiKeys s))"

definition revoke_api_key ::
    "pass_env \<Rightarrow> ident \<Rightarrow> ident \<Rightarrow> ident \<Rightarrow> request_context \<Rightarrow> unit db_op" where
  "revoke_api_key env organizationId apiKeyId actorId ctx =
     seq (reads (\<lambda>s. find (\<lambda>k. key_id k = apiKeyId \<and> key_organizationId k = organizationId) (apiKeys s))) (\<lambda>found.
     case found of
       None \<Rightarrow> throw (AppThrown (not_found_error ''API key not found''))
     | Some k \<Rightarrow>
         seq (update_row apiKeys apiKeys_update (\<lambda>r. key_id r = key_id k)
                (\<lambda>r. r\<lparr>key_revokedAt := Some (pe_now env)\<rparr>)) (\<lambda>_.
         audit_record (audit_entry organizationId actorId ''user'' ''api_key.revoke'' ''api_key''
           (key_id k) None ctx)))"

record api_key_view =
  kv_id :: ident
  kv_name :: string
  kv_environment :: string
  kv_keyPrefix :: string
  kv_scopes :: "string list"
  kv_lastUsedAt :: "millis option"
  kv_expiresAt :: "millis option"
  kv_revokedAt :: "millis option"
  kv_createdAt :: millis

definition toApiKeyView :: "api_key \<Rightarrow> api_key_view" where
  "toApiKeyView k =
     \<lparr>kv_id = key_id k, kv_name = key_name k, kv_environment = environment_name (key_environment k),
      kv_keyPrefix = key_prefix k, kv_scopes = map scope_name (key_scopes k),
      kv_lastUsedAt = key_lastUsedAt k, kv_expiresAt = key_expiresAt k,
      kv_revokedAt = key_revokedAt k, kv_createdAt = key_createdAt k\<rparr>"

section \<open>The text of a key\<close>

lemma b64url_char_no_space: "\<not> is_space (b64url_char n)"
proof -
  have signs: "\<not> is_space (CHR ''-'')" "\<not> is_space (CHR ''_'')" "\<not> is_space (CHR ''+'')" "\<not> is_space (CHR ''/'')"
    by code_simp+
  show ?thesis
  proof (cases "n < 62")
    case True
    then show ?thesis by (auto simp: b64url_char_def b64_char_def is_space_def Let_def)
  next
    case False
    then show ?thesis using signs by (auto simp: b64url_char_def b64_char_def)
  qed
qed

lemma raw_key_facts:
  assumes "raw = keyPrefix e @ base64url_encode bytes"
  shows "trim raw = raw" and "parseApiKeyEnvironment raw = Some e"
proof -
  have "\<forall>c \<in> set (keyPrefix e). \<not> is_space c" by (cases e) (simp_all, code_simp+)
  then show "trim raw = raw"
    using b64url_char_no_space by (intro trim_id) (auto simp: assms base64url_encode_def)
  show "parseApiKeyEnvironment raw = Some e"
    by (cases e) (simp_all add: assms parseApiKeyEnvironment_def starts_with_def)
qed

section \<open>What a key opens\<close>

lemma merchant_guard_decides:
  assumes header: "rq_headers q ''authorization'' = Some (One (BEARER @ raw))"
    and raw: "trim raw = raw" "parseApiKeyEnvironment raw \<noteq> None"
  shows "merchant_guards hmac cfg now required q s =
    (case key_by_hash (hashApiKey hmac raw (cfg_apiKeyPepper cfg)) s of
       None \<Rightarrow> (Inl (AppThrown (unauthorized_error ''Invalid or revoked API key'')), s)
     | Some k \<Rightarrow>
         if \<not> key_usable now k then (Inl (AppThrown (unauthorized_error ''Invalid or revoked API key'')), s)
         else if set required \<subseteq> set (key_scopes k)
         then (Inr (q\<lparr>rq_organizationId := Some (key_organizationId k), rq_apiKeyId := Some (key_id k),
                     rq_apiKeyScopes := Some (key_scopes k)\<rparr>), snd (touch_key now (key_id k) s))
         else (Inl (AppThrown (forbidden_error ''API key is missing a required scope'')),
               snd (touch_key now (key_id k) s)))"
proof -
  have h: "single_header q ''authorization'' = Some (BEARER @ raw)" using header by (simp add: single_header_def)
  show ?thesis
    using raw by (auto simp: merchant_guards_def ApiKeyAuthGuard_def h ScopesGuard_def seq_def reads_def ret_def
        throw_def touch_key_def update_many_def list_all_iff split: option.splits)
qed

lemma created_key:
  assumes "create_api_key hmac cfg env organizationId name environment scopes actorId ctx s = (Inr (k, raw), s1)"
  shows "raw = keyPrefix environment @ base64url_encode (pe_randomBytes env ''key'' ''raw'')"
    and "key_by_hash (hashApiKey hmac raw (cfg_apiKeyPepper cfg)) s1 = Some k"
    and "key_organizationId k = organizationId" "key_scopes k = scopes" "key_revokedAt k = None" "key_expiresAt k = None"
    and "key_hash k = hashApiKey hmac raw (cfg_apiKeyPepper cfg)"
proof -
  have new: "new_api_key hmac cfg env organizationId name environment scopes = (k, raw)"
    and s1: "\<exists>t. create_row apiKeys apiKeys_update api_key_clash k s = (Inr (), t) \<and> apiKeys s1 = apiKeys t"
    using assms by (auto simp: create_api_key_def seq_eq_Inr audit_record_def modify_def ret_def split: prod.splits)
  show "raw = keyPrefix environment @ base64url_encode (pe_randomBytes env ''key'' ''raw'')"
    "key_organizationId k = organizationId" "key_scopes k = scopes" "key_revokedAt k = None" "key_expiresAt k = None"
    "key_hash k = hashApiKey hmac raw (cfg_apiKeyPepper cfg)"
    using new by (auto simp: new_api_key_def generateApiKey_def Let_def)
  then show "key_by_hash (hashApiKey hmac raw (cfg_apiKeyPepper cfg)) s1 = Some k"
    using s1 api_key_tbl.find_after_create [of k s _ "hashApiKey hmac raw (cfg_apiKeyPepper cfg)"]
    by (auto simp: key_by_hash_def)
qed

text \<open>C20. A freshly created key opens the merchant API: a request that carries it is let through,
  for the key's organization, exactly when the key has every scope the route asks for. Once the
  key is revoked, a request with it is refused and nothing is written.\<close>

theorem api_key_lifecycle:
  assumes "create_api_key hmac cfg env organizationId name environment scopes actorId ctx s = (Inr (k, raw), s1)"
    and "rq_headers q ''authorization'' = Some (One (BEARER @ raw))"
  shows "(set required \<subseteq> set scopes \<longleftrightarrow> (\<exists>q'. fst (merchant_guards hmac cfg now required q s1) = Inr q')) \<and>
    (\<forall>q'. fst (merchant_guards hmac cfg now required q s1) = Inr q' \<longrightarrow>
       rq_organizationId q' = Some organizationId \<and> rq_apiKeyId q' = Some (key_id k)) \<and>
    (\<forall>env' actor' ctx' s2. revoke_api_key env' organizationId (key_id k) actor' ctx' s1 = (Inr (), s2) \<longrightarrow>
       merchant_guards hmac cfg now required q s2 =
         (Inl (AppThrown (unauthorized_error ''Invalid or revoked API key'')), s2))"
proof -
  note k = created_key [OF assms(1)]
  note raw = raw_key_facts [OF k(1)]
  note decide = merchant_guard_decides [OF assms(2) raw(1), of hmac cfg now required]
  have usable: "key_usable now k" using k(5,6) by (simp add: key_usable_def)
  have env: "parseApiKeyEnvironment raw \<noteq> None" using raw(2) by simp
  have "merchant_guards hmac cfg now required q s2 =
         (Inl (AppThrown (unauthorized_error ''Invalid or revoked API key'')), s2)"
    if r: "revoke_api_key env' organizationId (key_id k) actor' ctx' s1 = (Inr (), s2)" for env' actor' ctx' s2
  proof -
    obtain t where t: "update_row apiKeys apiKeys_update (\<lambda>r. key_id r = key_id k)
        (\<lambda>r. r\<lparr>key_revokedAt := Some (pe_now env')\<rparr>) s1 = (Inr (), t)" "apiKeys s2 = apiKeys t"
      using r by (auto simp: revoke_api_key_def seq_reads seq_eq_Inr throw_def audit_record_def modify_def
          dest!: find_SomeD split: option.splits)
    have "key_by_hash (hashApiKey hmac raw (cfg_apiKeyPepper cfg)) t = Some (k\<lparr>key_revokedAt := Some (pe_now env')\<rparr>)"
      using api_key_tbl.find_after_update [OF t(1)] k(2) by (simp add: key_by_hash_def)
    then have "key_by_hash (hashApiKey hmac raw (cfg_apiKeyPepper cfg)) s2 = Some (k\<lparr>key_revokedAt := Some (pe_now env')\<rparr>)"
      using t(2) by (simp add: key_by_hash_def)
    then show ?thesis by (simp add: decide [OF env] key_usable_def)
  qed
  then show ?thesis by (auto simp: decide [OF env] k(2,3,4) usable split: if_splits)
qed

definition sample_bearer :: "string \<Rightarrow> request" where
  "sample_bearer raw = sample_request\<lparr>rq_headers := (\<lambda>n. if n = ''authorization'' then Some (One (BEARER @ raw)) else None)\<rparr>"

definition sample_key_env :: pass_env where
  "sample_key_env = \<lparr>pe_now = 5, pe_randomBytes = (\<lambda>_ _. replicate 24 7), pe_decimalToString = (\<lambda>_. '''')\<rparr>"

definition sample_context' :: request_context where
  "sample_context' = \<lparr>rc_ip = ''203.0.113.9'', rc_userAgent = None\<rparr>"

theorem api_key_lifecycle_witness:
  "\<exists>k raw s1 q'. create_api_key (\<lambda>_ _. [1]) sample_config sample_key_env ''org_1'' ''ci'' Env_test [Invoices_read]
       ''usr_1'' sample_context' empty_store = (Inr (k, raw), s1) \<and>
     fst (merchant_guards (\<lambda>_ _. [1]) sample_config 9 [Invoices_read] (sample_bearer raw) s1) = Inr q' \<and>
     rq_organizationId q' = Some ''org_1'' \<and>
     (\<nexists>q''. fst (merchant_guards (\<lambda>_ _. [1]) sample_config 9 [Invoices_write] (sample_bearer raw) s1) = Inr q'')"
proof -
  let ?c = "create_api_key (\<lambda>_ _. [1]) sample_config sample_key_env ''org_1'' ''ci'' Env_test [Invoices_read]
       ''usr_1'' sample_context' empty_store"
  have "case fst ?c of Inl e \<Rightarrow> False | Inr x \<Rightarrow> True" by code_simp
  then obtain k raw s1 where c: "?c = (Inr (k, raw), s1)" by (cases ?c) (auto split: sum.splits)
  have h: "rq_headers (sample_bearer raw) ''authorization'' = Some (One (BEARER @ raw))"
    by (simp add: sample_bearer_def)
  note life = api_key_lifecycle [OF c h, of _ 9]
  from life [of "[Invoices_read]"] obtain q' where
    "fst (merchant_guards (\<lambda>_ _. [1]) sample_config 9 [Invoices_read] (sample_bearer raw) s1) = Inr q'" by auto
  moreover from this have "rq_organizationId q' = Some ''org_1''" using life [of "[Invoices_read]"] by blast
  moreover have "\<nexists>q''. fst (merchant_guards (\<lambda>_ _. [1]) sample_config 9 [Invoices_write] (sample_bearer raw) s1) = Inr q''"
    using life [of "[Invoices_write]"] by auto
  ultimately show ?thesis using c by blast
qed

end
