(* ===== verification/Ssrf_Guard.thy ===== *)
theory Ssrf_Guard
  imports Js_Text
begin

text \<open>
  \<open>packages/webhooks/src/ssrf-guard.ts\<close>: \<open>net.isIP\<close>, the address classification and
  the URL check. The URL parser and the resolver are parameters.
\<close>

section \<open>IP addresses\<close>

text \<open>\<open>net.isIP\<close>: the dotted form without leading zeros, and the colon form.\<close>

definition octet_text :: "string \<Rightarrow> bool" where
  "octet_text s \<longleftrightarrow>
     s \<noteq> [] \<and> list_all is_digit s \<and> (length s = 1 \<or> hd s \<noteq> CHR ''0'') \<and> digits_value 0 s \<le> 255"

definition isIPv4 :: "string \<Rightarrow> bool" where
  "isIPv4 s =
     (let parts = split_char (CHR ''.'') s in length parts = 4 \<and> list_all octet_text parts)"

definition hextet_text :: "string \<Rightarrow> bool" where
  "hextet_text s \<longleftrightarrow> 1 \<le> length s \<and> length s \<le> 4 \<and> list_all (\<lambda>c. hex_value c \<noteq> None) s"

text \<open>How many 16-bit units a colon-separated part holds; only the last piece of the whole
  address may be dotted (and then counts two).\<close>

fun units_of :: "bool \<Rightarrow> string list \<Rightarrow> nat option" where
  "units_of dotted_end [] = Some 0"
| "units_of dotted_end [p] =
     (if hextet_text p then Some 1 else if dotted_end \<and> isIPv4 p then Some 2 else None)"
| "units_of dotted_end (p # ps) =
     (if hextet_text p then map_option Suc (units_of dotted_end ps) else None)"

definition units :: "bool \<Rightarrow> string \<Rightarrow> nat option" where
  "units dotted_end s = (if s = [] then Some 0 else units_of dotted_end (split_char (CHR '':'') s))"

text \<open>What is before and after the first \<open>::\<close>.\<close>

fun split_gap :: "string \<Rightarrow> (string \<times> string) option" where
  "split_gap (c # d # s) =
     (if c = CHR '':'' \<and> d = CHR '':'' then Some ([], s)
      else map_option (\<lambda>(l, r). (c # l, r)) (split_gap (d # s)))"
| "split_gap _ = None"

definition zone_char :: "char \<Rightarrow> bool" where
  "zone_char c \<longleftrightarrow> is_digit c \<or> is_alpha c \<or> c = CHR ''-'' \<or> c = CHR ''.'' \<or> c = CHR '':''"

definition isIPv6 :: "string \<Rightarrow> bool" where
  "isIPv6 text =
     (let s = takeWhile (\<lambda>c. c \<noteq> CHR ''%'') text; zone = dropWhile (\<lambda>c. c \<noteq> CHR ''%'') text
      in (zone = [] \<or> (tl zone \<noteq> [] \<and> list_all zone_char (tl zone))) \<and>
         (case split_gap s of
            None \<Rightarrow> s \<noteq> [] \<and> units True s = Some 8
          | Some (l, r) \<Rightarrow>
              (case (units False l, units True r) of
                 (Some a, Some b) \<Rightarrow> a + b \<le> 7
               | _ \<Rightarrow> False)))"

definition isIP :: "string \<Rightarrow> nat" where
  "isIP s = (if isIPv4 s then 4 else if isIPv6 s then 6 else 0)"

section \<open>The address guard\<close>

text \<open>\<open>/^f[cd][0-9a-f]{2}:/\<close> on a lower-cased address.\<close>

fun unique_local_prefix :: "string \<Rightarrow> bool" where
  "unique_local_prefix (f # c # x # y # z # _) =
     (f = CHR ''f'' \<and> (c = CHR ''c'' \<or> c = CHR ''d'') \<and>
      hex_value x \<noteq> None \<and> hex_value y \<noteq> None \<and> z = CHR '':'')"
| "unique_local_prefix _ = False"

definition private_octets :: "nat \<Rightarrow> nat \<Rightarrow> bool" where
  "private_octets a b =
     (if a = 127 then True
      else if a = 10 then True
      else if a = 172 \<and> b \<ge> 16 \<and> b \<le> 31 then True
      else if a = 192 \<and> b = 168 then True
      else if a = 169 \<and> b = 254 then True
      else if a = 0 then True
      else False)"

definition private_v4 :: "string \<Rightarrow> bool" where
  "private_v4 ip =
     (let octs = map (digits_value 0) (split_char (CHR ''.'') ip)
      in private_octets (octs ! 0) (octs ! 1))"

definition MAPPED_PREFIX :: string where
  "MAPPED_PREFIX = ''::ffff:''"

lemma starts_with_length: "starts_with s p \<Longrightarrow> length p \<le> length s"
  by (metis starts_with_def length_take min.absorb_iff2 min.commute)

function (sequential) isPrivateOrReservedIp :: "string \<Rightarrow> bool" where
  "isPrivateOrReservedIp ip =
     (let version = isIP ip
      in if version = 4 then private_v4 ip
         else if version = 6 then
           (let normalized = to_lower ip
            in if normalized = ''::1'' then True
               else if normalized = ''::'' then True
               else if starts_with normalized ''fe80:'' then True
               else if unique_local_prefix normalized then True
               else if starts_with normalized MAPPED_PREFIX
                    then isPrivateOrReservedIp (drop (length MAPPED_PREFIX) normalized)
               else False)
         else True)"
  by pat_completeness auto

termination isPrivateOrReservedIp
proof (relation "measure length")
  show "wf (measure length)" by simp
next
  fix ip :: string and version normalized
  assume "normalized = to_lower ip" "starts_with normalized MAPPED_PREFIX"
  then show "(drop (length MAPPED_PREFIX) normalized, ip) \<in> measure length"
    using starts_with_length [of normalized MAPPED_PREFIX] by (simp add: MAPPED_PREFIX_def)
qed

declare isPrivateOrReservedIp.simps [simp del]

subsection \<open>Dotted addresses\<close>

definition dotted :: "nat \<Rightarrow> nat \<Rightarrow> nat \<Rightarrow> nat \<Rightarrow> string" where
  "dotted a b c d =
     nat_toString a @ ''.'' @ nat_toString b @ ''.'' @ nat_toString c @ ''.'' @ nat_toString d"

lemma octet_text_toString:
  assumes "n \<le> 255"
  shows "octet_text (nat_toString n)"
proof -
  have "length (nat_toString n) = 1 \<or> hd (nat_toString n) \<noteq> CHR ''0''"
  proof (cases "n = 0")
    case True
    then show ?thesis by (simp add: nat_toString.simps)
  next
    case False
    then show ?thesis by (simp add: nat_toString_hd)
  qed
  then show ?thesis
    using assms by (simp add: octet_text_def nat_toString_digits digits_value_toString)
qed

lemma split_dotted:
  "split_char (CHR ''.'') (dotted a b c d) =
   [nat_toString a, nat_toString b, nat_toString c, nat_toString d]"
proof -
  have dot: "CHR ''.'' \<notin> set (nat_toString n)" for n
    using nat_toString_digits [of n] digit_props(2) by (auto simp: list_all_iff)
  show ?thesis by (simp add: dotted_def split_char_append dot split_char_none)
qed

lemma isIP_dotted:
  "a \<le> 255 \<Longrightarrow> b \<le> 255 \<Longrightarrow> c \<le> 255 \<Longrightarrow> d \<le> 255 \<Longrightarrow> isIP (dotted a b c d) = 4"
  by (simp add: isIP_def isIPv4_def split_dotted octet_text_toString)

lemma private_dotted:
  "a \<le> 255 \<Longrightarrow> b \<le> 255 \<Longrightarrow> c \<le> 255 \<Longrightarrow> d \<le> 255 \<Longrightarrow>
   isPrivateOrReservedIp (dotted a b c d) = private_octets a b"
  by (subst isPrivateOrReservedIp.simps)
    (simp add: isIP_dotted private_v4_def split_dotted digits_value_toString)

text \<open>The guard decides dotted addresses exactly: it refuses loopback (127/8), the
  RFC 1918 ranges (10/8, 172.16/12, 192.168/16), link-local (169.254/16) and 0/8, and accepts
  every other address.\<close>

theorem private_v4_exact:
  assumes "a \<le> 255" "b \<le> 255" "c \<le> 255" "d \<le> 255"
  shows "isPrivateOrReservedIp (dotted a b c d) \<longleftrightarrow>
    a \<in> {0, 10, 127} \<or> (a = 172 \<and> b div 16 = 1) \<or> (a, b) \<in> {(192, 168), (169, 254)}"
proof -
  have "b div 16 = 1 \<longleftrightarrow> 16 \<le> b \<and> b \<le> 31" by auto
  then show ?thesis using assms by (auto simp: private_dotted private_octets_def)
qed

theorem private_v4_exact_witness:
  "isPrivateOrReservedIp (dotted 169 254 169 254) \<and> \<not> isPrivateOrReservedIp (dotted 172 32 0 1)"
  using private_v4_exact [of 169 254 169 254] private_v4_exact [of 172 32 0 1] by simp

subsection \<open>Addresses are compared as text\<close>

text \<open>
  An IPv6 address is classified by its spelling. Loopback written out in full and an
  address of fe90::/16, which is link-local as well, are taken for public ones; the mapped
  form with hexadecimal digits is refused only because what follows the prefix is no address.
\<close>

lemma v6_spellings:
  "isIP ''0:0:0:0:0:0:0:1'' = 6 \<and> \<not> isPrivateOrReservedIp ''0:0:0:0:0:0:0:1''"
  "isIP ''fe90::1'' = 6 \<and> \<not> isPrivateOrReservedIp ''fe90::1''"
  "isIP ''fe80::1'' = 6 \<and> isPrivateOrReservedIp ''fe80::1''"
  "isIP ''::ffff:10.0.0.1'' = 6 \<and> isPrivateOrReservedIp ''::ffff:10.0.0.1''"
  "isIP ''::ffff:8.8.8.8'' = 6 \<and> \<not> isPrivateOrReservedIp ''::ffff:8.8.8.8''"
  "isIP ''::ffff:7f00:1'' = 6 \<and> isPrivateOrReservedIp ''::ffff:7f00:1''"
  "isIP ''2606:4700:4700::1111'' = 6 \<and> \<not> isPrivateOrReservedIp ''2606:4700:4700::1111''"
  by code_simp+

section \<open>The URL check\<close>

record url =
  url_protocol :: string
  url_hostname :: string
  url_href :: string

text \<open>\<open>parseUrl\<close> is \<open>new URL\<close>, nothing standing for its exception; \<open>lookup\<close> is the
  resolver, nothing standing for a rejected promise.\<close>

definition hostAddresses :: "(string \<Rightarrow> string list option) \<Rightarrow> string \<Rightarrow> string list option" where
  "hostAddresses lookup host = (if isIP host \<noteq> 0 then Some [host] else lookup host)"

definition assertSafeWebhookUrl ::
    "(string \<Rightarrow> url option) \<Rightarrow> (string \<Rightarrow> string list option) \<Rightarrow> string \<Rightarrow> app_error + url" where
  "assertSafeWebhookUrl parseUrl lookup rawUrl =
     (case parseUrl rawUrl of
        None \<Rightarrow> Inl (validation_error ''Webhook URL is not a valid URL'' None)
      | Some u \<Rightarrow>
          if url_protocol u \<noteq> ''https:'' then Inl (validation_error ''Webhook URL must use HTTPS'' None)
          else
            (case hostAddresses lookup (url_hostname u) of
               None \<Rightarrow> Inl (validation_error ''Webhook URL hostname could not be resolved'' None)
             | Some addresses \<Rightarrow>
                 if addresses = [] \<or> list_ex isPrivateOrReservedIp addresses
                 then Inl (validation_error ''Webhook URL resolves to a private or reserved address'' None)
                 else Inr u))"

lemma assertSafeWebhookUrl_Inr:
  "assertSafeWebhookUrl parseUrl lookup rawUrl = Inr u \<longleftrightarrow>
   parseUrl rawUrl = Some u \<and> url_protocol u = ''https:'' \<and>
   (\<exists>as. hostAddresses lookup (url_hostname u) = Some as \<and> as \<noteq> [] \<and>
      (\<forall>a \<in> set as. \<not> isPrivateOrReservedIp a))"
  by (auto simp: assertSafeWebhookUrl_def list_ex_iff split: option.splits if_splits)

lemma assertSafeWebhookUrl_Inl:
  "assertSafeWebhookUrl parseUrl lookup rawUrl = Inl e \<Longrightarrow> ae_class e = ValidationError"
  by (auto simp: assertSafeWebhookUrl_def error_defs split: option.splits if_splits)

end
