(* ===== verification/Webhook_Delivery.thy ===== *)
theory Webhook_Delivery
  imports Ssrf_Guard Store
begin

text \<open>
  The rest of \<open>packages/webhooks\<close>: the payload and its signature
  (\<open>webhook-payload.ts\<close>), the retry schedule (\<open>retry-schedule.ts\<close>) and one delivery
  attempt (\<open>deliver-webhook.ts\<close>). The world of an attempt is the record
  \<open>webhook_world\<close>: URL parser, resolver, HTTP client, ciphers, the order in which the
  database returns the keys of a JSON column, and the clock readings. An attempt returns the
  request it sent, if it sent one, beside its result, so that what leaves the server can be
  stated.
\<close>

section \<open>The payload\<close>

record webhook_payload =
  wp_id :: ident
  wp_type :: string
  wp_created :: int
  wp_data :: "(string \<times> json) list"

definition optional_text :: "string option \<Rightarrow> json" where
  "optional_text t = (case t of None \<Rightarrow> JNil | Some s \<Rightarrow> JStr s)"

text \<open>The object \<open>createWebhookEvent\<close> stored.\<close>

definition event_json :: "event_data \<Rightarrow> (string \<times> json) list" where
  "event_json d =
     [(''invoice_id'', JStr (ed_invoice_id d)), (''external_id'', optional_text (ed_external_id d)),
      (''amount'', JStr (ed_amount d)), (''currency'', JStr (ed_currency d)),
      (''network'', JStr (ed_network d)), (''status'', JStr (ed_status d)),
      (''tx_hash'', optional_text (ed_tx_hash d))]"

definition buildWebhookPayload :: "ident \<Rightarrow> string \<Rightarrow> millis \<Rightarrow> (string \<times> json) list \<Rightarrow> webhook_payload" where
  "buildWebhookPayload eventId type createdAt eventData =
     \<lparr>wp_id = eventId, wp_type = type, wp_created = createdAt div 1000, wp_data = eventData\<rparr>"

definition payload_json :: "webhook_payload \<Rightarrow> json" where
  "payload_json p =
     JObj [(''id'', JStr (wp_id p)), (''type'', JStr (wp_type p)), (''created'', JInt (wp_created p)),
           (''data'', JObj (wp_data p))]"

record signed_request =
  sr_body :: string
  sr_signature :: string
  sr_timestamp :: string
  sr_eventId :: string
  sr_contentType :: string

definition signed_text :: "string \<Rightarrow> string \<Rightarrow> string" where
  "signed_text timestamp body = timestamp @ ''.'' @ body"

definition signWebhookRequest :: "hmac \<Rightarrow> millis \<Rightarrow> webhook_payload \<Rightarrow> string \<Rightarrow> signed_request" where
  "signWebhookRequest hmac now p secret =
     (let body = jsonStringify (payload_json p);
          timestamp = int_toString (now div 1000)
      in \<lparr>sr_body = body, sr_signature = signHmacSha256 hmac (signed_text timestamp body) secret,
          sr_timestamp = timestamp, sr_eventId = wp_id p, sr_contentType = ''application/json''\<rparr>)"

definition TOLERANCE_SECONDS :: rat where
  "TOLERANCE_SECONDS = 300"

definition verifyWebhookSignature :: "hmac \<Rightarrow> millis \<Rightarrow> string \<Rightarrow> string \<Rightarrow> string \<Rightarrow> string \<Rightarrow> bool" where
  "verifyWebhookSignature hmac now body secret timestamp signatureHex =
     (case js_Number timestamp of
        None \<Rightarrow> False
      | Some timestampSeconds \<Rightarrow>
          if \<bar>of_int (now div 1000) - timestampSeconds\<bar> > TOLERANCE_SECONDS then False
          else verifyHmacSha256 hmac (signed_text timestamp body) secret signatureHex)"

lemma js_Number_timestamp:
  assumes "0 \<le> now" and "now < 2 ^ 53"
  shows "js_Number (int_toString (now div 1000)) = Some (of_int (now div 1000))"
proof -
  define n where "n = nat (now div 1000)"
  have n: "int n = now div 1000" using assms(1) by (simp add: n_def)
  have "int n < 2 ^ 53" using assms n by (smt (verit) div_by_1 zdiv_mono2)
  then have "(of_nat n :: rat) < 2 ^ 53" by (metis of_int_less_iff of_int_numeral of_int_of_nat_eq of_int_power)
  also have "(2 :: rat) ^ 53 \<le> double_limit"
  proof -
    have "(2 :: rat) ^ 1024 = 2 ^ 54 * 2 ^ 970" by (simp flip: power_add)
    moreover have "(1 :: rat) \<le> 2 ^ 970" by simp
    then have "(2 :: rat) ^ 53 * 1 \<le> (2 ^ 54 - 1) * 2 ^ 970" by (intro mult_mono) simp_all
    ultimately show ?thesis by (simp add: double_limit_def algebra_simps)
  qed
  finally have "js_Number (nat_toString n) = Some (of_nat n)" by (rule js_Number_toString)
  moreover have "int_toString (now div 1000) = nat_toString n"
    using assms(1) n_def by (simp add: int_toString_def not_less)
  ultimately show ?thesis using n by (metis of_int_of_nat_eq)
qed

lemma verify_signed:
  assumes "hmac_documented hmac" and "0 \<le> sent" and "sent < 2 ^ 53"
    and "r = signWebhookRequest hmac sent p secret"
  shows "verifyWebhookSignature hmac now (sr_body r) secret (sr_timestamp r) (sr_signature r) \<longleftrightarrow>
    \<bar>now div 1000 - sent div 1000\<bar> \<le> 300"
proof -
  have "verifyHmacSha256 hmac t secret (signHmacSha256 hmac t secret)" for t
    by (simp add: verifyHmacSha256_def safeEqualHex_iff)
  moreover have "\<bar>rat_of_int (now div 1000) - rat_of_int (sent div 1000)\<bar> > TOLERANCE_SECONDS \<longleftrightarrow>
      \<not> \<bar>now div 1000 - sent div 1000\<bar> \<le> 300"
  proof -
    have "(300 :: rat) < \<bar>rat_of_int a - rat_of_int b\<bar> \<longleftrightarrow> 300 < \<bar>a - b\<bar>" for a b
      by (metis of_int_abs of_int_diff of_int_less_iff of_int_numeral)
    then show ?thesis by (simp only: TOLERANCE_SECONDS_def not_le)
  qed
  ultimately show ?thesis
    using assms(4) js_Number_timestamp [OF assms(2,3)]
    by (simp add: verifyWebhookSignature_def signWebhookRequest_def Let_def)
qed

text \<open>A signature made for a delivery verifies over the body and timestamp that were sent
  with it exactly as long as the two clocks, in whole seconds, are at most 300 seconds apart.\<close>

theorem verify_own_signature:
  assumes "hmac_documented hmac" and "0 \<le> sent" and "sent < 2 ^ 53"
  shows "verifyWebhookSignature hmac now (sr_body (signWebhookRequest hmac sent p secret)) secret
      (sr_timestamp (signWebhookRequest hmac sent p secret))
      (sr_signature (signWebhookRequest hmac sent p secret)) \<longleftrightarrow>
    \<bar>now div 1000 - sent div 1000\<bar> \<le> 300"
  using verify_signed [OF assms refl] .

definition sample_hmac :: hmac where
  "sample_hmac secret text' = replicate 31 7 @ [length text' mod 256]"

definition sample_payload :: webhook_payload where
  "sample_payload = buildWebhookPayload ''evt_1'' ''payment.paid'' 1700000000000 []"

lemma sample_hmac_documented: "hmac_documented sample_hmac"
  by (simp add: hmac_documented_def sample_hmac_def list_all_iff)

theorem verify_own_signature_witness:
  "verifyWebhookSignature sample_hmac 1700000300999
     (sr_body (signWebhookRequest sample_hmac 1700000000000 sample_payload ''whsec_1'')) ''whsec_1''
     (sr_timestamp (signWebhookRequest sample_hmac 1700000000000 sample_payload ''whsec_1''))
     (sr_signature (signWebhookRequest sample_hmac 1700000000000 sample_payload ''whsec_1'')) \<and>
   \<not> verifyWebhookSignature sample_hmac 1700000301000
     (sr_body (signWebhookRequest sample_hmac 1700000000000 sample_payload ''whsec_1'')) ''whsec_1''
     (sr_timestamp (signWebhookRequest sample_hmac 1700000000000 sample_payload ''whsec_1''))
     (sr_signature (signWebhookRequest sample_hmac 1700000000000 sample_payload ''whsec_1''))"
  using verify_own_signature [OF sample_hmac_documented, of 1700000000000] by simp

text \<open>The signed text can be cut at its first point in one way only: a timestamp that ends
  behind the opening brace of the body is no number.\<close>

lemma signed_text_cut:
  assumes eq: "signed_text t b = signed_text t' b'"
    and "CHR ''.'' \<notin> set t" and "b = CHR ''{'' # rest" and "js_Number t' = Some v"
  shows "t' = t \<and> b' = b"
proof -
  have no_brace: "CHR ''{'' \<notin> set t'" using assms(4) by (rule js_Number_no_brace)
  from eq have "t @ ''.{'' @ rest = t' @ ''.'' @ b'" by (simp add: signed_text_def assms(3))
  then consider us where "t = t' @ us" "us @ ''.{'' @ rest = ''.'' @ b'"
    | us where "t @ us = t'" "''.{'' @ rest = us @ ''.'' @ b'"
    by (auto simp: append_eq_append_conv2)
  then show ?thesis
  proof cases
    case 1
    with assms(2) have "us = []" by (cases us) auto
    with 1 show ?thesis by (simp add: assms(3))
  next
    case 2
    with no_brace have "CHR ''{'' \<notin> set us" by auto
    then have "us = []" using 2(2) by (cases us; cases "tl us") auto
    with 2 show ?thesis by (simp add: assms(3))
  qed
qed

text \<open>A receiver that checks a signature with \<open>verifyWebhookSignature\<close> and accepts it has
  the very body and the very timestamp that were signed, as long as the digest does not
  collide on the two texts: neither can be changed, and nothing can be moved across the point
  between them.\<close>

theorem signature_binds_body_and_time:
  assumes "hmac_documented hmac" and "0 \<le> sent"
    and "verifyWebhookSignature hmac now body secret timestamp
           (sr_signature (signWebhookRequest hmac sent p secret))"
    and "hmac secret (signed_text timestamp body) =
         hmac secret (signed_text (int_toString (sent div 1000)) (jsonStringify (payload_json p))) \<Longrightarrow>
       signed_text timestamp body =
         signed_text (int_toString (sent div 1000)) (jsonStringify (payload_json p))"
  shows "body = sr_body (signWebhookRequest hmac sent p secret) \<and>
    timestamp = sr_timestamp (signWebhookRequest hmac sent p secret)"
proof -
  let ?t = "int_toString (sent div 1000)" and ?b = "jsonStringify (payload_json p)"
  have sig: "sr_signature (signWebhookRequest hmac sent p secret) = hex_encode (hmac secret (signed_text ?t ?b))"
    by (simp add: signWebhookRequest_def signHmacSha256_def Let_def)
  obtain v where v: "js_Number timestamp = Some v"
    using assms(3) by (auto simp: verifyWebhookSignature_def split: option.splits)
  have "hmac secret (signed_text timestamp body) = hmac secret (signed_text ?t ?b)"
    using assms(1,3) v sig hex_decode_encode [of "hmac secret (signed_text ?t ?b)"]
    by (auto simp: verifyWebhookSignature_def verifyHmacSha256_iff hmac_documented_def split: if_splits)
  then have eq: "signed_text ?t ?b = signed_text timestamp body" using assms(4) by simp
  have "?t = nat_toString (nat (sent div 1000))" using assms(2) by (simp add: int_toString_def not_less)
  moreover have "\<not> is_digit (CHR ''.'')" by code_simp
  ultimately have digits: "CHR ''.'' \<notin> set ?t"
    using nat_toString_digits [of "nat (sent div 1000)"] unfolding list_all_iff by metis
  obtain r where "?b = CHR ''{'' # r" by (metis jsonStringify_object payload_json_def)
  then have "timestamp = ?t \<and> body = ?b" using signed_text_cut [OF eq digits _ v] by blast
  then show ?thesis by (simp add: signWebhookRequest_def Let_def)
qed

theorem signature_binds_body_and_time_witness:
  "jsonStringify (payload_json sample_payload) =
     sr_body (signWebhookRequest sample_hmac 1700000000000 sample_payload ''whsec_1'') \<and>
   int_toString (1700000000000 div 1000) =
     sr_timestamp (signWebhookRequest sample_hmac 1700000000000 sample_payload ''whsec_1'')"
proof (rule signature_binds_body_and_time [where now = 1700000000000, OF sample_hmac_documented])
  show "verifyWebhookSignature sample_hmac 1700000000000 (jsonStringify (payload_json sample_payload)) ''whsec_1''
      (int_toString (1700000000000 div 1000))
      (sr_signature (signWebhookRequest sample_hmac 1700000000000 sample_payload ''whsec_1''))"
    using verify_signed [OF sample_hmac_documented _ _ refl, of 1700000000000 1700000000000 sample_payload "''whsec_1''"]
    by (simp add: signWebhookRequest_def Let_def)
qed simp_all

section \<open>The retry schedule\<close>

definition RETRY_SCHEDULE_MS :: "int list" where
  "RETRY_SCHEDULE_MS = [60000, 300000, 900000, 3600000, 21600000, 86400000]"

definition JITTER_RATIO :: rat where
  "JITTER_RATIO = 1 / 5"

text \<open>\<open>Math.round\<close>; \<open>random\<close> is the number \<open>Math.random\<close> returned.\<close>

definition js_round :: "rat \<Rightarrow> int" where
  "js_round x = \<lfloor>x + 1 / 2\<rfloor>"

definition getRetryDelayMs :: "int \<Rightarrow> rat \<Rightarrow> int option" where
  "getRetryDelayMs failedAttempt random =
     (if failedAttempt - 1 < 0 \<or> failedAttempt - 1 \<ge> int (length RETRY_SCHEDULE_MS) then None
      else
        (let base = RETRY_SCHEDULE_MS ! nat (failedAttempt - 1);
             jitter = of_int base * JITTER_RATIO * (random * 2 - 1)
         in Some (js_round (of_int base + jitter))))"

lemma getRetryDelayMs_None: "getRetryDelayMs n r = None \<longleftrightarrow> n < 1 \<or> 6 < n"
  by (auto simp: getRetryDelayMs_def RETRY_SCHEDULE_MS_def Let_def)

lemma jitter_bounds:
  assumes "0 \<le> r" "r < 1" "0 \<le> c"
  shows "4 * c \<le> js_round (of_int (5 * c) + of_int (5 * c) * JITTER_RATIO * (r * 2 - 1))"
    and "js_round (of_int (5 * c) + of_int (5 * c) * JITTER_RATIO * (r * 2 - 1)) \<le> 6 * c"
proof -
  have x: "of_int (5 * c) + of_int (5 * c) * JITTER_RATIO * (r * 2 - 1) = of_int (4 * c) + of_int (2 * c) * r"
    by (simp add: JITTER_RATIO_def algebra_simps)
  have "0 \<le> of_int (2 * c) * r" "of_int (2 * c) * r \<le> of_int (2 * c)"
    using assms by (simp_all add: mult_left_le)
  then show "4 * c \<le> js_round (of_int (5 * c) + of_int (5 * c) * JITTER_RATIO * (r * 2 - 1))"
    "js_round (of_int (5 * c) + of_int (5 * c) * JITTER_RATIO * (r * 2 - 1)) \<le> 6 * c"
    unfolding x js_round_def by (simp_all add: le_floor_iff floor_le_iff)
qed

definition base_delay :: "int \<Rightarrow> int" where
  "base_delay n = RETRY_SCHEDULE_MS ! nat (n - 1)"

lemma schedule_cases:
  fixes n :: int
  assumes "1 \<le> n" "n \<le> 6"
  shows "n \<in> {1, 2, 3, 4, 5, 6}"
  using assms by auto

lemma delay_within:
  assumes "0 \<le> r" "r < 1" and "getRetryDelayMs n r = Some d"
  shows "1 \<le> n \<and> n \<le> 6 \<and> 4 * base_delay n \<le> 5 * d \<and> 5 * d \<le> 6 * base_delay n"
proof -
  have n: "1 \<le> n" "n \<le> 6" using assms(3) getRetryDelayMs_None [of n r] by auto
  obtain c where c: "base_delay n = 5 * c" "0 \<le> c"
  proof
    show "base_delay n = 5 * (base_delay n div 5)" "0 \<le> base_delay n div 5"
      using schedule_cases [OF n] by (auto simp: base_delay_def RETRY_SCHEDULE_MS_def)
  qed
  have "d = js_round (of_int (base_delay n) + of_int (base_delay n) * JITTER_RATIO * (r * 2 - 1))"
    using assms(3) by (auto simp: getRetryDelayMs_def base_delay_def Let_def split: if_splits)
  then show ?thesis using jitter_bounds [OF assms(1,2) c(2)] n by (simp add: c(1))
qed

text \<open>The delay before another attempt exists after the first six failed attempts and no
  later; it lies within a fifth of the table's entry, and whatever the random numbers are, a
  later attempt waits longer than an earlier one.\<close>

theorem retry_delays:
  assumes "0 \<le> r" "r < 1" "0 \<le> r'" "r' < 1"
  shows "(getRetryDelayMs n r \<noteq> None \<longleftrightarrow> 1 \<le> n \<and> n \<le> 6) \<and>
    (\<forall>d d' m. getRetryDelayMs n r = Some d \<and> getRetryDelayMs m r' = Some d' \<longrightarrow>
       4 * base_delay n \<le> 5 * d \<and> 5 * d \<le> 6 * base_delay n \<and> (n < m \<longrightarrow> d < d'))"
proof (intro conjI allI impI)
  show "getRetryDelayMs n r \<noteq> None \<longleftrightarrow> 1 \<le> n \<and> n \<le> 6" by (auto simp: getRetryDelayMs_None)
next
  fix d d' m
  assume ds: "getRetryDelayMs n r = Some d \<and> getRetryDelayMs m r' = Some d'"
  note w = delay_within [OF assms(1,2), of n d] delay_within [OF assms(3,4), of m d']
  show "4 * base_delay n \<le> 5 * d" "5 * d \<le> 6 * base_delay n" using w ds by auto
  assume "n < m"
  have "6 * base_delay n < 4 * base_delay m"
    using w ds \<open>n < m\<close> schedule_cases [of n] schedule_cases [of m]
    by (auto simp: base_delay_def RETRY_SCHEDULE_MS_def)
  then show "d < d'" using w ds by linarith
qed

theorem retry_delays_witness:
  "getRetryDelayMs 7 (1 / 2) = None \<and> getRetryDelayMs 6 (1 / 2) \<noteq> None"
  using retry_delays [of "1 / 2" "1 / 2" 7] retry_delays [of "1 / 2" "1 / 2" 6] by simp

section \<open>One delivery attempt\<close>

record http_request =
  hr_url :: string
  hr_method :: string
  hr_signed :: signed_request
  hr_redirect :: string

text \<open>What \<open>fetch\<close> does: it answers with a status, or throws an \<open>Error\<close> with a message
  (a timeout's abort among them), or something that is no \<open>Error\<close>.\<close>

datatype fetch_result = Responded int | Failed string | FailedOddly

record webhook_world =
  ww_parseUrl :: "string \<Rightarrow> url option"
  ww_lookup :: "string \<Rightarrow> string list option"
  ww_fetch :: "http_request \<Rightarrow> fetch_result"
  ww_hmac :: hmac
  ww_aead :: aead
  ww_jsonColumn :: "(string \<times> json) list \<Rightarrow> (string \<times> json) list"
  ww_start :: millis
  ww_signedAt :: millis
  ww_end :: millis
  ww_recordedAt :: millis
  ww_random :: rat

record delivery_result =
  dr_success :: bool
  dr_statusCode :: "int option"
  dr_responseTimeMs :: int
  dr_error :: "string option"

definition delivery_failed :: "int option \<Rightarrow> int \<Rightarrow> string \<Rightarrow> delivery_result" where
  "delivery_failed code elapsed message =
     \<lparr>dr_success = False, dr_statusCode = code, dr_responseTimeMs = elapsed, dr_error = Some message\<rparr>"

definition delivery_request :: "webhook_world \<Rightarrow> string \<Rightarrow> webhook_event \<Rightarrow> string \<Rightarrow> http_request" where
  "delivery_request w target ev secret =
     \<lparr>hr_url = target, hr_method = ''POST'',
      hr_signed = signWebhookRequest (ww_hmac w) (ww_signedAt w)
        (buildWebhookPayload (evt_id ev) (evt_type ev) (evt_createdAt ev)
           (ww_jsonColumn w (event_json (evt_data ev)))) secret,
      hr_redirect = ''manual''\<rparr>"

definition response_result :: "int \<Rightarrow> int \<Rightarrow> delivery_result" where
  "response_result status elapsed =
     (if status \<ge> 200 \<and> status < 300
      then \<lparr>dr_success = True, dr_statusCode = Some status, dr_responseTimeMs = elapsed, dr_error = None\<rparr>
      else delivery_failed (Some status) elapsed
             (''Merchant endpoint responded with HTTP '' @ int_toString status))"

text \<open>The request that was sent, if any, and what the call returns or throws: an exception of
  \<open>decryptSecret\<close> is not caught.\<close>

definition deliverWebhook ::
    "webhook_world \<Rightarrow> string \<Rightarrow> string \<Rightarrow> webhook_event \<Rightarrow> string \<Rightarrow>
     http_request option \<times> (thrown + delivery_result)" where
  "deliverWebhook w target secretEnc ev encryptionKey =
     (let elapsed = ww_end w - ww_start w
      in case assertSafeWebhookUrl (ww_parseUrl w) (ww_lookup w) target of
           Inl e \<Rightarrow> (None, Inr (delivery_failed None elapsed (ae_message e)))
         | Inr _ \<Rightarrow>
             (case decryptSecret (ww_aead w) secretEnc encryptionKey of
                Inl t \<Rightarrow> (None, Inl t)
              | Inr secret \<Rightarrow>
                  (let request = delivery_request w target ev secret
                   in (Some request,
                       Inr (case ww_fetch w request of
                              Responded status \<Rightarrow> response_result status elapsed
                            | Failed message \<Rightarrow> delivery_failed None elapsed message
                            | FailedOddly \<Rightarrow> delivery_failed None elapsed ''Webhook delivery failed'')))))"


lemma deliverWebhook_success:
  assumes "deliverWebhook w target secretEnc ev encryptionKey = (req, Inr result)" and "dr_success result"
  shows "req \<noteq> None \<and> (\<exists>status. dr_statusCode result = Some status \<and> 200 \<le> status \<and> status < 300)"
  using assms
  by (auto simp: deliverWebhook_def response_result_def delivery_failed_def Let_def
      split: sum.splits fetch_result.splits if_splits)

end
