(* ===== verification/Webhook_Queues.thy ===== *)
theory Webhook_Queues
  imports Webhook_Delivery
begin

text \<open>
  The two webhook queues of the worker: first attempts
  (\<open>apps/worker/src/queues/webhook-dispatch.queue.ts\<close>) and retries
  (\<open>webhook-retry.queue.ts\<close>). The state is the store with the log of the requests that
  left the server, each with the event and the endpoint it was for. The world of an attempt
  is given by event and endpoint.
\<close>

type_synonym sent_entry = "(ident \<times> ident) \<times> http_request"

record outbox = store +
  sent :: "sent_entry list"

type_synonym 'a out_op = "(outbox, thrown, 'a) eff"

type_synonym worlds = "ident \<Rightarrow> ident \<Rightarrow> webhook_world"

definition BATCH_SIZE :: nat where
  "BATCH_SIZE = 25"

definition delivery_pair :: "webhook_delivery \<Rightarrow> ident \<times> ident" where
  "delivery_pair d = (whd_eventId d, whd_endpointId d)"

section \<open>An attempt\<close>

definition log_request :: "ident \<times> ident \<Rightarrow> http_request option \<Rightarrow> sent_entry list" where
  "log_request pair req = (case req of None \<Rightarrow> [] | Some q \<Rightarrow> [(pair, q)])"

definition send_webhook :: "webhook_world \<Rightarrow> string \<Rightarrow> webhook_event \<Rightarrow> webhook_endpoint \<Rightarrow> delivery_result out_op" where
  "send_webhook w encryptionKey ev ep =
     (\<lambda>s. case deliverWebhook w (we_url ep) (we_secretEnc ep) ev encryptionKey of
            (req, r) \<Rightarrow> (r, sent_update (\<lambda>l. l @ log_request (evt_id ev, we_id ep) req) s))"

text \<open>The columns both outcomes write; an absent status code or error leaves the column.\<close>

definition measured :: "delivery_result \<Rightarrow> webhook_delivery \<Rightarrow> webhook_delivery" where
  "measured r d =
     d\<lparr>whd_responseTimeMs := Some (dr_responseTimeMs r),
       whd_statusCode := (case dr_statusCode r of None \<Rightarrow> whd_statusCode d | Some c \<Rightarrow> Some c)\<rparr>"

definition delivered :: "webhook_world \<Rightarrow> delivery_result \<Rightarrow> webhook_delivery \<Rightarrow> webhook_delivery" where
  "delivered w r d =
     (measured r d)\<lparr>whd_status := Whd_SUCCEEDED, whd_deliveredAt := Some (ww_recordedAt w)\<rparr>"

definition undelivered ::
    "webhook_world \<Rightarrow> delivery_status \<Rightarrow> int option \<Rightarrow> delivery_result \<Rightarrow> webhook_delivery \<Rightarrow> webhook_delivery" where
  "undelivered w status delayMs r d =
     (measured r d)\<lparr>whd_status := status,
       whd_nextRetryAt := map_option (\<lambda>ms. ww_recordedAt w + ms) delayMs,
       whd_error := (case dr_error r of None \<Rightarrow> whd_error d | Some e \<Rightarrow> Some e)\<rparr>"

definition update_delivery :: "ident \<Rightarrow> (webhook_delivery \<Rightarrow> webhook_delivery) \<Rightarrow> unit out_op" where
  "update_delivery i f = update_row deliveries deliveries_update (\<lambda>d. whd_id d = i) f"

section \<open>First attempts\<close>

definition new_delivery :: "pass_env \<Rightarrow> webhook_world \<Rightarrow> webhook_event \<Rightarrow> webhook_endpoint \<Rightarrow> webhook_delivery" where
  "new_delivery env w ev ep =
     \<lparr>whd_id = newId env ''whd'' (evt_id ev @ ''/'' @ we_id ep), whd_eventId = evt_id ev,
      whd_endpointId = we_id ep, whd_attempt = 1, whd_status = Whd_PENDING, whd_statusCode = None,
      whd_responseTimeMs = None, whd_error = None, whd_nextRetryAt = None, whd_deliveredAt = None,
      whd_createdAt = ww_start w\<rparr>"

text \<open>The row after the first attempt.\<close>

definition first_outcome :: "webhook_world \<Rightarrow> delivery_result \<Rightarrow> webhook_delivery \<Rightarrow> webhook_delivery" where
  "first_outcome w r d =
     (if dr_success r then delivered w r d
      else undelivered w Whd_FAILED (getRetryDelayMs 1 (ww_random w)) r d)"

definition dispatch_one :: "pass_env \<Rightarrow> worlds \<Rightarrow> string \<Rightarrow> webhook_event \<Rightarrow> webhook_endpoint \<Rightarrow> unit out_op" where
  "dispatch_one env ws encryptionKey ev ep =
     (let w = ws (evt_id ev) (we_id ep); row = new_delivery env w ev ep in
      seq (attempt (seq (create_row deliveries deliveries_update delivery_clash row) (\<lambda>_. ret True))
                   (\<lambda>_. ret False))
        (\<lambda>claimed.
           if \<not> claimed then ret ()
           else seq (send_webhook w encryptionKey ev ep)
                  (\<lambda>r. update_delivery (whd_id row) (first_outcome w r))))"

definition has_delivery :: "'z store_scheme \<Rightarrow> ident \<Rightarrow> bool" where
  "has_delivery s e = list_ex (\<lambda>d. whd_eventId d = e) (deliveries s)"

definition dispatch_batch :: "'z store_scheme \<Rightarrow> webhook_event list" where
  "dispatch_batch s =
     take BATCH_SIZE (sort_key evt_createdAt (filter (\<lambda>e. \<not> has_delivery s (evt_id e)) (events s)))"

definition enabled_endpoints :: "'z store_scheme \<Rightarrow> webhook_event \<Rightarrow> webhook_endpoint list" where
  "enabled_endpoints s ev =
     filter (\<lambda>p. we_organizationId p = evt_organizationId ev \<and> we_enabled p) (endpoints s)"

definition dispatch_pairs :: "'z store_scheme \<Rightarrow> (webhook_event \<times> webhook_endpoint) list" where
  "dispatch_pairs s = concat (map (\<lambda>ev. map (Pair ev) (enabled_endpoints s ev)) (dispatch_batch s))"

text \<open>The nested loop over the events of the batch and their endpoints, both read at the start.\<close>

definition runWebhookDispatch :: "pass_env \<Rightarrow> worlds \<Rightarrow> string \<Rightarrow> unit out_op" where
  "runWebhookDispatch env ws encryptionKey =
     seq (reads (\<lambda>s. map (\<lambda>ev. (ev, enabled_endpoints s ev)) (dispatch_batch s)))
       (for_each (\<lambda>(ev, eps). for_each (dispatch_one env ws encryptionKey ev) eps))"

section \<open>Retries\<close>

definition is_due :: "millis \<Rightarrow> webhook_delivery \<Rightarrow> bool" where
  "is_due now d \<longleftrightarrow>
     whd_status d = Whd_FAILED \<and> (case whd_nextRetryAt d of Some t \<Rightarrow> t \<le> now | None \<Rightarrow> False)"

definition retry_batch :: "millis \<Rightarrow> 'z store_scheme \<Rightarrow> webhook_delivery list" where
  "retry_batch now s = take BATCH_SIZE (filter (is_due now) (deliveries s))"

text \<open>\<open>include: { event: true, endpoint: true }\<close>.\<close>

definition attach_delivery ::
    "'z store_scheme \<Rightarrow> webhook_delivery \<Rightarrow> (webhook_delivery \<times> webhook_event \<times> webhook_endpoint) option" where
  "attach_delivery s d =
     (case (find (\<lambda>e. evt_id e = whd_eventId d) (events s),
            find (\<lambda>p. we_id p = whd_endpointId d) (endpoints s)) of
        (Some ev, Some ep) \<Rightarrow> Some (d, ev, ep)
      | _ \<Rightarrow> None)"

definition retry_outcome :: "webhook_world \<Rightarrow> int \<Rightarrow> delivery_result \<Rightarrow> webhook_delivery \<Rightarrow> webhook_delivery" where
  "retry_outcome w attempt' r d =
     (if dr_success r then (delivered w r d)\<lparr>whd_attempt := attempt'\<rparr>
      else
        (let delayMs = getRetryDelayMs attempt' (ww_random w)
         in (undelivered w (if delayMs = None then Whd_EXHAUSTED else Whd_FAILED) delayMs r d)
              \<lparr>whd_attempt := attempt'\<rparr>))"

definition retry_one :: "worlds \<Rightarrow> string \<Rightarrow> webhook_delivery \<times> webhook_event \<times> webhook_endpoint \<Rightarrow> unit out_op" where
  "retry_one ws encryptionKey =
     (\<lambda>(d, ev, ep).
        let w = ws (evt_id ev) (we_id ep)
        in seq (send_webhook w encryptionKey ev ep)
             (\<lambda>r. update_delivery (whd_id d) (retry_outcome w (whd_attempt d + 1) r)))"

definition runWebhookRetry :: "pass_env \<Rightarrow> worlds \<Rightarrow> string \<Rightarrow> unit out_op" where
  "runWebhookRetry env ws encryptionKey =
     seq (reads (\<lambda>s. map (attach_delivery s) (retry_batch (pe_now env) s)))
       (\<lambda>due. if list_all (\<lambda>x. x \<noteq> None) due
              then for_each (retry_one ws encryptionKey) (map the due)
              else throw (DbThrown InconsistentRelation))"

section \<open>What one attempt does to the state\<close>

definition attempt_made :: "worlds \<Rightarrow> string \<Rightarrow> webhook_event \<Rightarrow> webhook_endpoint \<Rightarrow> http_request option \<times> (thrown + delivery_result)" where
  "attempt_made ws encryptionKey ev ep =
     deliverWebhook (ws (evt_id ev) (we_id ep)) (we_url ep) (we_secretEnc ep) ev encryptionKey"

lemma thrown_sends_nothing: "attempt_made ws key ev ep = (req, Inl t) \<Longrightarrow> req = None"
  by (auto simp: attempt_made_def deliverWebhook_def Let_def split: sum.splits)

lemma log_request_None [simp]: "log_request pair None = []"
  by (simp add: log_request_def)

lemma length_log_request: "length (log_request pair req) \<le> 1"
  by (simp add: log_request_def split: option.splits)

lemma fst_log_request: "x \<in> set (log_request pair req) \<Longrightarrow> fst x = pair"
  by (auto simp: log_request_def split: option.splits)

lemma update_created:
  assumes "\<not> list_ex (delivery_clash row) ds"
  shows "update_rows (\<lambda>d. whd_id d = whd_id row) f (ds @ [row]) = ds @ [f row]"
  using assms by (auto simp: update_rows_def list_ex_iff delivery_clash_def intro!: map_idI)

definition first_row :: "pass_env \<Rightarrow> worlds \<Rightarrow> string \<Rightarrow> webhook_event \<Rightarrow> webhook_endpoint \<Rightarrow> webhook_delivery" where
  "first_row env ws encryptionKey ev ep =
     (let w = ws (evt_id ev) (we_id ep); row = new_delivery env w ev ep
      in case snd (attempt_made ws encryptionKey ev ep) of Inl t \<Rightarrow> row | Inr r \<Rightarrow> first_outcome w r row)"

lemma dispatch_one_result:
  "dispatch_one env ws key ev ep s =
     (if list_ex (delivery_clash (new_delivery env (ws (evt_id ev) (we_id ep)) ev ep)) (deliveries s)
      then (Inr (), s)
      else (map_sum id (\<lambda>_. ()) (snd (attempt_made ws key ev ep)),
            s\<lparr>deliveries := deliveries s @ [first_row env ws key ev ep],
              sent := sent s @ log_request (evt_id ev, we_id ep) (fst (attempt_made ws key ev ep))\<rparr>))"
proof -
  obtain req r where made: "deliverWebhook (ws (evt_id ev) (we_id ep)) (we_url ep) (we_secretEnc ep) ev key = (req, r)"
    by fastforce
  show ?thesis
    by (cases r) (auto simp: dispatch_one_def first_row_def attempt_made_def made Let_def send_webhook_def
        update_delivery_def eff_defs update_created)
qed

definition retried :: "worlds \<Rightarrow> string \<Rightarrow> webhook_delivery \<Rightarrow> webhook_event \<Rightarrow> webhook_endpoint \<Rightarrow> webhook_delivery \<Rightarrow> webhook_delivery" where
  "retried ws encryptionKey d ev ep =
     (case snd (attempt_made ws encryptionKey ev ep) of
        Inl t \<Rightarrow> (\<lambda>x. x)
      | Inr r \<Rightarrow> retry_outcome (ws (evt_id ev) (we_id ep)) (whd_attempt d + 1) r)"

lemma retry_one_result:
  assumes "d \<in> set (deliveries s)"
  shows "retry_one ws key (d, ev, ep) s =
    (map_sum id (\<lambda>_. ()) (snd (attempt_made ws key ev ep)),
     s\<lparr>deliveries := update_rows (\<lambda>x. whd_id x = whd_id d) (retried ws key d ev ep) (deliveries s),
       sent := sent s @ log_request (evt_id ev, we_id ep) (fst (attempt_made ws key ev ep))\<rparr>)"
proof -
  obtain req r where made: "deliverWebhook (ws (evt_id ev) (we_id ep)) (we_url ep) (we_secretEnc ep) ev key = (req, r)"
    by fastforce
  have found: "list_ex (\<lambda>x. whd_id x = whd_id d) (deliveries s)"
    using assms by (auto simp: list_ex_iff)
  show ?thesis
    using found by (cases r) (simp_all add: retry_one_def retried_def attempt_made_def made Let_def
        send_webhook_def update_delivery_def eff_defs update_rows_def)
qed

section \<open>The life of a delivery\<close>

definition MAX_ATTEMPTS :: int where
  "MAX_ATTEMPTS = 7"

definition row_ok :: "webhook_delivery \<Rightarrow> bool" where
  "row_ok d \<longleftrightarrow>
     1 \<le> whd_attempt d \<and> whd_attempt d \<le> MAX_ATTEMPTS \<and>
     (case whd_status d of
        Whd_PENDING \<Rightarrow> whd_attempt d = 1
      | Whd_SUCCEEDED \<Rightarrow>
          whd_deliveredAt d \<noteq> None \<and>
          (case whd_statusCode d of Some c \<Rightarrow> 200 \<le> c \<and> c < 300 | None \<Rightarrow> False)
      | Whd_FAILED \<Rightarrow> whd_attempt d < MAX_ATTEMPTS \<and> whd_nextRetryAt d \<noteq> None
      | Whd_EXHAUSTED \<Rightarrow> whd_attempt d = MAX_ATTEMPTS)"

text \<open>Abstractly: a delivery is created with its first attempt, a failed one is attempted
  again, and nothing else happens to deliveries or requests. An attempt sends at most one
  request, to the pair the delivery is for.\<close>

inductive whd_step :: "outbox \<Rightarrow> outbox \<Rightarrow> bool" where
  First: "\<not> list_ex (delivery_clash row) (deliveries s) \<Longrightarrow> row_ok row \<Longrightarrow> whd_attempt row = 1 \<Longrightarrow>
    length l \<le> 1 \<Longrightarrow> (\<forall>x \<in> set l. fst x = delivery_pair row) \<Longrightarrow>
    s' = s\<lparr>deliveries := deliveries s @ [row], sent := sent s @ l\<rparr> \<Longrightarrow> whd_step s s'"
| Again: "d \<in> set (deliveries s) \<Longrightarrow> whd_status d = Whd_FAILED \<Longrightarrow> row_ok (f d) \<Longrightarrow>
    whd_id (f d) = whd_id d \<Longrightarrow> delivery_pair (f d) = delivery_pair d \<Longrightarrow>
    whd_attempt (f d) = whd_attempt d + 1 \<Longrightarrow>
    length l \<le> 1 \<Longrightarrow> (\<forall>x \<in> set l. fst x = delivery_pair d) \<Longrightarrow>
    s' = s\<lparr>deliveries := update_rows (\<lambda>x. whd_id x = whd_id d) f (deliveries s), sent := sent s @ l\<rparr> \<Longrightarrow>
    whd_step s s'"
| Elsewhere: "deliveries s' = deliveries s \<Longrightarrow> sent s' = sent s \<Longrightarrow> whd_step s s'"

definition requests_to :: "outbox \<Rightarrow> ident \<times> ident \<Rightarrow> http_request list" where
  "requests_to s pair = map snd (filter (\<lambda>x. fst x = pair) (sent s))"

definition outbox_inv :: "outbox \<Rightarrow> bool" where
  "outbox_inv s \<longleftrightarrow>
     distinct (map whd_id (deliveries s)) \<and> distinct (map delivery_pair (deliveries s)) \<and>
     (\<forall>d \<in> set (deliveries s). row_ok d \<and> int (length (requests_to s (delivery_pair d))) \<le> whd_attempt d) \<and>
     fst ` set (sent s) \<subseteq> delivery_pair ` set (deliveries s)"

lemma requests_to_append:
  "requests_to (s\<lparr>deliveries := ds, sent := sent s @ l\<rparr>) pair =
   requests_to s pair @ map snd (filter (\<lambda>x. fst x = pair) l)"
  by (simp add: requests_to_def)

lemma requests_of_others:
  "(\<forall>x \<in> set l. fst x = q) \<Longrightarrow> pair \<noteq> q \<Longrightarrow> filter (\<lambda>x. fst x = pair) l = []"
  by (auto simp: filter_empty_conv)

lemma no_requests_yet:
  "outbox_inv s \<Longrightarrow> pair \<notin> delivery_pair ` set (deliveries s) \<Longrightarrow> requests_to s pair = []"
  by (auto simp: outbox_inv_def requests_to_def filter_empty_conv)

lemma created_keeps_inv:
  assumes inv: "outbox_inv s" and new: "\<not> list_ex (delivery_clash row) (deliveries s)" and ok: "row_ok row" "whd_attempt row = 1"
    and l: "length l \<le> 1" "\<forall>x \<in> set l. fst x = delivery_pair row"
  shows "outbox_inv (s\<lparr>deliveries := deliveries s @ [row], sent := sent s @ l\<rparr>)"
proof -
  have fresh: "delivery_pair row \<notin> delivery_pair ` set (deliveries s)"
    "whd_id row \<notin> whd_id ` set (deliveries s)"
    using new by (auto simp: list_ex_iff delivery_clash_def delivery_pair_def)
  have old: "filter (\<lambda>x. fst x = delivery_pair d) l = []" if "d \<in> set (deliveries s)" for d
    using requests_of_others [OF l(2)] fresh(1) that by (metis imageI)
  have "length (filter (\<lambda>x. fst x = delivery_pair row) l) \<le> 1"
    using l(1) length_filter_le le_trans by blast
  moreover have "fst ` set l \<subseteq> {delivery_pair row}" using l(2) by auto
  ultimately show ?thesis
    using inv fresh old ok no_requests_yet [OF inv fresh(1)]
    by (auto simp: outbox_inv_def requests_to_append)
qed

lemma retried_keeps_inv:
  assumes inv: "outbox_inv s" and d: "d \<in> set (deliveries s)" and ok: "row_ok (f d)"
    and key: "whd_id (f d) = whd_id d" "delivery_pair (f d) = delivery_pair d" and attempt: "whd_attempt (f d) = whd_attempt d + 1"
    and l: "length l \<le> 1" "\<forall>x \<in> set l. fst x = delivery_pair d"
  shows "outbox_inv (s\<lparr>deliveries := update_rows (\<lambda>x. whd_id x = whd_id d) f (deliveries s), sent := sent s @ l\<rparr>)"
proof -
  let ?u = "update_rows (\<lambda>x. whd_id x = whd_id d) f (deliveries s)"
  let ?s = "s\<lparr>deliveries := ?u, sent := sent s @ l\<rparr>"
  have ids: "distinct (map whd_id (deliveries s))" and pairs: "distinct (map delivery_pair (deliveries s))"
    using inv by (simp_all add: outbox_inv_def)
  have u: "?u = map (\<lambda>x. if x = d then f d else x) (deliveries s)"
    using distinct_key_eq [OF ids _ d] by (auto simp: update_rows_def)
  have maps: "map whd_id ?u = map whd_id (deliveries s)" "map delivery_pair ?u = map delivery_pair (deliveries s)"
    unfolding u using key by auto
  have other: "filter (\<lambda>x. fst x = delivery_pair x') l = []" if "x' \<in> set (deliveries s)" "x' \<noteq> d" for x'
    using requests_of_others [OF l(2)] distinct_key_eq [OF pairs that(1) d] that(2) by blast
  have "length (filter (\<lambda>x. fst x = delivery_pair d) l) \<le> 1"
    using l(1) length_filter_le le_trans by blast
  then have row: "row_ok x \<and> int (length (requests_to ?s (delivery_pair x))) \<le> whd_attempt x" if x: "x \<in> set ?u" for x
  proof -
    obtain y where y: "y \<in> set (deliveries s)" "x = (if y = d then f d else y)" using x unfolding u by auto
    have "row_ok y" "int (length (requests_to s (delivery_pair y))) \<le> whd_attempt y"
      using inv y(1) by (auto simp: outbox_inv_def)
    with y ok key attempt other [OF y(1)] \<open>length (filter _ l) \<le> 1\<close> show ?thesis
      by (cases "y = d") (simp_all add: requests_to_append)
  qed
  have "delivery_pair ` set ?u = delivery_pair ` set (deliveries s)" using maps(2) by (metis set_map)
  moreover have "fst ` set l \<subseteq> {delivery_pair d}" using l(2) by auto
  ultimately have "fst ` set (sent s @ l) \<subseteq> delivery_pair ` set ?u"
    using inv d by (auto simp: outbox_inv_def)
  with row show ?thesis using ids pairs by (simp add: outbox_inv_def maps)
qed

lemma whd_step_inv:
  assumes "whd_step s s'" and inv: "outbox_inv s"
  shows "outbox_inv s'"
  using assms(1)
proof cases
  case (First row l)
  then show ?thesis by (simp add: created_keeps_inv [OF inv First(1-5)])
next
  case (Again d f l)
  show ?thesis unfolding Again(9) by (rule retried_keeps_inv [OF inv]) (rule Again)+
next
  case Elsewhere
  then show ?thesis using inv by (simp add: outbox_inv_def requests_to_def)
qed

lemma whd_steps_inv: "whd_step\<^sup>*\<^sup>* s s' \<Longrightarrow> outbox_inv s \<Longrightarrow> outbox_inv s'"
  by (induction rule: rtranclp_induct) (auto intro: whd_step_inv)

section \<open>The passes implement it\<close>

lemmas outcome_defs = first_outcome_def retry_outcome_def delivered_def undelivered_def measured_def

lemma outcome_keeps_key [simp]:
  "whd_id (first_outcome w r d) = whd_id d" "delivery_pair (first_outcome w r d) = delivery_pair d"
  "whd_attempt (first_outcome w r d) = whd_attempt d"
  "whd_id (retry_outcome w n r d) = whd_id d" "delivery_pair (retry_outcome w n r d) = delivery_pair d"
  "whd_attempt (retry_outcome w n r d) = n"
  by (simp_all add: outcome_defs delivery_pair_def Let_def)

lemma success_status:
  assumes "attempt_made ws key ev ep = (req, Inr r)" and "dr_success r"
  shows "\<exists>c. dr_statusCode r = Some c \<and> 200 \<le> c \<and> c < 300"
  using deliverWebhook_success [OF assms(1) [unfolded attempt_made_def] assms(2)] by blast

lemma first_row_ok:
  "row_ok (first_row env ws key ev ep) \<and> whd_attempt (first_row env ws key ev ep) = 1 \<and>
   delivery_pair (first_row env ws key ev ep) = (evt_id ev, we_id ep) \<and>
   whd_id (first_row env ws key ev ep) = whd_id (new_delivery env (ws (evt_id ev) (we_id ep)) ev ep)"
proof -
  obtain req res where made: "attempt_made ws key ev ep = (req, res)" by fastforce
  show ?thesis
  proof (cases res)
    case (Inl t)
    then show ?thesis
      by (simp add: first_row_def made Let_def row_ok_def new_delivery_def MAX_ATTEMPTS_def delivery_pair_def)
  next
    case (Inr r)
    then show ?thesis
      using success_status [OF made [unfolded Inr]] getRetryDelayMs_None [of 1]
      by (auto simp: first_row_def made Let_def row_ok_def new_delivery_def MAX_ATTEMPTS_def
          delivery_pair_def outcome_defs)
  qed
qed

lemma first_row_clash:
  "delivery_clash (first_row env ws key ev ep) = delivery_clash (new_delivery env (ws (evt_id ev) (we_id ep)) ev ep)"
  using first_row_ok [of env ws key ev ep]
  by (simp add: fun_eq_iff delivery_clash_def delivery_pair_def new_delivery_def)

lemma dispatch_one_step: "whd_step s (snd (dispatch_one env ws key ev ep s))"
proof (cases "list_ex (delivery_clash (new_delivery env (ws (evt_id ev) (we_id ep)) ev ep)) (deliveries s)")
  case True
  then show ?thesis by (simp add: dispatch_one_result whd_step.Elsewhere)
next
  case False
  then have fresh: "\<not> list_ex (delivery_clash (first_row env ws key ev ep)) (deliveries s)"
    by (simp only: first_row_clash not_False_eq_True)
  show ?thesis
    by (rule whd_step.First [OF fresh, where l = "log_request (evt_id ev, we_id ep) (fst (attempt_made ws key ev ep))"])
      (use False first_row_ok [of env ws key ev ep] in \<open>simp_all add: dispatch_one_result length_log_request [simplified] fst_log_request\<close>)
qed

lemma for_each_steps:
  assumes "\<And>x t. x \<in> set xs \<Longrightarrow> whd_step\<^sup>*\<^sup>* t (snd (f x t))"
  shows "whd_step\<^sup>*\<^sup>* s (snd (for_each f xs s))"
  using assms
proof (induction xs arbitrary: s)
  case Nil
  then show ?case by (simp add: ret_def)
next
  case (Cons x xs)
  have "whd_step\<^sup>*\<^sup>* s (snd (f x s))" using Cons.prems by simp
  moreover have "whd_step\<^sup>*\<^sup>* t (snd (for_each f xs t))" for t using Cons by simp
  ultimately show ?case
    by (cases "f x s"; cases "fst (f x s)") (auto simp: seq_def intro: rtranclp_trans)
qed

lemma dispatch_steps: "whd_step\<^sup>*\<^sup>* s (snd (runWebhookDispatch env ws key s))"
  unfolding runWebhookDispatch_def seq_reads
  by (rule for_each_steps) (auto intro: for_each_steps r_into_rtranclp [of whd_step, OF dispatch_one_step])

lemma retried_ok:
  assumes ok: "row_ok d" and failed: "whd_status d = Whd_FAILED"
    and made: "attempt_made ws key ev ep = (req, Inr r)"
  shows "row_ok (retried ws key d ev ep d)"
proof -
  have n: "1 \<le> whd_attempt d" "whd_attempt d \<le> 6"
    using ok failed by (simp_all add: row_ok_def MAX_ATTEMPTS_def)
  show ?thesis
    using n success_status [OF made] getRetryDelayMs_None [of "whd_attempt d + 1"]
    by (auto simp: retried_def made row_ok_def outcome_defs MAX_ATTEMPTS_def Let_def)
qed

lemma retry_one_step:
  assumes "d \<in> set (deliveries s)" "whd_status d = Whd_FAILED" "row_ok d"
    and pair: "evt_id ev = whd_eventId d" "we_id ep = whd_endpointId d"
  shows "whd_step s (snd (retry_one ws key (d, ev, ep) s))"
proof -
  obtain req res where made: "attempt_made ws key ev ep = (req, res)" by fastforce
  show ?thesis
  proof (cases res)
    case (Inl t)
    have "req = None" using thrown_sends_nothing made Inl by blast
    then show ?thesis
      using made Inl retry_one_result [OF assms(1), of ws key ev ep]
      by (simp add: retried_def whd_step.Elsewhere update_rows_def)
  next
    case (Inr r)
    have p: "delivery_pair d = (evt_id ev, we_id ep)" by (simp add: delivery_pair_def pair)
    show ?thesis
      by (rule whd_step.Again [where f = "retried ws key d ev ep", OF assms(1,2) retried_ok [OF assms(3,2) made [unfolded Inr]],
            where l = "log_request (evt_id ev, we_id ep) req"])
        (use made Inr retry_one_result [OF assms(1), of ws key ev ep] p in
          \<open>simp_all add: retried_def length_log_request [simplified] fst_log_request\<close>)
  qed
qed

lemma retry_loop_steps:
  assumes "outbox_inv s" and "distinct (map whd_id (map fst ts))"
    and "\<forall>(d, ev, ep) \<in> set ts. d \<in> set (deliveries s) \<and> whd_status d = Whd_FAILED \<and>
      evt_id ev = whd_eventId d \<and> we_id ep = whd_endpointId d"
  shows "whd_step\<^sup>*\<^sup>* s (snd (for_each (retry_one ws key) ts s))"
  using assms
proof (induction ts arbitrary: s)
  case Nil
  then show ?case by (simp add: ret_def)
next
  case (Cons t ts)
  obtain d ev ep where t: "t = (d, ev, ep)" by (cases t)
  have d: "d \<in> set (deliveries s)" "whd_status d = Whd_FAILED" "evt_id ev = whd_eventId d" "we_id ep = whd_endpointId d"
    using Cons.prems(3) by (simp_all add: t)
  have "row_ok d" using Cons.prems(1) d(1) by (simp add: outbox_inv_def)
  then have step: "whd_step s (snd (retry_one ws key t s))" unfolding t using d by (intro retry_one_step)
  show ?case
  proof (cases "fst (retry_one ws key t s)")
    case (Inl e)
    then show ?thesis using step by (cases "retry_one ws key t s") (auto simp: seq_def)
  next
    case (Inr u)
    let ?s = "snd (retry_one ws key t s)"
    have "deliveries ?s = update_rows (\<lambda>x. whd_id x = whd_id d) (retried ws key d ev ep) (deliveries s)"
      unfolding t using retry_one_result [OF d(1), of ws key ev ep] by simp
    then have keep: "d' \<in> set (deliveries ?s)" if "d' \<in> set (deliveries s)" "whd_id d' \<noteq> whd_id d" for d'
      using that by (auto simp: update_rows_def image_iff)
    have ids: "whd_id d \<notin> whd_id ` fst ` set ts" using Cons.prems(2) by (simp add: t image_image)
    have rest: "\<forall>(d', ev', ep') \<in> set ts. d' \<in> set (deliveries ?s) \<and> whd_status d' = Whd_FAILED \<and>
        evt_id ev' = whd_eventId d' \<and> we_id ep' = whd_endpointId d'"
    proof (clarify, intro conjI)
      fix d' ev' ep'
      assume x: "(d', ev', ep') \<in> set ts"
      then have "whd_id d' \<noteq> whd_id d" using ids by (metis fst_conv imageI)
      then show "d' \<in> set (deliveries ?s)" using keep x Cons.prems(3) by auto
      show "whd_status d' = Whd_FAILED" "evt_id ev' = whd_eventId d'" "we_id ep' = whd_endpointId d'"
        using x Cons.prems(3) by auto
    qed
    have "whd_step\<^sup>*\<^sup>* ?s (snd (for_each (retry_one ws key) ts ?s))"
      using Cons.IH [OF whd_step_inv [OF step Cons.prems(1)] _ rest] Cons.prems(2) by simp
    then have "whd_step\<^sup>*\<^sup>* s (snd (for_each (retry_one ws key) ts ?s))"
      using step by (rule converse_rtranclp_into_rtranclp [rotated])
    then show ?thesis using Inr by (cases "retry_one ws key t s") (auto simp: seq_def)
  qed
qed

lemma attach_delivery_Some:
  "attach_delivery s d = Some (d', ev, ep) \<Longrightarrow> d' = d \<and> evt_id ev = whd_eventId d \<and> we_id ep = whd_endpointId d"
  by (auto simp: attach_delivery_def dest!: find_SomeD split: option.splits)

lemma retry_batch_rows:
  assumes "outbox_inv s"
  shows "distinct (map whd_id (retry_batch now s))"
    and "d \<in> set (retry_batch now s) \<Longrightarrow> d \<in> set (deliveries s) \<and> is_due now d"
proof -
  have "distinct (map whd_id (filter (is_due now) (deliveries s)))"
    using assms by (simp add: outbox_inv_def distinct_map_filter)
  then show "distinct (map whd_id (retry_batch now s))"
    by (metis retry_batch_def distinct_take take_map)
  show "d \<in> set (retry_batch now s) \<Longrightarrow> d \<in> set (deliveries s) \<and> is_due now d"
    by (auto simp: retry_batch_def dest: in_set_takeD)
qed

lemma attached_batch:
  assumes "list_all (\<lambda>x. x \<noteq> None) (map (attach_delivery s) ds)"
  shows "map fst (map the (map (attach_delivery s) ds)) = ds"
    and "(d, ev, ep) \<in> set (map the (map (attach_delivery s) ds)) \<Longrightarrow>
      d \<in> set ds \<and> evt_id ev = whd_eventId d \<and> we_id ep = whd_endpointId d"
proof -
  have some: "\<exists>ev ep. attach_delivery s d = Some (d, ev, ep)" if "d \<in> set ds" for d
    using assms that attach_delivery_Some by (fastforce simp: list_all_iff)
  then show "map fst (map the (map (attach_delivery s) ds)) = ds"
    by (induction ds) fastforce+
  show "(d, ev, ep) \<in> set (map the (map (attach_delivery s) ds)) \<Longrightarrow>
      d \<in> set ds \<and> evt_id ev = whd_eventId d \<and> we_id ep = whd_endpointId d"
    using some attach_delivery_Some by fastforce
qed

lemma retry_steps:
  assumes inv: "outbox_inv s"
  shows "whd_step\<^sup>*\<^sup>* s (snd (runWebhookRetry env ws key s))"
proof (cases "list_all (\<lambda>x. x \<noteq> None) (map (attach_delivery s) (retry_batch (pe_now env) s))")
  case False
  then show ?thesis by (simp add: runWebhookRetry_def seq_reads throw_def)
next
  case True
  let ?ts = "map the (map (attach_delivery s) (retry_batch (pe_now env) s))"
  note att = attached_batch [OF True] and rows = retry_batch_rows(1) [OF inv, of "pe_now env"]
  have "distinct (map whd_id (map fst ?ts))"
    using rows unfolding att(1) .
  moreover have "\<forall>(d, ev, ep) \<in> set ?ts. d \<in> set (deliveries s) \<and> whd_status d = Whd_FAILED \<and>
      evt_id ev = whd_eventId d \<and> we_id ep = whd_endpointId d"
  proof clarify
    fix d ev ep
    assume x: "(d, ev, ep) \<in> set ?ts"
    note a = att(2) [OF x]
    show "d \<in> set (deliveries s) \<and> whd_status d = Whd_FAILED \<and>
      evt_id ev = whd_eventId d \<and> we_id ep = whd_endpointId d"
      using a retry_batch_rows(2) [OF inv, of d "pe_now env"] by (simp add: is_due_def)
  qed
  ultimately show ?thesis
    using retry_loop_steps [OF inv, of ?ts ws key] True by (simp add: runWebhookRetry_def seq_reads)
qed

end
