(* ===== verification/Webhook_System.thy ===== *)
theory Webhook_System
  imports Webhook_Queues
begin

text \<open>
  The webhook queues over time: passes of both queues in any order, with any worlds, and
  anything else the platform does to the store in between (new events, new or revoked
  endpoints), which leaves deliveries and the request log alone. What every reachable state
  satisfies, and what a pass does as a function.
\<close>

inductive webhook_pass :: "outbox \<Rightarrow> outbox \<Rightarrow> bool" where
  Dispatch: "webhook_pass s (snd (runWebhookDispatch env ws key s))"
| Retry: "webhook_pass s (snd (runWebhookRetry env ws key s))"
| Meanwhile: "deliveries s' = deliveries s \<Longrightarrow> sent s' = sent s \<Longrightarrow> webhook_pass s s'"

inductive webhook_reachable :: "outbox \<Rightarrow> bool" where
  Start: "deliveries s = [] \<Longrightarrow> sent s = [] \<Longrightarrow> webhook_reachable s"
| Pass: "webhook_reachable s \<Longrightarrow> webhook_pass s s' \<Longrightarrow> webhook_reachable s'"

lemma pass_steps: "webhook_pass s s' \<Longrightarrow> outbox_inv s \<Longrightarrow> whd_step\<^sup>*\<^sup>* s s'"
  by (induction rule: webhook_pass.induct)
    (auto intro: dispatch_steps retry_steps r_into_rtranclp [of whd_step, OF whd_step.Elsewhere])

lemma reachable_outbox_inv: "webhook_reachable s \<Longrightarrow> outbox_inv s"
proof (induction rule: webhook_reachable.induct)
  case (Start s)
  then show ?case by (simp add: outbox_inv_def)
next
  case (Pass s s')
  then show ?case using whd_steps_inv pass_steps by blast
qed

lemma passes_steps:
  assumes "webhook_pass\<^sup>*\<^sup>* s s'" and "outbox_inv s"
  shows "whd_step\<^sup>*\<^sup>* s s' \<and> outbox_inv s'"
  using assms(1)
proof (induction rule: rtranclp_induct)
  case base
  then show ?case using assms(2) by simp
next
  case (step t u)
  then show ?case using pass_steps whd_steps_inv by (meson rtranclp_trans)
qed

section \<open>A sample world\<close>

definition sample_url :: url where
  "sample_url = \<lparr>url_protocol = ''https:'', url_hostname = ''shop.example'', url_href = ''https://shop.example/hook''\<rparr>"

definition sample_world :: "int \<Rightarrow> webhook_world" where
  "sample_world status =
     \<lparr>ww_parseUrl = (\<lambda>_. Some sample_url), ww_lookup = (\<lambda>_. Some [''93.184.216.34'']),
      ww_fetch = (\<lambda>_. Responded status), ww_hmac = sample_hmac,
      ww_aead = \<lparr>aead_seal = (\<lambda>_ _ p. (p, replicate 16 0)), aead_open = (\<lambda>_ _ _ c. Some c)\<rparr>,
      ww_jsonColumn = (\<lambda>d. d), ww_start = 1000, ww_signedAt = 1001, ww_end = 1100,
      ww_recordedAt = 1101, ww_random = 1 / 2\<rparr>"

definition sample_key :: string where
  "sample_key = replicate 64 (CHR ''a'')"

definition sample_event :: "ident \<Rightarrow> ident \<Rightarrow> millis \<Rightarrow> webhook_event" where
  "sample_event i organizationId created =
     \<lparr>evt_id = i, evt_organizationId = organizationId, evt_invoiceId = ''inv_1'', evt_type = ''payment.paid'',
      evt_data = \<lparr>ed_invoice_id = ''inv_1'', ed_external_id = None, ed_amount = ''49'', ed_currency = ''USD'',
        ed_network = ''base'', ed_status = ''paid'', ed_tx_hash = Some ''0xt''\<rparr>,
      evt_createdAt = created\<rparr>"

definition sample_endpoint :: webhook_endpoint where
  "sample_endpoint =
     \<lparr>we_id = ''we_1'', we_organizationId = ''org_1'', we_url = ''https://shop.example/hook'',
      we_enabled = True, we_secretEnc = base64_encode (replicate 28 0), we_revokedAt = None,
      we_createdAt = 0, we_updatedAt = 0\<rparr>"

definition sample_env :: pass_env where
  "sample_env =
     \<lparr>pe_now = 100000, pe_randomBytes = (\<lambda>prefix object'. replicate 20 (length object' mod 62)),
      pe_decimalToString = (\<lambda>_. ''49'')\<rparr>"

definition sample_outbox :: "webhook_event list \<Rightarrow> outbox" where
  "sample_outbox evs =
     \<lparr>invoices = [], payments = [], wallets = [], cursors = [], events = evs, endpoints = [sample_endpoint],
      deliveries = [], users = [], refreshTokens = [], emailTokens = [], organizations = [],
      memberships = [], apiKeys = [], auditLogs = [], sent = []\<rparr>"

definition sample_dispatched :: outbox where
  "sample_dispatched =
     snd (runWebhookDispatch sample_env (\<lambda>_ _. sample_world 503) sample_key
            (sample_outbox [sample_event ''evt_1'' ''org_1'' 900]))"

lemma sample_dispatched_reachable: "webhook_reachable sample_dispatched"
  unfolding sample_dispatched_def
  by (rule webhook_reachable.Pass [OF webhook_reachable.Start webhook_pass.Dispatch])
    (simp_all add: sample_outbox_def)


section \<open>At most seven attempts\<close>

text \<open>C37. In every reachable state there is one delivery at most for an event and an endpoint,
  its attempt counter stays between one and seven and bounds the requests that were sent to
  the endpoint for the event; a failed delivery has attempts left and a time for the next one,
  an exhausted one has used all seven.\<close>

theorem at_most_seven_requests:
  assumes "webhook_reachable s"
  shows "distinct (map delivery_pair (deliveries s)) \<and> length (requests_to s pair) \<le> 7 \<and>
    (\<forall>d \<in> set (deliveries s).
       int (length (requests_to s (delivery_pair d))) \<le> whd_attempt d \<and> whd_attempt d \<le> 7 \<and>
       (whd_status d = Whd_FAILED \<longrightarrow> whd_attempt d < 7 \<and> whd_nextRetryAt d \<noteq> None) \<and>
       (whd_status d = Whd_EXHAUSTED \<longrightarrow> whd_attempt d = 7))"
proof -
  have inv: "outbox_inv s" using assms by (rule reachable_outbox_inv)
  then have rows: "int (length (requests_to s (delivery_pair d))) \<le> whd_attempt d \<and> row_ok d"
    if "d \<in> set (deliveries s)" for d
    using that by (simp add: outbox_inv_def)
  have "length (requests_to s pair) \<le> 7"
  proof (cases "pair \<in> delivery_pair ` set (deliveries s)")
    case True
    then show ?thesis using rows by (force simp: row_ok_def MAX_ATTEMPTS_def)
  next
    case False
    then show ?thesis using no_requests_yet [OF inv] by simp
  qed
  then show ?thesis using inv rows by (auto simp: outbox_inv_def row_ok_def MAX_ATTEMPTS_def)
qed

theorem at_most_seven_requests_witness:
  "length (requests_to sample_dispatched (''evt_1'', ''we_1'')) \<le> 7 \<and>
   distinct (map delivery_pair (deliveries sample_dispatched))"
  using at_most_seven_requests [OF sample_dispatched_reachable, of "(''evt_1'', ''we_1'')"] by blast

section \<open>Only failed deliveries are tried again\<close>

lemma settled_step:
  assumes "whd_step s s'" and "outbox_inv s" and "d \<in> set (deliveries s)" and "whd_status d \<noteq> Whd_FAILED"
  shows "d \<in> set (deliveries s') \<and> requests_to s' (delivery_pair d) = requests_to s (delivery_pair d)"
  using assms(1)
proof cases
  case (First row l)
  have "delivery_pair d \<noteq> delivery_pair row"
    using First(1) assms(3) by (auto simp: list_ex_iff delivery_clash_def delivery_pair_def)
  then show ?thesis using assms(3) requests_of_others [OF First(5)] by (simp add: First(6) requests_to_append)
next
  case (Again e f l)
  have "d \<noteq> e" using Again(2) assms(4) by blast
  then have ne: "whd_id d \<noteq> whd_id e" "delivery_pair d \<noteq> delivery_pair e"
    using assms(2,3) Again(1) by (auto simp: outbox_inv_def dest: distinct_key_eq)
  have "d \<in> set (update_rows (\<lambda>x. whd_id x = whd_id e) f (deliveries s))"
    using assms(3) ne(1) by (auto simp: update_rows_def image_iff intro: bexI [of _ d])
  then show ?thesis
    using requests_of_others [OF Again(8) ne(2)] by (simp add: Again(9) requests_to_append)
next
  case Elsewhere
  then show ?thesis using assms(3) by (simp add: requests_to_def)
qed

lemma settled_steps:
  assumes "whd_step\<^sup>*\<^sup>* s s'" and "outbox_inv s" and "d \<in> set (deliveries s)" and "whd_status d \<noteq> Whd_FAILED"
  shows "d \<in> set (deliveries s') \<and> requests_to s' (delivery_pair d) = requests_to s (delivery_pair d)"
  using assms(1)
proof (induction rule: rtranclp_induct)
  case base
  then show ?case using assms(3) by simp
next
  case (step t u)
  then show ?case using settled_step [of t u d] whd_steps_inv [OF step(1) assms(2)] assms(4) by simp
qed

text \<open>C38. A delivery that succeeded, is exhausted, or was left PENDING never changes again and
  no further request is made for it: a merchant that answered with success is not called again
  for that event, and a delivery whose first attempt was broken off by an exception is never
  taken up again.\<close>

theorem settled_deliveries_stay:
  assumes "webhook_reachable s" and "webhook_pass\<^sup>*\<^sup>* s s'"
    and "d \<in> set (deliveries s)" and "whd_status d \<in> {Whd_SUCCEEDED, Whd_EXHAUSTED, Whd_PENDING}"
  shows "d \<in> set (deliveries s') \<and> requests_to s' (delivery_pair d) = requests_to s (delivery_pair d)"
  using settled_steps [of s s' d] passes_steps [OF assms(2)] reachable_outbox_inv [OF assms(1)] assms(3,4)
  by auto

definition sample_succeeded :: outbox where
  "sample_succeeded =
     snd (runWebhookDispatch sample_env (\<lambda>_ _. sample_world 200) sample_key
            (sample_outbox [sample_event ''evt_1'' ''org_1'' 900]))"

lemma sample_succeeded_status:
  "map whd_status (deliveries sample_succeeded) = [Whd_SUCCEEDED] \<and> length (sent sample_succeeded) = 1"
  by code_simp

lemma sample_dispatched_status:
  "map (\<lambda>d. (whd_status d, whd_nextRetryAt d)) (deliveries sample_dispatched) = [(Whd_FAILED, Some 61101)]"
  by code_simp

lemma sample_succeeded_reachable: "webhook_reachable sample_succeeded"
  unfolding sample_succeeded_def
  by (rule webhook_reachable.Pass [OF webhook_reachable.Start webhook_pass.Dispatch])
    (simp_all add: sample_outbox_def)

theorem settled_deliveries_stay_witness:
  "\<exists>d. whd_status d = Whd_SUCCEEDED \<and>
     d \<in> set (deliveries (snd (runWebhookRetry sample_env (\<lambda>_ _. sample_world 200) sample_key sample_succeeded)))"
proof -
  obtain d where d: "deliveries sample_succeeded = [d]" "whd_status d = Whd_SUCCEEDED"
    using sample_succeeded_status by auto
  have "d \<in> set (deliveries (snd (runWebhookRetry sample_env (\<lambda>_ _. sample_world 200) sample_key sample_succeeded)))"
    using settled_deliveries_stay [OF sample_succeeded_reachable r_into_rtranclp [of webhook_pass], OF webhook_pass.Retry, of d]
      d by simp
  with d(2) show ?thesis by blast
qed

section \<open>What a dispatch pass does\<close>

lemma for_each_concat:
  "for_each (\<lambda>(x, ys). for_each (f x) ys) xs = for_each (\<lambda>(x, y). f x y) (concat (map (\<lambda>(x, ys). map (Pair x) ys) xs))"
proof (induction xs)
  case Nil
  then show ?case by simp
next
  case (Cons a xs)
  obtain x ys where a: "a = (x, ys)" by fastforce
  have "for_each (\<lambda>(x, y). f x y) (map (Pair x) ys) = for_each (f x) ys"
    by (induction ys) simp_all
  with Cons show ?case by (simp add: a for_each_append)
qed

lemma dispatch_pairs_loop:
  "runWebhookDispatch env ws key s = for_each (\<lambda>(ev, ep). dispatch_one env ws key ev ep) (dispatch_pairs s) s"
  by (simp add: runWebhookDispatch_def seq_reads for_each_concat dispatch_pairs_def comp_def)

definition pair_row :: "pass_env \<Rightarrow> worlds \<Rightarrow> string \<Rightarrow> webhook_event \<times> webhook_endpoint \<Rightarrow> webhook_delivery" where
  "pair_row env ws key x = first_row env ws key (fst x) (snd x)"

definition pair_log :: "worlds \<Rightarrow> string \<Rightarrow> webhook_event \<times> webhook_endpoint \<Rightarrow> sent_entry list" where
  "pair_log ws key x = log_request (evt_id (fst x), we_id (snd x)) (fst (attempt_made ws key (fst x) (snd x)))"

definition attempt_returns :: "worlds \<Rightarrow> string \<Rightarrow> webhook_event \<times> webhook_endpoint \<Rightarrow> bool" where
  "attempt_returns ws key x \<longleftrightarrow> (\<exists>r. snd (attempt_made ws key (fst x) (snd x)) = Inr r)"

text \<open>New identifiers collide neither with each other nor with old ones.\<close>

fun rows_fresh :: "pass_env \<Rightarrow> worlds \<Rightarrow> string \<Rightarrow> (webhook_event \<times> webhook_endpoint) list \<Rightarrow> webhook_delivery list \<Rightarrow> bool" where
  "rows_fresh env ws key [] ds = True"
| "rows_fresh env ws key (x # xs) ds =
     (\<not> list_ex (delivery_clash (pair_row env ws key x)) ds \<and>
      rows_fresh env ws key xs (ds @ [pair_row env ws key x]))"

lemma dispatch_loop:
  assumes "rows_fresh env ws key xs (deliveries s)" and "\<forall>x \<in> set xs. attempt_returns ws key x"
  shows "for_each (\<lambda>(ev, ep). dispatch_one env ws key ev ep) xs s =
    (Inr (), s\<lparr>deliveries := deliveries s @ map (pair_row env ws key) xs,
               sent := sent s @ concat (map (pair_log ws key) xs)\<rparr>)"
  using assms
proof (induction xs arbitrary: s)
  case Nil
  then show ?case by (simp add: ret_def)
next
  case (Cons x xs)
  obtain ev ep where x: "x = (ev, ep)" by fastforce
  obtain r where r: "snd (attempt_made ws key ev ep) = Inr r"
    using Cons.prems(2) by (auto simp: x attempt_returns_def)
  let ?s = "s\<lparr>deliveries := deliveries s @ [pair_row env ws key x], sent := sent s @ pair_log ws key x\<rparr>"
  have "\<not> list_ex (delivery_clash (new_delivery env (ws (evt_id ev) (we_id ep)) ev ep)) (deliveries s)"
    using Cons.prems(1) by (simp add: x pair_row_def first_row_clash)
  then have "dispatch_one env ws key ev ep s = (Inr (), ?s)"
    by (simp add: dispatch_one_result r x pair_row_def pair_log_def)
  moreover have "for_each (\<lambda>(ev, ep). dispatch_one env ws key ev ep) xs ?s =
      (Inr (), ?s\<lparr>deliveries := deliveries ?s @ map (pair_row env ws key) xs,
                  sent := sent ?s @ concat (map (pair_log ws key) xs)\<rparr>)"
    using Cons.prems by (intro Cons.IH) simp_all
  ultimately show ?case by (simp add: x seq_Inr)
qed

text \<open>A dispatch pass in which no attempt throws and no identifier collides returns, and
  what it does is this and nothing more: for each of the up to 25 oldest events without a
  delivery, and each enabled endpoint of the event's organization, one delivery is added with
  the outcome of one attempt, and the request of that attempt is sent.\<close>

theorem dispatch_pass_functional:
  assumes "rows_fresh env ws key (dispatch_pairs s) (deliveries s)"
    and "\<forall>x \<in> set (dispatch_pairs s). attempt_returns ws key x"
  shows "runWebhookDispatch env ws key s =
    (Inr (), s\<lparr>deliveries := deliveries s @ map (pair_row env ws key) (dispatch_pairs s),
               sent := sent s @ concat (map (pair_log ws key) (dispatch_pairs s))\<rparr>)"
  unfolding dispatch_pairs_loop by (rule dispatch_loop [OF assms])

theorem dispatch_pass_functional_witness:
  "deliveries (snd (runWebhookDispatch sample_env (\<lambda>_ _. sample_world 503) sample_key
      (sample_outbox [sample_event ''evt_1'' ''org_1'' 900]))) =
   map (pair_row sample_env (\<lambda>_ _. sample_world 503) sample_key) [(sample_event ''evt_1'' ''org_1'' 900, sample_endpoint)]"
proof -
  let ?s = "sample_outbox [sample_event ''evt_1'' ''org_1'' 900]"
  have pairs: "dispatch_pairs ?s = [(sample_event ''evt_1'' ''org_1'' 900, sample_endpoint)]"
    by (simp add: dispatch_pairs_def dispatch_batch_def enabled_endpoints_def has_delivery_def BATCH_SIZE_def
        sample_outbox_def sample_event_def sample_endpoint_def)
  have none: "deliveries ?s = []" by (simp add: sample_outbox_def)
  have ret: "attempt_returns (\<lambda>_ _. sample_world 503) sample_key (sample_event ''evt_1'' ''org_1'' 900, sample_endpoint)"
  proof -
    have "case snd (attempt_made (\<lambda>_ _. sample_world 503) sample_key (sample_event ''evt_1'' ''org_1'' 900) sample_endpoint) of
        Inr r \<Rightarrow> True | Inl t \<Rightarrow> False" by code_simp
    then show ?thesis by (simp add: attempt_returns_def split: sum.splits)
  qed
  have "runWebhookDispatch sample_env (\<lambda>_ _. sample_world 503) sample_key ?s =
    (Inr (), ?s\<lparr>deliveries := deliveries ?s @ map (pair_row sample_env (\<lambda>_ _. sample_world 503) sample_key) (dispatch_pairs ?s),
               sent := sent ?s @ concat (map (pair_log (\<lambda>_ _. sample_world 503) sample_key) (dispatch_pairs ?s))\<rparr>)"
    by (rule dispatch_pass_functional) (simp_all add: pairs none ret)
  then show ?thesis by (simp add: none pairs)
qed

section \<open>Starvation\<close>

definition awaiting :: "'z store_scheme \<Rightarrow> webhook_event \<Rightarrow> bool" where
  "awaiting s e \<longleftrightarrow> \<not> has_delivery s (evt_id e)"

lemma take_sorted_bound:
  assumes "x \<in> set (take n (sort_key f xs))"
  shows "length (filter (\<lambda>y. f y < f x) xs) < n"
proof -
  obtain i where i: "i < n" "i < length xs" "sort_key f xs ! i = x"
    using assms by (auto simp: in_set_conv_nth)
  have len: "length (filter (\<lambda>y. f y < f x) xs) = length (filter (\<lambda>y. f y < f x) (sort_key f xs))"
    by (simp add: filter_sort)
  have "j < i" if "j < length xs" "f (sort_key f xs ! j) < f x" for j
  proof (rule ccontr)
    assume "\<not> j < i"
    then have "f (sort_key f xs ! i) \<le> f (sort_key f xs ! j)"
      using sorted_nth_mono [of "map f (sort_key f xs)" i j] that(1) by simp
    then show False using that(2) i(3) by simp
  qed
  then have "{j. j < length (sort_key f xs) \<and> f (sort_key f xs ! j) < f x} \<subseteq> {..<i}" by auto
  then have "card {j. j < length (sort_key f xs) \<and> f (sort_key f xs ! j) < f x} \<le> i"
    by (metis card_lessThan card_mono finite_lessThan)
  then show ?thesis using i(1) len by (simp add: length_filter_conv_card)
qed

text \<open>C39. Events of organizations without an enabled endpoint never get a delivery, so they are
  looked up again by every pass. When 25 of them are older than every event that could be
  delivered, the pass does nothing: deliveries of all organizations stop until one of those
  organizations enables an endpoint.\<close>

theorem dispatch_starves:
  assumes "\<forall>e \<in> set (events s). awaiting s e \<and> enabled_endpoints s e \<noteq> [] \<longrightarrow>
      25 \<le> length (filter (\<lambda>e'. awaiting s e' \<and> enabled_endpoints s e' = [] \<and> evt_createdAt e' < evt_createdAt e) (events s))"
  shows "runWebhookDispatch env ws key s = (Inr (), s)"
proof -
  have "enabled_endpoints s e = []" if e: "e \<in> set (dispatch_batch s)" for e
  proof (rule ccontr)
    assume some: "enabled_endpoints s e \<noteq> []"
    have mem: "e \<in> set (events s)" "awaiting s e"
      using e by (auto simp: dispatch_batch_def awaiting_def dest: in_set_takeD)
    have "length (filter (\<lambda>y. evt_createdAt y < evt_createdAt e) (filter (awaiting s) (events s))) < 25"
      by (rule take_sorted_bound) (use e in \<open>simp add: dispatch_batch_def BATCH_SIZE_def awaiting_def [abs_def]\<close>)
    moreover have "length (filter (\<lambda>e'. awaiting s e' \<and> enabled_endpoints s e' = [] \<and> evt_createdAt e' < evt_createdAt e) (events s))
        \<le> length (filter (\<lambda>y. evt_createdAt y < evt_createdAt e) (filter (awaiting s) (events s)))"
    proof -
      have "filter (\<lambda>e'. awaiting s e' \<and> enabled_endpoints s e' = [] \<and> evt_createdAt e' < evt_createdAt e) (events s)
        = filter (\<lambda>e'. enabled_endpoints s e' = []) (filter (\<lambda>y. evt_createdAt y < evt_createdAt e) (filter (awaiting s) (events s)))"
        by (simp add: conj_commute conj_left_commute)
      then show ?thesis by (simp only: length_filter_le)
    qed
    ultimately show False using assms some mem by fastforce
  qed
  then have "dispatch_pairs s = []" by (auto simp: dispatch_pairs_def concat_eq_Nil_conv)
  then show ?thesis by (simp add: dispatch_pairs_loop ret_def)
qed

definition starving_outbox :: outbox where
  "starving_outbox =
     sample_outbox (sample_event ''evt_new'' ''org_1'' 900 #
       map (\<lambda>n. sample_event (''evt_'' @ nat_toString n) ''org_2'' 100) [0..<25])"

theorem dispatch_starves_witness:
  "runWebhookDispatch sample_env (\<lambda>_ _. sample_world 200) sample_key starving_outbox = (Inr (), starving_outbox)"
proof (rule dispatch_starves)
  let ?old = "map (\<lambda>n. sample_event (''evt_'' @ nat_toString n) ''org_2'' 100) [0..<25]"
  have evs: "events starving_outbox = sample_event ''evt_new'' ''org_1'' 900 # ?old"
    by (simp add: starving_outbox_def sample_outbox_def)
  have aw: "awaiting starving_outbox e" for e
    by (simp add: awaiting_def has_delivery_def starving_outbox_def sample_outbox_def)
  have eps: "enabled_endpoints starving_outbox e = [] \<longleftrightarrow> evt_organizationId e \<noteq> ''org_1''" for e
    by (simp add: enabled_endpoints_def starving_outbox_def sample_outbox_def sample_endpoint_def)
  have fields [simp]: "evt_organizationId (sample_event i q c) = q" "evt_createdAt (sample_event i q c) = c" for i q c
    by (simp_all add: sample_event_def)
  have "filter (\<lambda>e'. evt_organizationId e' \<noteq> ''org_1'' \<and> evt_createdAt e' < 900) ?old = ?old"
    by (rule filter_True) (auto simp del: upt_rec_numeral)
  then show "\<forall>e \<in> set (events starving_outbox). awaiting starving_outbox e \<and> enabled_endpoints starving_outbox e \<noteq> [] \<longrightarrow>
      25 \<le> length (filter (\<lambda>e'. awaiting starving_outbox e' \<and> enabled_endpoints starving_outbox e' = [] \<and>
        evt_createdAt e' < evt_createdAt e) (events starving_outbox))"
    unfolding evs eps by (auto simp: aw comp_def simp del: upt_rec_numeral)
qed

end
