(* ===== verification/Webhook_Endpoints.thy ===== *)
theory Webhook_Endpoints
  imports Webhook_System Invoices
begin

text \<open>
  Managing webhook endpoints (\<open>webhooks/webhook-endpoints.service.ts\<close>) and the views of an
  endpoint and of a delivery (\<open>webhook-endpoint.presenter.ts\<close>,
  \<open>dashboard/webhook-delivery.presenter.ts\<close>). The resolver and the URL parser are those of
  a \<open>webhook_world\<close>.
\<close>

datatype actor_type = Actor_user | Actor_api_key

record actor =
  act_id :: ident
  act_type :: actor_type

definition actor_type_name :: "actor_type \<Rightarrow> string" where
  "actor_type_name t = (case t of Actor_user \<Rightarrow> ''user'' | Actor_api_key \<Rightarrow> ''api_key'')"

definition endpoint_audit :: "ident \<Rightarrow> actor \<Rightarrow> string \<Rightarrow> ident \<Rightarrow> request_context \<Rightarrow> audit_log" where
  "endpoint_audit organizationId actor action endpointId ctx =
     audit_entry organizationId (act_id actor) (actor_type_name (act_type actor)) action
       ''webhook_endpoint'' endpointId None ctx"

definition create_endpoint ::
    "webhook_world \<Rightarrow> string \<Rightarrow> pass_env \<Rightarrow> ident \<Rightarrow> actor \<Rightarrow> string \<Rightarrow> request_context \<Rightarrow>
     (webhook_endpoint \<times> string) db_op" where
  "create_endpoint w encryptionKey env organizationId actor rawUrl ctx =
     seq (lift (map_sum AppThrown id (assertSafeWebhookUrl (ww_parseUrl w) (ww_lookup w) rawUrl))) (\<lambda>u.
     let secret = generateWebhookSecret (pe_randomBytes env ''whsec'' ''secret'')
     in seq (lift (encryptSecret (ww_aead w) (pe_randomBytes env ''iv'' ''whsec'') secret encryptionKey)) (\<lambda>secretEnc.
        let ep = \<lparr>we_id = newId env ''we'' ''endpoint'', we_organizationId = organizationId,
                  we_url = url_href u, we_enabled = True, we_secretEnc = secretEnc, we_revokedAt = None,
                  we_createdAt = pe_now env, we_updatedAt = pe_now env\<rparr>
        in seq (create_row endpoints endpoints_update (\<lambda>r s. we_id r = we_id s) ep) (\<lambda>_.
           seq (audit_record (endpoint_audit organizationId actor ''webhook_endpoint.create'' (we_id ep) ctx)) (\<lambda>_.
           ret (ep, secret)))))"

definition list_endpoints :: "ident \<Rightarrow> store \<Rightarrow> webhook_endpoint list" where
  "list_endpoints organizationId s =
     sort_key (\<lambda>p. - we_createdAt p) (filter (\<lambda>p. we_organizationId p = organizationId) (endpoints s))"

definition endpoint_of :: "ident \<Rightarrow> ident \<Rightarrow> store \<Rightarrow> webhook_endpoint option" where
  "endpoint_of organizationId endpointId s =
     find (\<lambda>p. we_id p = endpointId \<and> we_organizationId p = organizationId) (endpoints s)"

definition revoke_endpoint ::
    "pass_env \<Rightarrow> ident \<Rightarrow> ident \<Rightarrow> actor \<Rightarrow> request_context \<Rightarrow> unit db_op" where
  "revoke_endpoint env organizationId endpointId actor ctx =
     seq (reads (endpoint_of organizationId endpointId)) (\<lambda>found.
     case found of
       None \<Rightarrow> throw (AppThrown (not_found_error ''Webhook endpoint not found''))
     | Some ep \<Rightarrow>
         seq (update_row endpoints endpoints_update (\<lambda>r. we_id r = we_id ep)
                (\<lambda>r. r\<lparr>we_enabled := False, we_revokedAt := Some (pe_now env), we_updatedAt := pe_now env\<rparr>)) (\<lambda>_.
         audit_record (endpoint_audit organizationId actor ''webhook_endpoint.revoke'' (we_id ep) ctx)))"

text \<open>The deliveries with their events; \<open>limit\<close> is 50 for the dashboard.\<close>

definition listDeliveries ::
    "ident \<Rightarrow> ident \<Rightarrow> nat \<Rightarrow> store \<Rightarrow> thrown + (webhook_delivery \<times> webhook_event option) list" where
  "listDeliveries organizationId endpointId limit s =
     (case endpoint_of organizationId endpointId s of
        None \<Rightarrow> Inl (AppThrown (not_found_error ''Webhook endpoint not found''))
      | Some ep \<Rightarrow>
          Inr (map (\<lambda>d. (d, find (\<lambda>e. evt_id e = whd_eventId d) (events s)))
            (take limit (sort_key (\<lambda>d. - whd_createdAt d)
               (filter (\<lambda>d. whd_endpointId d = endpointId) (deliveries s))))))"

record endpoint_view =
  ev_id :: ident
  ev_url :: string
  ev_enabled :: bool
  ev_revokedAt :: "millis option"
  ev_createdAt :: millis
  ev_updatedAt :: millis

definition toWebhookEndpointView :: "webhook_endpoint \<Rightarrow> endpoint_view" where
  "toWebhookEndpointView p =
     \<lparr>ev_id = we_id p, ev_url = we_url p, ev_enabled = we_enabled p, ev_revokedAt = we_revokedAt p,
      ev_createdAt = we_createdAt p, ev_updatedAt = we_updatedAt p\<rparr>"

definition delivery_status_name :: "delivery_status \<Rightarrow> string" where
  "delivery_status_name st =
     (case st of Whd_PENDING \<Rightarrow> ''PENDING'' | Whd_SUCCEEDED \<Rightarrow> ''SUCCEEDED''
      | Whd_FAILED \<Rightarrow> ''FAILED'' | Whd_EXHAUSTED \<Rightarrow> ''EXHAUSTED'')"

record delivery_view =
  dv_id :: ident
  dv_eventType :: string
  dv_attempt :: int
  dv_status :: string
  dv_statusCode :: "int option"
  dv_responseTimeMs :: "int option"
  dv_error :: "string option"
  dv_nextRetryAt :: "millis option"
  dv_deliveredAt :: "millis option"
  dv_createdAt :: millis

definition toWebhookDeliveryView :: "webhook_delivery \<times> webhook_event \<Rightarrow> delivery_view" where
  "toWebhookDeliveryView = (\<lambda>(d, e).
     \<lparr>dv_id = whd_id d, dv_eventType = evt_type e, dv_attempt = whd_attempt d,
      dv_status = delivery_status_name (whd_status d), dv_statusCode = whd_statusCode d,
      dv_responseTimeMs = whd_responseTimeMs d, dv_error = whd_error d,
      dv_nextRetryAt = whd_nextRetryAt d, dv_deliveredAt = whd_deliveredAt d,
      dv_createdAt = whd_createdAt d\<rparr>)"

section \<open>From the secret shown once to the signature received\<close>

lemma created_endpoint_secret:
  assumes "aead_documented (ww_aead w)"
    and "length (pe_randomBytes env ''iv'' ''whsec'') = 12 \<and> list_all (\<lambda>b. b < 256) (pe_randomBytes env ''iv'' ''whsec'')"
    and "create_endpoint w key env organizationId actor rawUrl ctx s = (Inr (ep, secret), s')"
  shows "decryptSecret (ww_aead w) (we_secretEnc ep) key = Inr secret"
proof -
  have "encryptSecret (ww_aead w) (pe_randomBytes env ''iv'' ''whsec'') secret key = Inr (we_secretEnc ep)"
    using assms(3) by (auto simp: create_endpoint_def seq_eq_Inr Let_def lift_def ret_def)
  then show ?thesis by (rule aes_box.decrypt_encrypt [OF assms(1,2)])
qed

text \<open>C26. The secret a merchant is shown when an endpoint is created verifies every request the
  endpoint is sent later: signed with the decrypted stored secret, it passes the documented
  verification for five minutes.\<close>

theorem webhook_end_to_end:
  assumes aead: "aead_documented (ww_aead w)"
    and iv: "length (pe_randomBytes env ''iv'' ''whsec'') = 12 \<and> list_all (\<lambda>b. b < 256) (pe_randomBytes env ''iv'' ''whsec'')"
    and created: "create_endpoint w key env organizationId actor rawUrl ctx s = (Inr (ep, secret), s')"
    and later: "ww_aead v = ww_aead w" "hmac_documented (ww_hmac v)" "0 \<le> ww_signedAt v" "ww_signedAt v < 2 ^ 53"
    and request: "deliverWebhook v (we_url ep) (we_secretEnc ep) event key = (Some request, result)"
  shows "verifyWebhookSignature (ww_hmac v) now (sr_body (hr_signed request)) secret
      (sr_timestamp (hr_signed request)) (sr_signature (hr_signed request)) \<longleftrightarrow>
    \<bar>now div 1000 - ww_signedAt v div 1000\<bar> \<le> 300"
proof -
  have "decryptSecret (ww_aead v) (we_secretEnc ep) key = Inr secret"
    using created_endpoint_secret [OF aead iv created] later(1) by simp
  then obtain p where "hr_signed request = signWebhookRequest (ww_hmac v) (ww_signedAt v) p secret"
    using request by (auto simp: deliverWebhook_def delivery_request_def Let_def split: sum.splits)
  then show ?thesis using verify_signed [OF later(2-4)] by simp
qed

definition sample_actor :: actor where
  "sample_actor = \<lparr>act_id = ''usr_1'', act_type = Actor_user\<rparr>"

definition sample_endpoint_env :: pass_env where
  "sample_endpoint_env =
     \<lparr>pe_now = 5, pe_randomBytes = (\<lambda>p _. replicate (if p = ''iv'' then 12 else 24) 7),
      pe_decimalToString = (\<lambda>_. '''')\<rparr>"

lemma sample_aead_documented: "aead_documented (ww_aead (sample_world 200))"
  by (simp add: aead_documented_def sample_world_def list_all_iff)

theorem webhook_end_to_end_witness:
  "\<exists>ep secret request.
     fst (create_endpoint (sample_world 200) sample_key sample_endpoint_env ''org_1'' sample_actor
       ''https://shop.example/hook'' \<lparr>rc_ip = ''203.0.113.9'', rc_userAgent = None\<rparr> empty_store) = Inr (ep, secret) \<and>
     fst (deliverWebhook (sample_world 200) (we_url ep) (we_secretEnc ep) (sample_event ''evt_1'' ''org_1'' 900) sample_key)
       = Some request \<and>
     verifyWebhookSignature sample_hmac 200000 (sr_body (hr_signed request)) secret
       (sr_timestamp (hr_signed request)) (sr_signature (hr_signed request))"
proof -
  let ?c = "create_endpoint (sample_world 200) sample_key sample_endpoint_env ''org_1'' sample_actor
       ''https://shop.example/hook'' \<lparr>rc_ip = ''203.0.113.9'', rc_userAgent = None\<rparr> empty_store"
  let ?d = "\<lambda>ep. deliverWebhook (sample_world 200) (we_url ep) (we_secretEnc ep) (sample_event ''evt_1'' ''org_1'' 900) sample_key"
  have "case fst ?c of Inl e \<Rightarrow> False | Inr x \<Rightarrow> fst (?d (fst x)) \<noteq> None" by code_simp
  then have "\<exists>ep secret s'. ?c = (Inr (ep, secret), s') \<and> fst (?d ep) \<noteq> None"
    by (cases ?c) (auto split: sum.splits)
  then obtain ep secret s' where c: "?c = (Inr (ep, secret), s')" and sent: "fst (?d ep) \<noteq> None" by blast
  then obtain request result where d: "?d ep = (Some request, result)" by (cases "?d ep") auto
  have iv: "length (pe_randomBytes sample_endpoint_env ''iv'' ''whsec'') = 12 \<and>
      list_all (\<lambda>b. b < 256) (pe_randomBytes sample_endpoint_env ''iv'' ''whsec'')"
    by (simp add: sample_endpoint_env_def list_all_iff)
  have w: "ww_hmac (sample_world 200) = sample_hmac" "ww_signedAt (sample_world 200) = 1001"
    by (simp_all add: sample_world_def)
  have "verifyWebhookSignature sample_hmac 200000 (sr_body (hr_signed request)) secret
       (sr_timestamp (hr_signed request)) (sr_signature (hr_signed request))"
    using webhook_end_to_end [OF sample_aead_documented iv c refl _ _ _ d, where now = 200000]
    by (simp add: w sample_hmac_documented)
  then show ?thesis using c d by auto
qed

section \<open>Isolation of organizations\<close>

lemma revoke_endpoint_foreign:
  "endpoint_of organizationId endpointId s = None \<Longrightarrow>
   revoke_endpoint env organizationId endpointId actor ctx s =
     (Inl (AppThrown (not_found_error ''Webhook endpoint not found'')), s)"
  by (simp add: revoke_endpoint_def seq_reads throw_def)

lemma listDeliveries_own:
  assumes "listDeliveries organizationId endpointId limit s = Inr ds"
  shows "length ds \<le> limit \<and> (\<forall>x \<in> set ds. whd_endpointId (fst x) = endpointId) \<and>
    (\<exists>ep \<in> set (endpoints s). we_id ep = endpointId \<and> we_organizationId ep = organizationId)"
  using assms
  by (auto simp: listDeliveries_def endpoint_of_def dest!: find_SomeD in_set_takeD split: option.splits)

end
