(* ===== verification/Rate_Limit.thy ===== *)
theory Rate_Limit
  imports Guards
begin

text \<open>
  The Redis rate limiter (\<open>common/guards/redis-rate-limit.guard.ts\<close>): a fixed-window counter
  per category, URL and client, kept in Redis with \<open>INCR\<close> and \<open>EXPIRE\<close>. Redis is the map of
  its counters; a counter whose expiry has come counts as absent, as Redis documents it.
\<close>

section \<open>The counters\<close>

record counter =
  cnt_value :: nat
  cnt_expiresAt :: "millis option"

type_synonym counters = "string \<rightharpoonup> counter"

definition live_counter :: "millis \<Rightarrow> counter option \<Rightarrow> counter option" where
  "live_counter now c =
     (case c of
        Some c' \<Rightarrow> (case cnt_expiresAt c' of Some t \<Rightarrow> if t \<le> now then None else Some c' | None \<Rightarrow> Some c')
      | None \<Rightarrow> None)"

definition redis_incr :: "millis \<Rightarrow> string \<Rightarrow> (counters, thrown, nat) eff" where
  "redis_incr now k m =
     (let c = (case live_counter now (m k) of
                 None \<Rightarrow> \<lparr>cnt_value = 1, cnt_expiresAt = None\<rparr>
               | Some c' \<Rightarrow> c'\<lparr>cnt_value := cnt_value c' + 1\<rparr>)
      in (Inr (cnt_value c), m(k \<mapsto> c)))"

definition redis_expire :: "millis \<Rightarrow> string \<Rightarrow> int \<Rightarrow> (counters, thrown, unit) eff" where
  "redis_expire now k seconds m =
     (Inr (), m(k := map_option (\<lambda>c. c\<lparr>cnt_expiresAt := Some (now + seconds * 1000)\<rparr>)
                (live_counter now (m k))))"

section \<open>The guard\<close>

datatype rate_category = Rate_global | Rate_login | Rate_checkout

definition category_name :: "rate_category \<Rightarrow> string" where
  "category_name c =
     (case c of Rate_global \<Rightarrow> ''global'' | Rate_login \<Rightarrow> ''login'' | Rate_checkout \<Rightarrow> ''checkout'')"

datatype key_by = By_ip | By_ip_email

record resolved_limit =
  rl_limit :: int
  rl_windowSeconds :: int
  rl_keyBy :: key_by

definition resolveLimit :: "api_config \<Rightarrow> rate_category \<Rightarrow> resolved_limit" where
  "resolveLimit cfg category =
     (if category = Rate_login
      then \<lparr>rl_limit = cfg_rateLogin cfg, rl_windowSeconds = 60, rl_keyBy = By_ip_email\<rparr>
      else if category = Rate_checkout
      then \<lparr>rl_limit = cfg_rateCheckout cfg, rl_windowSeconds = 60, rl_keyBy = By_ip\<rparr>
      else \<lparr>rl_limit = cfg_rateGlobal cfg, rl_windowSeconds = 60, rl_keyBy = By_ip\<rparr>)"

definition rate_identity :: "key_by \<Rightarrow> request \<Rightarrow> string" where
  "rate_identity keyBy q =
     (case (keyBy, rq_bodyEmail q) of
        (By_ip_email, Some email) \<Rightarrow> rq_ip q @ '':'' @ to_lower email
      | _ \<Rightarrow> rq_ip q)"

definition rate_key :: "api_config \<Rightarrow> rate_category \<Rightarrow> request \<Rightarrow> string" where
  "rate_key cfg category q =
     ''ratelimit:'' @ category_name category @ '':'' @ rq_url q @ '':'' @
     rate_identity (rl_keyBy (resolveLimit cfg category)) q"

definition RedisRateLimitGuard ::
    "api_config \<Rightarrow> rate_category option \<Rightarrow> millis \<Rightarrow> request \<Rightarrow> (counters, thrown, request) eff" where
  "RedisRateLimitGuard cfg category now q =
     (case category of
        None \<Rightarrow> ret q
      | Some cat \<Rightarrow>
          (let r = resolveLimit cfg cat; k = rate_key cfg cat q
           in seq (redis_incr now k) (\<lambda>count.
              seq (if count = 1 then redis_expire now k (rl_windowSeconds r) else ret ()) (\<lambda>_.
              if int count > rl_limit r
              then throw (AppThrown (rate_limited_error ''Too many requests, please try again later''))
              else ret q))))"

section \<open>One counter\<close>

text \<open>What a request does to its own counter, and whether it passes.\<close>

definition next_counter :: "millis \<Rightarrow> counter option \<Rightarrow> counter" where
  "next_counter now c =
     (case live_counter now c of
        Some c' \<Rightarrow> if cnt_value c' = 0 then \<lparr>cnt_value = 1, cnt_expiresAt = Some (now + 60000)\<rparr>
                   else c'\<lparr>cnt_value := cnt_value c' + 1\<rparr>
      | None \<Rightarrow> \<lparr>cnt_value = 1, cnt_expiresAt = Some (now + 60000)\<rparr>)"

lemma limit_window [simp]: "rl_windowSeconds (resolveLimit cfg category) = 60"
  by (simp add: resolveLimit_def)

lemma guard_decides:
  "RedisRateLimitGuard cfg (Some cat) now q m =
    (let c = next_counter now (m (rate_key cfg cat q))
     in (if int (cnt_value c) > rl_limit (resolveLimit cfg cat)
         then Inl (AppThrown (rate_limited_error ''Too many requests, please try again later''))
         else Inr q,
         m(rate_key cfg cat q \<mapsto> c)))"
  by (auto simp: RedisRateLimitGuard_def redis_incr_def redis_expire_def next_counter_def live_counter_def
      seq_def ret_def throw_def Let_def split: option.splits)

section \<open>A run of requests\<close>

text \<open>The requests of a list of arrivals that the guard lets through.\<close>

fun let_through ::
    "api_config \<Rightarrow> rate_category \<Rightarrow> (millis \<times> request) list \<Rightarrow> counters \<Rightarrow> (millis \<times> request) list" where
  "let_through cfg cat [] m = []"
| "let_through cfg cat ((now, q) # rest) m =
     (case RedisRateLimitGuard cfg (Some cat) now q m of
        (Inl e, m') \<Rightarrow> let_through cfg cat rest m'
      | (Inr q', m') \<Rightarrow> (now, q') # let_through cfg cat rest m')"

definition passed :: "api_config \<Rightarrow> rate_category \<Rightarrow> string \<Rightarrow> (millis \<times> request) list \<Rightarrow> counters \<Rightarrow> int" where
  "passed cfg cat k arrivals m =
     int (length (filter (\<lambda>(t, q). rate_key cfg cat q = k) (let_through cfg cat arrivals m)))"

lemma passed_Nil [simp]: "passed cfg cat k [] m = 0"
  by (simp add: passed_def)

lemma passed_Cons:
  "passed cfg cat k ((now, q) # rest) m =
    (let c = next_counter now (m (rate_key cfg cat q)); m' = m(rate_key cfg cat q \<mapsto> c)
     in (if rate_key cfg cat q = k \<and> int (cnt_value c) \<le> rl_limit (resolveLimit cfg cat) then 1 else 0) +
        passed cfg cat k rest m')"
  by (simp add: passed_def guard_decides Let_def)

lemma passed_other:
  "rate_key cfg cat q \<noteq> k \<Longrightarrow>
   passed cfg cat k ((now, q) # rest) m =
   passed cfg cat k rest (m(rate_key cfg cat q \<mapsto> next_counter now (m (rate_key cfg cat q))))"
  by (simp add: passed_Cons Let_def)

lemma own_counter: "(m(k \<mapsto> c)) k = Some c"
  by simp

lemma next_counter_cases:
  "next_counter now c = \<lparr>cnt_value = 1, cnt_expiresAt = Some (now + 60000)\<rparr> \<or>
   (\<exists>c'. c = Some c' \<and> next_counter now c = c'\<lparr>cnt_value := cnt_value c' + 1\<rparr>)"
proof (cases "live_counter now c")
  case None
  then show ?thesis by (simp add: next_counter_def)
next
  case (Some c')
  then have "c = Some c'" by (auto simp: live_counter_def split: option.splits if_splits)
  then show ?thesis using Some by (cases "cnt_value c' = 0") (simp_all add: next_counter_def)
qed

lemma other_counter: "j \<noteq> k \<Longrightarrow> (m(j \<mapsto> c)) k = m k"
  by simp

text \<open>What a counter still lets through before it expires.\<close>

definition room :: "int \<Rightarrow> counter option \<Rightarrow> int" where
  "room limit c = (case c of None \<Rightarrow> 0 | Some c' \<Rightarrow> max 0 (limit - int (cnt_value c')))"

lemma passed_in_window:
  assumes "m k = Some c" and "cnt_expiresAt c = Some e" and "0 < cnt_value c"
    and "\<forall>(t, q) \<in> set arrivals. t < e"
  shows "passed cfg cat k arrivals m \<le> room (rl_limit (resolveLimit cfg cat)) (Some c)"
  using assms
proof (induction arrivals arbitrary: m c)
  case Nil
  then show ?case by (simp add: room_def)
next
  case (Cons a rest)
  obtain now q where a: "a = (now, q)" by (cases a)
  have e: "now < e" and rest: "\<forall>(t, q) \<in> set rest. t < e" using Cons.prems(4) by (auto simp: a)
  show ?case
  proof (cases "rate_key cfg cat q = k")
    case False
    then show ?thesis
      using Cons.IH [of "m(rate_key cfg cat q \<mapsto> next_counter now (m (rate_key cfg cat q)))" c]
        Cons.prems(1,2,3) rest
      by (simp add: a passed_other other_counter del: fun_upd_apply)
  next
    case True
    let ?c = "c\<lparr>cnt_value := cnt_value c + 1\<rparr>"
    have "next_counter now (m k) = ?c"
      using Cons.prems(1,2,3) e by (simp add: next_counter_def live_counter_def)
    moreover have "passed cfg cat k rest (m(k \<mapsto> ?c)) \<le> room (rl_limit (resolveLimit cfg cat)) (Some ?c)"
      using Cons.IH [of "m(k \<mapsto> ?c)" ?c] Cons.prems(2) rest by (simp add: own_counter del: fun_upd_apply)
    ultimately show ?thesis by (auto simp: a passed_Cons Let_def True room_def)
  qed
qed

lemma passed_within_minute:
  assumes "sorted (map fst arrivals)" and "\<forall>(t, q) \<in> set arrivals. a \<le> t \<and> t < a + 60000"
  shows "passed cfg cat k arrivals m \<le>
    max 0 (rl_limit (resolveLimit cfg cat)) + room (rl_limit (resolveLimit cfg cat)) (m k)"
  using assms
proof (induction arrivals arbitrary: m)
  case Nil
  then show ?case by (simp add: room_def split: option.split)
next
  case (Cons b rest)
  let ?l = "rl_limit (resolveLimit cfg cat)"
  obtain now q where b: "b = (now, q)" by (cases b)
  have rest: "sorted (map fst rest)" "\<forall>(t, q) \<in> set rest. a \<le> t \<and> t < a + 60000" and a: "a \<le> now"
    using Cons.prems by (auto simp: b)
  show ?case
  proof (cases "rate_key cfg cat q = k")
    case False
    then show ?thesis
      using Cons.IH [OF rest, of "m(rate_key cfg cat q \<mapsto> next_counter now (m (rate_key cfg cat q)))"]
      by (simp add: b passed_other other_counter del: fun_upd_apply)
  next
    case True
    let ?fresh = "\<lparr>cnt_value = 1, cnt_expiresAt = Some (now + 60000)\<rparr>"
    consider (new) "next_counter now (m k) = ?fresh"
      | (counts) c where "m k = Some c" "next_counter now (m k) = c\<lparr>cnt_value := cnt_value c + 1\<rparr>"
      using next_counter_cases [of now "m k"] by blast
    then show ?thesis
    proof cases
      case new
      have "\<forall>(t, q) \<in> set rest. t < now + 60000" using rest(2) a by fastforce
      then have "passed cfg cat k rest (m(k \<mapsto> ?fresh)) \<le> room ?l (Some ?fresh)"
        using passed_in_window [of "m(k \<mapsto> ?fresh)" k ?fresh "now + 60000" rest cfg cat]
        by (simp add: own_counter del: fun_upd_apply)
      then show ?thesis
        by (auto simp: b passed_Cons Let_def True new room_def split: option.split)
    next
      case counts
      let ?c = "c\<lparr>cnt_value := cnt_value c + 1\<rparr>"
      have "passed cfg cat k rest (m(k \<mapsto> ?c)) \<le> max 0 ?l + room ?l (Some ?c)"
        using Cons.IH [OF rest, of "m(k \<mapsto> ?c)"] by (simp add: own_counter del: fun_upd_apply)
      then show ?thesis
        by (auto simp: b passed_Cons Let_def True counts(1) counts(2) [unfolded counts(1)] room_def)
    qed
  qed
qed

text \<open>C28. Within any minute, whatever the counters were before, the limiter lets at most twice
  the limit less one through for one key: a fixed window bounds the rate up to one burst at its
  border. The bound is reached.\<close>

theorem rate_limit_per_minute:
  assumes "sorted (map fst arrivals)" and "\<forall>(t, q) \<in> set arrivals. a \<le> t \<and> t < a + 60000"
    and "\<forall>c \<in> ran m. 0 < cnt_value c" and "1 \<le> rl_limit (resolveLimit cfg cat)"
  shows "passed cfg cat k arrivals m \<le> 2 * rl_limit (resolveLimit cfg cat) - 1"
proof -
  have "room (rl_limit (resolveLimit cfg cat)) (m k) \<le> rl_limit (resolveLimit cfg cat) - 1"
    using assms(3,4) by (force simp: room_def ran_def split: option.split)
  then show ?thesis
    using passed_within_minute [OF assms(1,2), of cfg cat k m] assms(4) by simp
qed

definition sample_client :: request where
  "sample_client =
     \<lparr>rq_method = ''POST'', rq_url = ''/v1/auth/login'', rq_ip = ''203.0.113.9'', rq_cookies = (\<lambda>_. None),
      rq_headers = (\<lambda>_. None), rq_bodyEmail = Some ''A@b.example'', rq_userId = None,
      rq_organizationId = None, rq_membershipRole = None, rq_apiKeyId = None, rq_apiKeyScopes = None\<rparr>"

text \<open>With a limit of 2 and one earlier request at time 0, three of the four requests around the
  border of the window pass.\<close>

theorem rate_limit_per_minute_witness:
  "passed (sample_config\<lparr>cfg_rateLogin := 2\<rparr>) Rate_login
     (rate_key (sample_config\<lparr>cfg_rateLogin := 2\<rparr>) Rate_login sample_client)
     (map (\<lambda>t. (t, sample_client)) [59990, 60000, 60010, 60020])
     [rate_key (sample_config\<lparr>cfg_rateLogin := 2\<rparr>) Rate_login sample_client
        \<mapsto> \<lparr>cnt_value = 1, cnt_expiresAt = Some 60000\<rparr>] = 3"
proof -
  let ?cfg = "sample_config\<lparr>cfg_rateLogin := 2\<rparr>"
  let ?k = "rate_key ?cfg Rate_login sample_client"
  let ?m = "[?k \<mapsto> \<lparr>cnt_value = 1, cnt_expiresAt = Some 60000\<rparr>] :: counters"
  let ?as = "map (\<lambda>t. (t, sample_client)) [59990, 60000, 60010, 60020] :: (millis \<times> request) list"
  have l: "rl_limit (resolveLimit ?cfg Rate_login) = 2" by (simp add: resolveLimit_def)
  have "passed ?cfg Rate_login ?k ?as ?m \<le> 3"
    using rate_limit_per_minute [of ?as 59990 ?m ?cfg Rate_login ?k] l by simp
  moreover have "3 \<le> passed ?cfg Rate_login ?k ?as ?m" by code_simp
  ultimately show ?thesis by simp
qed

section \<open>Limits of the limiter\<close>

text \<open>A client that varies the query string is counted anew: the key holds the URL as sent.\<close>

lemma rate_key_per_url:
  "rq_ip q' = rq_ip q \<Longrightarrow> rq_bodyEmail q' = rq_bodyEmail q \<Longrightarrow>
   rate_key cfg cat q' = rate_key cfg cat q \<longleftrightarrow> rq_url q' = rq_url q"
proof -
  assume "rq_ip q' = rq_ip q" "rq_bodyEmail q' = rq_bodyEmail q"
  then have "rate_identity by' q' = rate_identity by' q" for by'
    by (simp add: rate_identity_def split: option.split key_by.split)
  then show ?thesis by (simp add: rate_key_def)
qed

text \<open>A counter that lost its expiry, because the process ended between \<open>INCR\<close> and \<open>EXPIRE\<close>,
  refuses its client at every later time once the limit is used up.\<close>

lemma counter_without_expiry_blocks:
  assumes "m (rate_key cfg cat q) = Some c" and "cnt_expiresAt c = None" and "0 < cnt_value c"
    and "rl_limit (resolveLimit cfg cat) \<le> int (cnt_value c)"
  shows "fst (RedisRateLimitGuard cfg (Some cat) now q m) =
    Inl (AppThrown (rate_limited_error ''Too many requests, please try again later''))"
  using assms by (simp add: guard_decides next_counter_def live_counter_def Let_def)

end
