(* ===== verification/Cookies.thy ===== *)
theory Cookies
  imports Guards
begin

text \<open>
  The session cookies (\<open>auth/cookies.util.ts\<close>): what a reply sets and clears, and the browser
  that keeps them. A browser stores one cookie per name and path, sends the cookies whose path
  covers the request's, and shows scripts those that are not \<open>httpOnly\<close>, as RFC 6265 says; the
  lifetime of a cookie and hosts other than the API's are left out.
\<close>

section \<open>The cookies of a session\<close>

datatype same_site = Lax | Strict

record cookie_options =
  co_httpOnly :: bool
  co_secure :: bool
  co_sameSite :: same_site
  co_path :: string
  co_maxAge :: int

datatype cookie_write = SetCookie string string cookie_options | ClearCookie string string

record auth_cookie_config =
  acc_secure :: bool
  acc_accessTtlSeconds :: int
  acc_refreshTtlSeconds :: int

record auth_cookie_values =
  acv_accessToken :: string
  acv_refreshToken :: string
  acv_csrfToken :: string

definition setAuthCookies :: "auth_cookie_config \<Rightarrow> auth_cookie_values \<Rightarrow> cookie_write list" where
  "setAuthCookies c v =
     [SetCookie ''cp_at'' (acv_accessToken v)
        \<lparr>co_httpOnly = True, co_secure = acc_secure c, co_sameSite = Lax, co_path = ''/'',
         co_maxAge = acc_accessTtlSeconds c\<rparr>,
      SetCookie ''cp_rt'' (acv_refreshToken v)
        \<lparr>co_httpOnly = True, co_secure = acc_secure c, co_sameSite = Strict, co_path = ''/v1/auth'',
         co_maxAge = acc_refreshTtlSeconds c\<rparr>,
      SetCookie ''cp_csrf'' (acv_csrfToken v)
        \<lparr>co_httpOnly = False, co_secure = acc_secure c, co_sameSite = Lax, co_path = ''/'',
         co_maxAge = acc_refreshTtlSeconds c\<rparr>]"

definition clearAuthCookies :: "cookie_write list" where
  "clearAuthCookies =
     [ClearCookie ''cp_at'' ''/'', ClearCookie ''cp_rt'' ''/v1/auth'', ClearCookie ''cp_csrf'' ''/'']"

section \<open>The browser\<close>

record jar_cookie =
  jc_name :: string
  jc_path :: string
  jc_value :: string
  jc_httpOnly :: bool

fun write_cookie :: "jar_cookie list \<Rightarrow> cookie_write \<Rightarrow> jar_cookie list" where
  "write_cookie jar (SetCookie name v opts) =
     filter (\<lambda>c. \<not> (jc_name c = name \<and> jc_path c = co_path opts)) jar @
     [\<lparr>jc_name = name, jc_path = co_path opts, jc_value = v, jc_httpOnly = co_httpOnly opts\<rparr>]"
| "write_cookie jar (ClearCookie name path) =
     filter (\<lambda>c. \<not> (jc_name c = name \<and> jc_path c = path)) jar"

definition receive_cookies :: "jar_cookie list \<Rightarrow> cookie_write list \<Rightarrow> jar_cookie list" where
  "receive_cookies jar ws = foldl write_cookie jar ws"

definition path_match :: "string \<Rightarrow> string \<Rightarrow> bool" where
  "path_match cookiePath requestPath \<longleftrightarrow>
     cookiePath = requestPath \<or>
     (starts_with requestPath cookiePath \<and>
      (last cookiePath = CHR ''/'' \<or> requestPath ! length cookiePath = CHR ''/''))"

definition cookies_for :: "string \<Rightarrow> jar_cookie list \<Rightarrow> string \<Rightarrow> string option" where
  "cookies_for path jar name =
     map_option jc_value (find (\<lambda>c. jc_name c = name \<and> path_match (jc_path c) path) jar)"

section \<open>Logging out\<close>

definition auth_cookie_names :: "string set" where
  "auth_cookie_names = {''cp_at'', ''cp_rt'', ''cp_csrf''}"

text \<open>Every cookie that logging in set is gone after logging out, and no other is touched:
  the cleared names and paths are the ones that were set.\<close>

lemma clear_undoes_set:
  assumes "\<forall>c \<in> set jar. jc_name c \<notin> auth_cookie_names"
  shows "receive_cookies (receive_cookies jar (setAuthCookies c v)) clearAuthCookies = jar"
proof -
  have "filter (\<lambda>c. \<not> (jc_name c = n \<and> jc_path c = p)) jar = jar" if "n \<in> auth_cookie_names" for n p
    using assms that by (intro filter_True) auto
  then show ?thesis
    by (simp add: receive_cookies_def setAuthCookies_def clearAuthCookies_def auth_cookie_names_def)
qed

text \<open>What is sent after logging in.\<close>

lemma path_match_root: "path_match ''/'' path \<longleftrightarrow> starts_with path ''/''"
  by (auto simp: path_match_def starts_with_def)

lemma cookies_after_set:
  assumes "\<forall>c \<in> set jar. jc_name c \<notin> auth_cookie_names" and "starts_with path ''/''"
  shows "cookies_for path (receive_cookies jar (setAuthCookies c v)) ''cp_at'' = Some (acv_accessToken v)"
    and "cookies_for path (receive_cookies jar (setAuthCookies c v)) ''cp_csrf'' = Some (acv_csrfToken v)"
proof -
  have "filter (\<lambda>c. \<not> (jc_name c = n \<and> jc_path c = p)) jar = jar" if "n \<in> auth_cookie_names" for n p
    using assms(1) that by (intro filter_True) auto
  moreover have "find (\<lambda>c. jc_name c = n \<and> path_match (jc_path c) path) jar = None" if "n \<in> auth_cookie_names" for n
    using assms(1) that by (auto simp: find_None_iff)
  ultimately show
    "cookies_for path (receive_cookies jar (setAuthCookies c v)) ''cp_at'' = Some (acv_accessToken v)"
    "cookies_for path (receive_cookies jar (setAuthCookies c v)) ''cp_csrf'' = Some (acv_csrfToken v)"
    using assms(2)
    by (simp_all add: receive_cookies_def setAuthCookies_def cookies_for_def auth_cookie_names_def
        find_append path_match_root)
qed

end
