(* ===== verification/Controllers.thy ===== *)
theory Controllers
  imports Organizations Api_Keys Webhook_Endpoints Rate_Limit Cookies Validation Api_Payments
begin

text \<open>
  The HTTP controllers of the API: for every route its guards, its schema, the service it
  calls and the view it answers with, in the order Nest runs them. The state is that of the
  API process with its database, and the counters of the rate limiter. Requests that fit no
  route, and the parsing of a body into the fields a schema reads, are left to the framework.
\<close>

record server =
  sv_api :: api_state
  sv_counters :: counters

type_synonym 'a srv_op = "(server, thrown, 'a) eff"

definition on_api :: "'a api_op \<Rightarrow> 'a srv_op" where
  "on_api m = (\<lambda>v. case m (sv_api v) of (r, a) \<Rightarrow> (r, v\<lparr>sv_api := a\<rparr>))"

definition on_db :: "'a db_op \<Rightarrow> 'a srv_op" where
  "on_db m = on_api (on_store m)"

definition on_redis :: "(counters, thrown, 'a) eff \<Rightarrow> 'a srv_op" where
  "on_redis m = (\<lambda>v. case m (sv_counters v) of (r, c) \<Rightarrow> (r, v\<lparr>sv_counters := c\<rparr>))"

text \<open>What the controllers are given: configuration, the parameters of the services, zod's two
  format checks and the issues it reports, the confirmations required, the fake chain's
  randomness.\<close>

record api_world =
  wd_cfg :: api_config
  wd_auth :: auth_world
  wd_webhooks :: webhook_world
  wd_isEmail :: "string \<Rightarrow> bool"
  wd_isUrl :: "string \<Rightarrow> bool"
  wd_issues :: "(string list \<times> string) list"
  wd_viem :: viem
  wd_mode :: blockchain_mode
  wd_requiredConfirmations :: int
  wd_randomHex :: string
  wd_fakeAddress :: string

definition pipe :: "api_world \<Rightarrow> 'a option \<Rightarrow> ('s, thrown, 'a) eff" where
  "pipe w parsed =
     lift (validation_pipe (\<lambda>p. case p of None \<Rightarrow> Inl (wd_issues w) | Some x \<Rightarrow> Inr x) parsed)"

definition context_of :: "request \<Rightarrow> request_context" where
  "context_of q = extractRequestContext (rq_ip q) (single_header q ''user-agent'')"

datatype body =
    B_ok
  | B_message string
  | B_nothing
  | B_twoFactor string string
  | B_organization organization
  | B_members "(membership \<times> (ident \<times> string) option) list"
  | B_membership membership
  | B_apiKey api_key_view "string option"
  | B_apiKeys "api_key_view list"
  | B_invoice invoice_view
  | B_invoices "invoice_view list" nat nat nat
  | B_checkout checkout_view
  | B_wallet wallet_address
  | B_wallets "wallet_address list"
  | B_endpoint endpoint_view "string option"
  | B_endpoints "endpoint_view list"
  | B_deliveries "delivery_view list"
  | B_health millis

section \<open>\<open>AuthController\<close>\<close>

record auth_reply =
  ar_body :: body
  ar_cookies :: "cookie_write list"

definition issueCookies :: "api_config \<Rightarrow> pass_env \<Rightarrow> auth_tokens \<Rightarrow> cookie_write list" where
  "issueCookies cfg env tokens =
     setAuthCookies
       \<lparr>acc_secure = cfg_cookieSecure cfg, acc_accessTtlSeconds = cfg_accessTtlSeconds cfg,
        acc_refreshTtlSeconds = cfg_refreshTtlSeconds cfg\<rparr>
       \<lparr>acv_accessToken = at_accessToken tokens, acv_refreshToken = at_refreshToken tokens,
        acv_csrfToken = hex_encode (pe_randomBytes env ''csrf'' ''cookie'')\<rparr>"

definition auth_register :: "api_world \<Rightarrow> pass_env \<Rightarrow> request \<Rightarrow> string \<Rightarrow> string \<Rightarrow> body srv_op" where
  "auth_register w env q email password =
     seq (on_redis (RedisRateLimitGuard (wd_cfg w) (Some Rate_global) (pe_now env) q)) (\<lambda>q.
     seq (pipe w (registerSchema (wd_isEmail w) email password)) (\<lambda>(email, password).
     seq (on_db (register (wd_auth w) (wd_cfg w) env email password (context_of q))) (\<lambda>_.
     ret (B_message ''If this email is not already registered, a verification email has been sent.''))))"

definition auth_login :: "api_world \<Rightarrow> pass_env \<Rightarrow> request \<Rightarrow> login_input \<Rightarrow> auth_reply srv_op" where
  "auth_login w env q b =
     seq (on_redis (RedisRateLimitGuard (wd_cfg w) (Some Rate_login) (pe_now env) q)) (\<lambda>q.
     seq (pipe w (loginSchema (wd_isEmail w) b)) (\<lambda>input.
     seq (on_db (login (wd_auth w) (wd_cfg w) env input (context_of q))) (\<lambda>tokens.
     ret \<lparr>ar_body = B_ok, ar_cookies = issueCookies (wd_cfg w) env tokens\<rparr>)))"

definition auth_refresh :: "api_world \<Rightarrow> pass_env \<Rightarrow> request \<Rightarrow> auth_reply db_op" where
  "auth_refresh w env q =
     (case truthy (rq_cookies q ''cp_rt'') of
        None \<Rightarrow> ret \<lparr>ar_body = B_ok, ar_cookies = clearAuthCookies\<rparr>
      | Some raw \<Rightarrow>
          seq (refresh (wd_auth w) (wd_cfg w) env raw (context_of q)) (\<lambda>tokens.
          ret \<lparr>ar_body = B_ok, ar_cookies = issueCookies (wd_cfg w) env tokens\<rparr>))"

definition auth_logout :: "api_world \<Rightarrow> pass_env \<Rightarrow> request \<Rightarrow> auth_reply db_op" where
  "auth_logout w env q =
     seq (CsrfGuard q) (\<lambda>q.
     seq (logout (wd_auth w) (wd_cfg w) env (rq_cookies q ''cp_rt'')) (\<lambda>_.
     ret \<lparr>ar_body = B_ok, ar_cookies = clearAuthCookies\<rparr>))"

definition auth_verify_email :: "api_world \<Rightarrow> pass_env \<Rightarrow> string \<Rightarrow> body db_op" where
  "auth_verify_email w env token =
     seq (pipe w (verifyEmailSchema token)) (\<lambda>token.
     seq (verifyEmail (wd_auth w) (wd_cfg w) env token) (\<lambda>_. ret B_ok))"

definition auth_enable_two_factor :: "api_world \<Rightarrow> pass_env \<Rightarrow> request \<Rightarrow> body db_op" where
  "auth_enable_two_factor w env q =
     seq (session_guards (aw_jwt (wd_auth w)) (wd_cfg w) (pe_now env) q) (\<lambda>q.
     seq (CurrentUserId q) (\<lambda>userId.
     seq (enableTwoFactor (wd_auth w) (wd_cfg w) env userId) (\<lambda>(secret, url).
     ret (B_twoFactor secret url))))"

definition auth_verify_two_factor :: "api_world \<Rightarrow> pass_env \<Rightarrow> request \<Rightarrow> string \<Rightarrow> body db_op" where
  "auth_verify_two_factor w env q code =
     seq (session_guards (aw_jwt (wd_auth w)) (wd_cfg w) (pe_now env) q) (\<lambda>q.
     seq (CurrentUserId q) (\<lambda>userId.
     seq (pipe w (verifyTotpSchema code)) (\<lambda>code.
     seq (confirmTwoFactor (wd_auth w) (wd_cfg w) env userId code) (\<lambda>_. ret B_ok))))"

section \<open>\<open>OrganizationsController\<close>\<close>

text \<open>The two ways into the dashboard, with the user and organization the decorators read.\<close>

definition as_member ::
    "api_world \<Rightarrow> pass_env \<Rightarrow> request \<Rightarrow> (ident \<Rightarrow> 'a db_op) \<Rightarrow> 'a db_op" where
  "as_member w env q h =
     seq (dashboard_guards (aw_jwt (wd_auth w)) (wd_cfg w) (pe_now env) q) (\<lambda>q.
     seq (CurrentOrganizationId q) h)"

definition as_admin ::
    "api_world \<Rightarrow> pass_env \<Rightarrow> request \<Rightarrow> (ident \<Rightarrow> ident \<Rightarrow> 'a db_op) \<Rightarrow> 'a db_op" where
  "as_admin w env q h =
     seq (admin_guards (aw_jwt (wd_auth w)) (wd_cfg w) (pe_now env) q) (\<lambda>q.
     seq (CurrentOrganizationId q) (\<lambda>organizationId.
     seq (CurrentUserId q) (\<lambda>userId. h organizationId userId)))"

definition org_create :: "api_world \<Rightarrow> pass_env \<Rightarrow> request \<Rightarrow> string \<Rightarrow> body db_op" where
  "org_create w env q name =
     seq (session_guards (aw_jwt (wd_auth w)) (wd_cfg w) (pe_now env) q) (\<lambda>q.
     seq (CurrentUserId q) (\<lambda>userId.
     seq (pipe w (createOrganizationSchema name)) (\<lambda>name.
     seq (create_organization env userId name (context_of q)) (\<lambda>o'. ret (B_organization o')))))"

definition org_get_mine :: "api_world \<Rightarrow> pass_env \<Rightarrow> request \<Rightarrow> body db_op" where
  "org_get_mine w env q =
     as_member w env q (\<lambda>organizationId.
     seq (reads (organization_by_id organizationId)) (\<lambda>found.
     case found of
       None \<Rightarrow> throw (AppThrown (not_found_error ''Organization not found''))
     | Some o' \<Rightarrow> ret (B_organization o')))"

definition org_update_mine ::
    "api_world \<Rightarrow> pass_env \<Rightarrow> request \<Rightarrow> string option \<Rightarrow> string option \<Rightarrow> body db_op" where
  "org_update_mine w env q name slug =
     as_admin w env q (\<lambda>organizationId userId.
     seq (pipe w (updateOrganizationSchema name slug)) (\<lambda>(name, slug).
     seq (update_organization organizationId name slug userId (context_of q)) (\<lambda>o'.
     ret (B_organization o'))))"

definition org_list_members :: "api_world \<Rightarrow> pass_env \<Rightarrow> request \<Rightarrow> body db_op" where
  "org_list_members w env q =
     as_member w env q (\<lambda>organizationId.
     seq (reads (listMembers organizationId)) (\<lambda>ms. ret (B_members ms)))"

definition org_invite_member ::
    "api_world \<Rightarrow> pass_env \<Rightarrow> request \<Rightarrow> string \<Rightarrow> membership_role option \<Rightarrow> body db_op" where
  "org_invite_member w env q email role =
     as_admin w env q (\<lambda>organizationId userId.
     seq (pipe w (inviteMemberSchema (wd_isEmail w) email role)) (\<lambda>(email, role).
     seq (inviteMember env organizationId email role userId (context_of q)) (\<lambda>m.
     ret (B_membership m))))"

section \<open>\<open>ApiKeysController\<close>\<close>

definition keys_create ::
    "api_world \<Rightarrow> pass_env \<Rightarrow> request \<Rightarrow> string \<Rightarrow> api_key_environment \<Rightarrow> api_key_scope list \<Rightarrow> body db_op" where
  "keys_create w env q name environment scopes =
     as_admin w env q (\<lambda>organizationId userId.
     seq (pipe w (createApiKeySchema name environment scopes)) (\<lambda>(name, environment, scopes).
     seq (create_api_key (aw_hmac (wd_auth w)) (wd_cfg w) env organizationId name environment scopes userId
            (context_of q)) (\<lambda>(k, rawKey).
     ret (B_apiKey (toApiKeyView k) (Some rawKey)))))"

definition keys_list :: "api_world \<Rightarrow> pass_env \<Rightarrow> request \<Rightarrow> body db_op" where
  "keys_list w env q =
     as_member w env q (\<lambda>organizationId.
     seq (reads (list_api_keys organizationId)) (\<lambda>ks. ret (B_apiKeys (map toApiKeyView ks))))"

definition keys_revoke :: "api_world \<Rightarrow> pass_env \<Rightarrow> request \<Rightarrow> ident \<Rightarrow> body db_op" where
  "keys_revoke w env q apiKeyId =
     as_admin w env q (\<lambda>organizationId userId.
     seq (revoke_api_key env organizationId apiKeyId userId (context_of q)) (\<lambda>_. ret B_nothing))"

section \<open>\<open>InvoicesController\<close> and \<open>PaymentsController\<close>\<close>

text \<open>The way into the merchant API, with the organization and key the decorators read.\<close>

definition as_merchant ::
    "api_world \<Rightarrow> pass_env \<Rightarrow> request \<Rightarrow> api_key_scope list \<Rightarrow> (ident \<Rightarrow> ident \<Rightarrow> 'a db_op) \<Rightarrow> 'a db_op" where
  "as_merchant w env q scopes h =
     seq (merchant_guards (aw_hmac (wd_auth w)) (wd_cfg w) (pe_now env) scopes q) (\<lambda>q.
     seq (CurrentOrganizationId q) (\<lambda>organizationId.
     seq (CurrentApiKeyId q) (\<lambda>apiKeyId. h organizationId apiKeyId)))"

definition invoice_body :: "api_world \<Rightarrow> pass_env \<Rightarrow> invoice \<Rightarrow> body" where
  "invoice_body w env i =
     B_invoice (toInvoiceView (pe_decimalToString env) i (cfg_checkoutBaseUrl (wd_cfg w)))"

definition invoices_create :: "api_world \<Rightarrow> pass_env \<Rightarrow> request \<Rightarrow> create_invoice_input \<Rightarrow> body db_op" where
  "invoices_create w env q b =
     as_merchant w env q [Invoices_write] (\<lambda>organizationId apiKeyId.
     seq (pipe w (createInvoiceSchema (wd_isUrl w) b)) (\<lambda>input.
     seq (create_invoice env (wd_mode w) organizationId apiKeyId input (context_of q)) (\<lambda>i.
     ret (invoice_body w env i))))"

definition invoices_get :: "api_world \<Rightarrow> pass_env \<Rightarrow> request \<Rightarrow> ident \<Rightarrow> body db_op" where
  "invoices_get w env q i =
     as_merchant w env q [Invoices_read] (\<lambda>organizationId _.
     seq (reads (getById organizationId i)) (\<lambda>found. lift (map_sum id (invoice_body w env) found)))"

definition payments_simulate ::
    "api_world \<Rightarrow> pass_env \<Rightarrow> request \<Rightarrow> ident \<Rightarrow> string option \<Rightarrow> body srv_op" where
  "payments_simulate w env q i amount =
     seq (on_db (as_merchant w env q [Invoices_write] (\<lambda>organizationId _. ret organizationId))) (\<lambda>organizationId.
     seq (pipe w (simulatePaymentSchema amount)) (\<lambda>amount.
     seq (on_api (simulatePayment (wd_viem w) env (wd_requiredConfirmations w) (wd_randomHex w)
            (wd_fakeAddress w) organizationId i (map_option decimal_of_string amount))) (\<lambda>i.
     ret (invoice_body w env i))))"

section \<open>\<open>CheckoutController\<close>\<close>

definition checkout_get :: "api_world \<Rightarrow> pass_env \<Rightarrow> request \<Rightarrow> ident \<Rightarrow> body srv_op" where
  "checkout_get w env q i =
     seq (on_redis (RedisRateLimitGuard (wd_cfg w) (Some Rate_checkout) (pe_now env) q)) (\<lambda>_.
     seq (on_db (reads (checkout_page (pe_decimalToString env) i))) (\<lambda>found.
     lift (map_sum id B_checkout found)))"

definition checkout_simulate ::
    "api_world \<Rightarrow> pass_env \<Rightarrow> request \<Rightarrow> ident \<Rightarrow> string option \<Rightarrow> body srv_op" where
  "checkout_simulate w env q i amount =
     seq (on_redis (RedisRateLimitGuard (wd_cfg w) (Some Rate_checkout) (pe_now env) q)) (\<lambda>_.
     seq (pipe w (simulatePaymentSchema amount)) (\<lambda>amount.
     seq (on_api (simulatePaymentForCheckout (wd_viem w) env (wd_requiredConfirmations w) (wd_randomHex w)
            (wd_fakeAddress w) i (map_option decimal_of_string amount))) (\<lambda>j.
     seq (on_db (reads (checkout_page (pe_decimalToString env) (inv_id j)))) (\<lambda>found.
     lift (map_sum id B_checkout found)))))"

section \<open>\<open>WalletAddressesController\<close>\<close>

definition wallets_list :: "api_world \<Rightarrow> pass_env \<Rightarrow> request \<Rightarrow> body db_op" where
  "wallets_list w env q =
     as_member w env q (\<lambda>organizationId.
     seq (reads (list_wallets organizationId)) (\<lambda>ws. ret (B_wallets ws)))"

text \<open>The registry of the process, as adapters at the time of the request.\<close>

definition adapters :: "api_world \<Rightarrow> pass_env \<Rightarrow> (string \<rightharpoonup> adapter_instance) \<Rightarrow> (string \<rightharpoonup> chain_adapter)" where
  "adapters w env registry = (\<lambda>n. map_option (adapter_of (wd_viem w) (pe_now env)) (registry n))"

definition wallets_set ::
    "api_world \<Rightarrow> pass_env \<Rightarrow> (string \<rightharpoonup> adapter_instance) \<Rightarrow> request \<Rightarrow> string \<Rightarrow> string \<Rightarrow> string \<Rightarrow> body db_op" where
  "wallets_set w env registry q network token address =
     as_admin w env q (\<lambda>organizationId userId.
     seq (pipe w (setWalletAddressSchema network token address)) (\<lambda>(network, token, address).
     seq (set_wallet env (adapters w env registry) organizationId userId network token address (context_of q)) (\<lambda>x.
     ret (B_wallet x))))"

section \<open>\<open>WebhookEndpointsController\<close>\<close>

definition endpoints_create :: "api_world \<Rightarrow> pass_env \<Rightarrow> request \<Rightarrow> string \<Rightarrow> body db_op" where
  "endpoints_create w env q url =
     as_merchant w env q [Webhooks_write] (\<lambda>organizationId apiKeyId.
     seq (pipe w (createWebhookEndpointSchema (wd_isUrl w) url)) (\<lambda>url.
     seq (create_endpoint (wd_webhooks w) (cfg_encryptionKey (wd_cfg w)) env organizationId
            \<lparr>act_id = apiKeyId, act_type = Actor_api_key\<rparr> url (context_of q)) (\<lambda>(ep, secret).
     ret (B_endpoint (toWebhookEndpointView ep) (Some secret)))))"

definition endpoints_list :: "api_world \<Rightarrow> pass_env \<Rightarrow> request \<Rightarrow> body db_op" where
  "endpoints_list w env q =
     as_merchant w env q [Webhooks_read] (\<lambda>organizationId _.
     seq (reads (list_endpoints organizationId)) (\<lambda>es. ret (B_endpoints (map toWebhookEndpointView es))))"

definition endpoints_revoke :: "api_world \<Rightarrow> pass_env \<Rightarrow> request \<Rightarrow> ident \<Rightarrow> body db_op" where
  "endpoints_revoke w env q i =
     as_merchant w env q [Webhooks_write] (\<lambda>organizationId apiKeyId.
     seq (revoke_endpoint env organizationId i \<lparr>act_id = apiKeyId, act_type = Actor_api_key\<rparr> (context_of q)) (\<lambda>_.
     ret B_nothing))"

section \<open>\<open>DashboardInvoicesController\<close> and \<open>DashboardWebhooksController\<close>\<close>

definition dashboard_invoices_list ::
    "api_world \<Rightarrow> pass_env \<Rightarrow> request \<Rightarrow> int option \<Rightarrow> int option \<Rightarrow> body db_op" where
  "dashboard_invoices_list w env q page limit =
     as_member w env q (\<lambda>organizationId.
     seq (pipe w (paginationQuerySchema page limit)) (\<lambda>(page, limit).
     seq (reads (list_invoices organizationId (nat page) (nat limit))) (\<lambda>(data, total).
     ret (B_invoices
       (map (\<lambda>i. toInvoiceView (pe_decimalToString env) i (cfg_checkoutBaseUrl (wd_cfg w))) data)
       (nat page) (nat limit) total))))"

definition dashboard_invoices_get :: "api_world \<Rightarrow> pass_env \<Rightarrow> request \<Rightarrow> ident \<Rightarrow> body db_op" where
  "dashboard_invoices_get w env q i =
     as_member w env q (\<lambda>organizationId.
     seq (reads (getById organizationId i)) (\<lambda>found. lift (map_sum id (invoice_body w env) found)))"

definition dashboard_webhooks_create :: "api_world \<Rightarrow> pass_env \<Rightarrow> request \<Rightarrow> string \<Rightarrow> body db_op" where
  "dashboard_webhooks_create w env q url =
     as_admin w env q (\<lambda>organizationId userId.
     seq (pipe w (createWebhookEndpointSchema (wd_isUrl w) url)) (\<lambda>url.
     seq (create_endpoint (wd_webhooks w) (cfg_encryptionKey (wd_cfg w)) env organizationId
            \<lparr>act_id = userId, act_type = Actor_user\<rparr> url (context_of q)) (\<lambda>(ep, secret).
     ret (B_endpoint (toWebhookEndpointView ep) (Some secret)))))"

definition dashboard_webhooks_list :: "api_world \<Rightarrow> pass_env \<Rightarrow> request \<Rightarrow> body db_op" where
  "dashboard_webhooks_list w env q =
     as_member w env q (\<lambda>organizationId.
     seq (reads (list_endpoints organizationId)) (\<lambda>es. ret (B_endpoints (map toWebhookEndpointView es))))"

text \<open>The schema gives every delivery its event; a row without one would make Prisma throw.\<close>

definition delivery_views ::
    "(webhook_delivery \<times> webhook_event option) list \<Rightarrow> thrown + delivery_view list" where
  "delivery_views ds =
     (if list_all (\<lambda>x. snd x \<noteq> None) ds
      then Inr (map (\<lambda>x. toWebhookDeliveryView (fst x, the (snd x))) ds)
      else Inl (DbThrown InconsistentRelation))"

definition dashboard_webhooks_deliveries :: "api_world \<Rightarrow> pass_env \<Rightarrow> request \<Rightarrow> ident \<Rightarrow> body db_op" where
  "dashboard_webhooks_deliveries w env q i =
     as_member w env q (\<lambda>organizationId.
     seq (reads (listDeliveries organizationId i 50)) (\<lambda>found.
     seq (lift found) (\<lambda>ds.
     lift (map_sum id B_deliveries (delivery_views ds)))))"

definition dashboard_webhooks_revoke :: "api_world \<Rightarrow> pass_env \<Rightarrow> request \<Rightarrow> ident \<Rightarrow> body db_op" where
  "dashboard_webhooks_revoke w env q i =
     as_admin w env q (\<lambda>organizationId userId.
     seq (revoke_endpoint env organizationId i \<lparr>act_id = userId, act_type = Actor_user\<rparr> (context_of q)) (\<lambda>_.
     ret B_nothing))"

section \<open>\<open>HealthController\<close>\<close>

definition health_check :: "pass_env \<Rightarrow> body" where
  "health_check env = B_health (pe_now env)"

end
