(* ===== verification/Http_Api.thy ===== *)
theory Http_Api
  imports Controllers
begin

text \<open>
  The API as one function: a call is a route with the parsed fields of its request, and the
  answer is what the handler returns, or what the exception filter makes of what it throws.
\<close>

datatype call =
    Auth_register string string
  | Auth_login login_input
  | Auth_refresh
  | Auth_logout
  | Auth_verify_email string
  | Auth_enable_two_factor
  | Auth_verify_two_factor string
  | Org_create string
  | Org_get_mine
  | Org_update_mine "string option" "string option"
  | Org_list_members
  | Org_invite_member string "membership_role option"
  | Keys_create string api_key_environment "api_key_scope list"
  | Keys_list
  | Keys_revoke ident
  | Invoices_create create_invoice_input
  | Invoices_get ident
  | Payments_simulate ident "string option"
  | Checkout_get ident
  | Checkout_simulate ident "string option"
  | Wallets_list
  | Wallets_set string string string
  | Endpoints_create string
  | Endpoints_list
  | Endpoints_revoke ident
  | Dashboard_invoices_list "int option" "int option"
  | Dashboard_invoices_get ident
  | Dashboard_webhooks_create string
  | Dashboard_webhooks_list
  | Dashboard_webhooks_deliveries ident
  | Dashboard_webhooks_revoke ident
  | Health_check

text \<open>The routes for an organization that only read and write the database.\<close>

fun tenant_call :: "api_world \<Rightarrow> pass_env \<Rightarrow> (string \<rightharpoonup> adapter_instance) \<Rightarrow> request \<Rightarrow> call \<Rightarrow> body db_op option" where
  "tenant_call w env registry q Org_get_mine = Some (org_get_mine w env q)"
| "tenant_call w env registry q (Org_update_mine name slug) = Some (org_update_mine w env q name slug)"
| "tenant_call w env registry q Org_list_members = Some (org_list_members w env q)"
| "tenant_call w env registry q (Org_invite_member email role) = Some (org_invite_member w env q email role)"
| "tenant_call w env registry q (Keys_create name e scopes) = Some (keys_create w env q name e scopes)"
| "tenant_call w env registry q Keys_list = Some (keys_list w env q)"
| "tenant_call w env registry q (Keys_revoke i) = Some (keys_revoke w env q i)"
| "tenant_call w env registry q (Invoices_create b) = Some (invoices_create w env q b)"
| "tenant_call w env registry q (Invoices_get i) = Some (invoices_get w env q i)"
| "tenant_call w env registry q Wallets_list = Some (wallets_list w env q)"
| "tenant_call w env registry q (Wallets_set network token address) =
     Some (wallets_set w env registry q network token address)"
| "tenant_call w env registry q (Endpoints_create url) = Some (endpoints_create w env q url)"
| "tenant_call w env registry q Endpoints_list = Some (endpoints_list w env q)"
| "tenant_call w env registry q (Endpoints_revoke i) = Some (endpoints_revoke w env q i)"
| "tenant_call w env registry q (Dashboard_invoices_list page limit) =
     Some (dashboard_invoices_list w env q page limit)"
| "tenant_call w env registry q (Dashboard_invoices_get i) = Some (dashboard_invoices_get w env q i)"
| "tenant_call w env registry q (Dashboard_webhooks_create url) = Some (dashboard_webhooks_create w env q url)"
| "tenant_call w env registry q Dashboard_webhooks_list = Some (dashboard_webhooks_list w env q)"
| "tenant_call w env registry q (Dashboard_webhooks_deliveries i) =
     Some (dashboard_webhooks_deliveries w env q i)"
| "tenant_call w env registry q (Dashboard_webhooks_revoke i) = Some (dashboard_webhooks_revoke w env q i)"
| "tenant_call w env registry q _ = None"

definition plain :: "body \<Rightarrow> auth_reply" where
  "plain b = \<lparr>ar_body = b, ar_cookies = []\<rparr>"

definition map_eff :: "('a \<Rightarrow> 'b) \<Rightarrow> ('s, 'e, 'a) eff \<Rightarrow> ('s, 'e, 'b) eff" where
  "map_eff f m = seq m (\<lambda>x. ret (f x))"

text \<open>The other routes: accounts, the creation of an organization, payment simulation, the
  checkout page, health.\<close>

fun other_call :: "api_world \<Rightarrow> pass_env \<Rightarrow> request \<Rightarrow> call \<Rightarrow> auth_reply srv_op" where
  "other_call w env q (Auth_register email password) = map_eff plain (auth_register w env q email password)"
| "other_call w env q (Auth_login b) = auth_login w env q b"
| "other_call w env q Auth_refresh = on_db (auth_refresh w env q)"
| "other_call w env q Auth_logout = on_db (auth_logout w env q)"
| "other_call w env q (Auth_verify_email token) = map_eff plain (on_db (auth_verify_email w env token))"
| "other_call w env q Auth_enable_two_factor = map_eff plain (on_db (auth_enable_two_factor w env q))"
| "other_call w env q (Auth_verify_two_factor code) = map_eff plain (on_db (auth_verify_two_factor w env q code))"
| "other_call w env q (Org_create name) = map_eff plain (on_db (org_create w env q name))"
| "other_call w env q (Payments_simulate i amount) = map_eff plain (payments_simulate w env q i amount)"
| "other_call w env q (Checkout_get i) = map_eff plain (checkout_get w env q i)"
| "other_call w env q (Checkout_simulate i amount) = map_eff plain (checkout_simulate w env q i amount)"
| "other_call w env q _ = ret (plain (health_check env))"

definition api :: "api_world \<Rightarrow> pass_env \<Rightarrow> request \<Rightarrow> call \<Rightarrow> auth_reply srv_op" where
  "api w env q c =
     (\<lambda>v. (case tenant_call w env (ap_registry (sv_api v)) q c of
             Some m \<Rightarrow> map_eff plain (on_db m) v
           | None \<Rightarrow> other_call w env q c v))"

text \<open>\<open>@HttpCode\<close>, and Nest's default: 201 for POST, 200 otherwise.\<close>

fun success_status :: "call \<Rightarrow> int" where
  "success_status (Auth_register _ _) = 202"
| "success_status (Keys_revoke _) = 204"
| "success_status (Endpoints_revoke _) = 204"
| "success_status (Dashboard_webhooks_revoke _) = 204"
| "success_status (Org_create _) = 201"
| "success_status (Org_invite_member _ _) = 201"
| "success_status (Keys_create _ _ _) = 201"
| "success_status (Invoices_create _) = 201"
| "success_status (Payments_simulate _ _) = 201"
| "success_status (Checkout_simulate _ _) = 201"
| "success_status (Endpoints_create _) = 201"
| "success_status (Dashboard_webhooks_create _) = 201"
| "success_status _ = 200"

definition http_answer :: "string \<Rightarrow> call \<Rightarrow> thrown + auth_reply \<Rightarrow> int \<times> (api_error_response + auth_reply)" where
  "http_answer requestId c result =
     (case result of
        Inr reply \<Rightarrow> (success_status c, Inr reply)
      | Inl e \<Rightarrow> (case exception_filter (Thrown e) requestId of (status, b) \<Rightarrow> (status, Inl b)))"

section \<open>The frame of the lifted operations\<close>

lemma on_db_result:
  "fst (on_db m v) = fst (m (ap_store (sv_api v)))"
  "ap_store (sv_api (snd (on_db m v))) = snd (m (ap_store (sv_api v)))"
  by (simp_all add: on_db_def on_api_def on_store_def split: prod.split)

lemma map_eff_result:
  "fst (map_eff f m v) = map_sum id f (fst (m v))" "snd (map_eff f m v) = snd (m v)"
  by (simp_all add: map_eff_def seq_def ret_def split: prod.split sum.split)

lemma api_tenant:
  assumes "tenant_call w env (ap_registry (sv_api v)) q c = Some m"
  shows "ap_store (sv_api (snd (api w env q c v))) = snd (m (ap_store (sv_api v)))"
    and "fst (api w env q c v) = map_sum id plain (fst (m (ap_store (sv_api v))))"
  using assms by (simp_all add: api_def map_eff_result on_db_result)

end
