(* ===== verification/Tenants.thy ===== *)
theory Tenants
  imports Http_Api
begin

text \<open>
  Organizations do not touch each other through the API. \<open>others\<close> is what the database holds
  that is not an organization's; every service operation of an organization leaves it as it
  was, and so does every route that runs for an organization, which is one the caller has shown
  a membership or an API key of.
\<close>

section \<open>What belongs to the others\<close>

definition others :: "ident \<Rightarrow> store \<Rightarrow> store" where
  "others O' s = s\<lparr>
     invoices := filter (\<lambda>r. inv_organizationId r \<noteq> O') (invoices s),
     wallets := filter (\<lambda>r. wal_organizationId r \<noteq> O') (wallets s),
     endpoints := filter (\<lambda>r. we_organizationId r \<noteq> O') (endpoints s),
     organizations := filter (\<lambda>r. org_id r \<noteq> O') (organizations s),
     memberships := filter (\<lambda>r. mem_organizationId r \<noteq> O') (memberships s),
     apiKeys := map (\<lambda>k. k\<lparr>key_lastUsedAt := None\<rparr>) (filter (\<lambda>r. key_organizationId r \<noteq> O') (apiKeys s)),
     auditLogs := filter (\<lambda>r. aud_organizationId r \<noteq> Some O') (auditLogs s)\<rparr>"

definition keeps_others :: "ident \<Rightarrow> 'a db_op \<Rightarrow> store \<Rightarrow> bool" where
  "keeps_others O' m s \<longleftrightarrow> others O' (snd (m s)) = others O' s"

text \<open>The primary keys of the tables whose rows are updated by key.\<close>

definition ids_unique :: "store \<Rightarrow> bool" where
  "ids_unique s \<longleftrightarrow>
     distinct (map wal_id (wallets s)) \<and> distinct (map we_id (endpoints s)) \<and>
     distinct (map mem_id (memberships s)) \<and> distinct (map key_id (apiKeys s))"

lemma keeps_simps [simp]:
  "keeps_others O' (ret x) s" "keeps_others O' (throw e) s" "keeps_others O' (reads f) s" "keeps_others O' (lift r) s"
  by (simp_all add: keeps_others_def eff_defs split: sum.split)

lemma others_seq:
  assumes "keeps_others O' m s" and "\<And>x t. m s = (Inr x, t) \<Longrightarrow> keeps_others O' (g x) t"
  shows "keeps_others O' (seq m g) s"
  using assms by (cases "m s") (auto simp: keeps_others_def seq_def split: sum.split)

lemma others_reads [simp]: "keeps_others O' (seq (reads f) g) s \<longleftrightarrow> keeps_others O' (g (f s)) s"
  by (simp add: keeps_others_def seq_reads)

lemma others_lift [simp]:
  "keeps_others O' (seq (lift r) g) s \<longleftrightarrow> (\<forall>x. r = Inr x \<longrightarrow> keeps_others O' (g x) s)"
  by (cases r) simp_all

section \<open>Tables with an owner\<close>

locale owned_table =
  fixes rows :: "store \<Rightarrow> 'r list"
    and upd :: "('r list \<Rightarrow> 'r list) \<Rightarrow> store \<Rightarrow> store"
    and owner :: "'r \<Rightarrow> ident"
  assumes others_upd:
    "filter (\<lambda>r. owner r \<noteq> O') (f (rows s)) = filter (\<lambda>r. owner r \<noteq> O') (rows s) \<Longrightarrow>
     others O' (upd f s) = others O' s"
begin

lemma create_own: "owner r = O' \<Longrightarrow> keeps_others O' (create_row rows upd clash r) s"
  by (simp add: keeps_others_def create_row_def others_upd)

lemma update_own:
  assumes "\<And>r. r \<in> set (rows s) \<Longrightarrow> p r \<Longrightarrow> owner r = O' \<and> owner (f r) = O'"
  shows "keeps_others O' (update_row rows upd p f) s"
proof -
  have "filter (\<lambda>r. owner r \<noteq> O') (update_rows p f rs) = filter (\<lambda>r. owner r \<noteq> O') rs"
    if "\<And>r. r \<in> set rs \<Longrightarrow> p r \<Longrightarrow> owner r = O' \<and> owner (f r) = O'" for rs
    using that by (induction rs) (auto simp: update_rows_def)
  then show ?thesis using assms by (simp add: keeps_others_def update_row_def others_upd)
qed

text \<open>A row found for its owner, and updated by its unique key.\<close>

lemma update_found:
  assumes "distinct (map key (rows s))" and "r \<in> set (rows s)" and "owner r = O'"
    and "\<And>x. owner (f x) = owner x"
  shows "keeps_others O' (update_row rows upd (\<lambda>x. key x = key r) f) s"
proof (rule update_own)
  fix x assume x: "x \<in> set (rows s)" "key x = key r"
  then have "x = r" using assms(1,2) by (auto simp: distinct_map dest: inj_onD)
  then show "owner x = O' \<and> owner (f x) = O'" using assms(3,4) by simp
qed

end

interpretation invoice_owned: owned_table invoices invoices_update inv_organizationId
  by unfold_locales (simp add: others_def)

interpretation wallet_owned: owned_table wallets wallets_update wal_organizationId
  by unfold_locales (simp add: others_def)

interpretation endpoint_owned: owned_table endpoints endpoints_update we_organizationId
  by unfold_locales (simp add: others_def)

interpretation organization_owned: owned_table organizations organizations_update org_id
  by unfold_locales (simp add: others_def)

interpretation membership_owned: owned_table memberships memberships_update mem_organizationId
  by unfold_locales (simp add: others_def)

interpretation key_owned: owned_table apiKeys apiKeys_update key_organizationId
  by unfold_locales (simp add: others_def)

lemma audit_own: "aud_organizationId e = Some O' \<Longrightarrow> keeps_others O' (audit_record e) s"
  by (simp add: keeps_others_def audit_record_def modify_def others_def)

lemma audit_entry_own [simp]: "aud_organizationId (audit_entry O' a t act rt ri m ctx) = Some O'"
  by (simp add: audit_entry_def)

lemma endpoint_audit_own [simp]: "aud_organizationId (endpoint_audit O' actor act i ctx) = Some O'"
  by (simp add: endpoint_audit_def)

section \<open>The services\<close>

lemmas keeps_intros = others_seq audit_own invoice_owned.create_own wallet_owned.create_own
  endpoint_owned.create_own organization_owned.create_own membership_owned.create_own key_owned.create_own

lemma create_api_key_keeps:
  "keeps_others O' (create_api_key hmac cfg env O' name e scopes actorId ctx) s"
proof -
  have "key_organizationId (fst (new_api_key hmac cfg env O' name e scopes)) = O'"
    by (simp add: new_api_key_def Let_def)
  then show ?thesis
    by (auto simp: create_api_key_def split: prod.split intro!: keeps_intros)
qed

lemma revoke_api_key_keeps:
  assumes "ids_unique s"
  shows "keeps_others O' (revoke_api_key env O' i actorId ctx) s"
proof -
  have "keeps_others O' (update_row apiKeys apiKeys_update (\<lambda>r. key_id r = key_id k)
      (\<lambda>r. r\<lparr>key_revokedAt := Some t\<rparr>)) s"
    if "find (\<lambda>k. key_id k = i \<and> key_organizationId k = O') (apiKeys s) = Some k" for k t
    using key_owned.update_found [of key_id s k O'] find_SomeD [OF that] assms by (simp add: ids_unique_def)
  then show ?thesis
    by (auto simp: revoke_api_key_def split: option.split intro!: keeps_intros)
qed

lemma create_endpoint_keeps: "keeps_others O' (create_endpoint w key env O' actor url ctx) s"
  by (auto simp: create_endpoint_def Let_def intro!: keeps_intros)

lemma revoke_endpoint_keeps:
  assumes "ids_unique s"
  shows "keeps_others O' (revoke_endpoint env O' i actor ctx) s"
proof -
  have "keeps_others O' (update_row endpoints endpoints_update (\<lambda>r. we_id r = we_id ep) f) s"
    if "endpoint_of O' i s = Some ep" "\<And>x. we_organizationId (f x) = we_organizationId x" for ep f
    using endpoint_owned.update_found [of we_id s ep O' f] find_SomeD [OF that(1) [unfolded endpoint_of_def]]
      that(2) assms by (simp add: ids_unique_def)
  then show ?thesis
    by (auto simp: revoke_endpoint_def split: option.split intro!: keeps_intros)
qed

lemma set_wallet_keeps:
  assumes "ids_unique s"
  shows "keeps_others O' (set_wallet env registry O' userId network token address ctx) s"
proof -
  have "keeps_others O' (update_row wallets wallets_update (\<lambda>r. wal_id r = wal_id x) f) s"
    if "wallet_of O' network token s = Some x" "\<And>x. wal_organizationId (f x) = wal_organizationId x" for x f
    using wallet_owned.update_found [of wal_id s x O' f] find_SomeD [OF that(1) [unfolded wallet_of_def]]
      that(2) assms by (simp add: ids_unique_def)
  moreover have "wal_organizationId (new_wallet env O' network token address) = O'" by (simp add: new_wallet_def)
  ultimately show ?thesis
    by (auto simp: set_wallet_def Let_def split: option.split intro!: keeps_intros)
qed

lemma create_new_invoice_keeps: "keeps_others O' (create_new_invoice env mode O' apiKeyId input ctx) s"
proof -
  have "wal_organizationId (new_wallet env O' network token address) = O'" for network token address
    by (simp add: new_wallet_def)
  then have "keeps_others O' (getDepositAddress env mode O' network token) t" for network token t
    by (auto simp: getDepositAddress_def Let_def split: option.split intro!: keeps_intros)
  moreover have "inv_organizationId (new_invoice env O' input address) = O'" for address
    by (simp add: new_invoice_def)
  ultimately show ?thesis
    by (auto simp: create_new_invoice_def Let_def intro!: keeps_intros)
qed

lemma create_invoice_keeps: "keeps_others O' (create_invoice env mode O' apiKeyId input ctx) s"
  using create_new_invoice_keeps by (auto simp: create_invoice_def split: option.split)

lemma update_organization_keeps: "keeps_others O' (update_organization O' name slug actorId ctx) s"
  by (auto simp: update_organization_def intro!: keeps_intros organization_owned.update_own)

lemma inviteMember_keeps:
  assumes "ids_unique s"
  shows "keeps_others O' (inviteMember env O' email role actorId ctx) s"
proof -
  have "keeps_others O' (update_row memberships memberships_update (\<lambda>r. mem_id r = mem_id m) (\<lambda>r. r\<lparr>mem_role := role\<rparr>)) s"
    if "membership_of userId O' s = Some m" for userId m
    using membership_owned.update_found [of mem_id s m O'] find_SomeD [OF that [unfolded membership_of_def]]
      assms by (simp add: ids_unique_def)
  then show ?thesis
    by (auto simp: inviteMember_def Let_def split: option.split intro!: keeps_intros)
qed

section \<open>Who acts for an organization\<close>

definition member_of :: "api_world \<Rightarrow> pass_env \<Rightarrow> request \<Rightarrow> store \<Rightarrow> ident \<Rightarrow> bool" where
  "member_of w env q s O' \<longleftrightarrow>
     (\<exists>token userId. rq_cookies q ''cp_at'' = Some token \<and>
        jwt_verify (aw_jwt (wd_auth w)) (cfg_jwtAccessSecret (wd_cfg w)) (pe_now env div 1000) token = Some (Some userId) \<and>
        (\<exists>m \<in> set (memberships s). mem_userId m = userId \<and> mem_organizationId m = O'))"

definition key_holder_of :: "api_world \<Rightarrow> pass_env \<Rightarrow> request \<Rightarrow> store \<Rightarrow> ident \<Rightarrow> bool" where
  "key_holder_of w env q s O' \<longleftrightarrow>
     (\<exists>h k. single_header q ''authorization'' = Some (BEARER @ h) \<and> k \<in> set (apiKeys s) \<and>
        key_hash k = hashApiKey (aw_hmac (wd_auth w)) (trim h) (cfg_apiKeyPepper (wd_cfg w)) \<and>
        key_usable (pe_now env) k \<and> key_organizationId k = O')"

definition acts_for :: "api_world \<Rightarrow> pass_env \<Rightarrow> request \<Rightarrow> store \<Rightarrow> ident \<Rightarrow> bool" where
  "acts_for w env q s O' \<longleftrightarrow> member_of w env q s O' \<or> key_holder_of w env q s O'"

lemma dashboard_grants:
  assumes "dashboard_guards (aw_jwt (wd_auth w)) (wd_cfg w) (pe_now env) q s = (Inr q', s')"
  shows "s' = s \<and> (\<exists>O'. rq_organizationId q' = Some O' \<and> member_of w env q s O')"
proof -
  from assms obtain q1 where steps:
    "SessionAuthGuard (aw_jwt (wd_auth w)) (wd_cfg w) (pe_now env) q s = (Inr q1, s)"
    "OrganizationScopeGuard q1 s = (Inr q', s')"
    by (auto simp: dashboard_guards_def seq_eq_Inr session_passes)
  then obtain token userId where session: "rq_cookies q ''cp_at'' = Some token"
    "jwt_verify (aw_jwt (wd_auth w)) (cfg_jwtAccessSecret (wd_cfg w)) (pe_now env div 1000) token = Some (Some userId)"
    "q1 = q\<lparr>rq_userId := Some userId\<rparr>"
    by (auto simp: session_passes)
  obtain m where "s' = s" "m \<in> set (memberships s)" "mem_userId m = userId"
    "rq_organizationId q' = Some (mem_organizationId m)"
    using org_passes [OF steps(2)] session(3) by auto
  then show ?thesis using session(1,2) by (auto simp: member_of_def)
qed

lemma admin_grants:
  assumes "admin_guards (aw_jwt (wd_auth w)) (wd_cfg w) (pe_now env) q s = (Inr q', s')"
  shows "s' = s \<and> (\<exists>O'. rq_organizationId q' = Some O' \<and> member_of w env q s O')"
proof -
  from assms obtain t where "dashboard_guards (aw_jwt (wd_auth w)) (wd_cfg w) (pe_now env) q s = (Inr q', t)" "s' = t"
    by (auto simp: admin_guards_def seq_eq_Inr roles_passes csrf_passes)
  then show ?thesis using dashboard_grants by blast
qed

lemma merchant_grants:
  assumes "merchant_guards (aw_hmac (wd_auth w)) (wd_cfg w) (pe_now env) scopes q s = (Inr q', s')"
  shows "\<exists>O'. rq_organizationId q' = Some O' \<and> key_holder_of w env q s O'"
proof -
  from assms obtain t where "ApiKeyAuthGuard (aw_hmac (wd_auth w)) (wd_cfg w) (pe_now env) q s = (Inr q', t)"
    by (auto simp: merchant_guards_def ScopesGuard_def eff_defs Let_def split: prod.splits sum.splits if_splits)
  then obtain h k where h: "single_header q ''authorization'' = Some h" "starts_with h BEARER"
    and k: "key_by_hash (hashApiKey (aw_hmac (wd_auth w)) (trim (drop (length BEARER) h)) (cfg_apiKeyPepper (wd_cfg w))) s = Some k"
      "key_usable (pe_now env) k" "rq_organizationId q' = Some (key_organizationId k)"
    by (auto simp: ApiKeyAuthGuard_def seq_reads seq_eq_Inr throw_def ret_def Let_def
        split: option.splits if_splits)
  have "h = BEARER @ drop (length BEARER) h"
    using h(2) append_take_drop_id [of "length BEARER" h] by (simp add: starts_with_def)
  then have "single_header q ''authorization'' = Some (BEARER @ drop (length BEARER) h)" using h(1) by simp
  moreover have "k \<in> set (apiKeys s)"
    "key_hash k = hashApiKey (aw_hmac (wd_auth w)) (trim (drop (length BEARER) h)) (cfg_apiKeyPepper (wd_cfg w))"
    using find_SomeD [OF k(1) [unfolded key_by_hash_def]] by simp_all
  ultimately show ?thesis using k(2,3) unfolding key_holder_of_def by blast
qed

section \<open>The routes\<close>

definition isolated :: "api_world \<Rightarrow> pass_env \<Rightarrow> request \<Rightarrow> 'a db_op \<Rightarrow> store \<Rightarrow> bool" where
  "isolated w env q m s \<longleftrightarrow>
     without_usage (snd (m s)) = without_usage s \<or>
     (\<exists>O'. acts_for w env q s O' \<and> others O' (snd (m s)) = others O' s)"

lemma others_usage: "others O' (without_usage s) = others O' s"
  by (simp add: others_def without_usage_def filter_map o_def)

lemma ids_unique_usage: "ids_unique (without_usage s) \<longleftrightarrow> ids_unique s"
  by (simp add: ids_unique_def without_usage_def o_def)

text \<open>A handler behind guards that write nothing but usage stamps, run for the organization the
  guards put into the request.\<close>

lemma guarded_isolated:
  assumes frame: "without_usage (snd (g q s)) = without_usage s"
    and grants: "\<And>q' t. g q s = (Inr q', t) \<Longrightarrow> \<exists>O'. rq_organizationId q' = Some O' \<and> acts_for w env q s O'"
    and unique: "ids_unique s"
    and handler: "\<And>q' O' t. ids_unique t \<Longrightarrow> keeps_others O' (h q' O') t"
  shows "isolated w env q (seq (g q) (\<lambda>q'. seq (CurrentOrganizationId q') (h q'))) s"
proof (cases "g q s")
  case (Pair r t)
  have t: "without_usage t = without_usage s" using frame Pair by simp
  show ?thesis
  proof (cases r)
    case (Inl e)
    then show ?thesis using Pair t by (simp add: isolated_def seq_Inl)
  next
    case (Inr q')
    then obtain O' where O': "rq_organizationId q' = Some O'" "acts_for w env q s O'" using grants Pair by blast
    have "ids_unique t" using unique t by (metis ids_unique_usage)
    then have "others O' (snd (h q' O' t)) = others O' s"
      using handler [of t O' q'] t by (metis keeps_others_def others_usage)
    then show ?thesis
      using O' t Pair Inr
      by (cases O') (auto simp: isolated_def seq_Inr CurrentOrganizationId_def truthy_def throw_def seq_Inl)
  qed
qed

lemma as_member_isolated:
  assumes "ids_unique s" and "\<And>O' t. ids_unique t \<Longrightarrow> keeps_others O' (h O') t"
  shows "isolated w env q (as_member w env q h) s"
  unfolding as_member_def
proof (rule guarded_isolated)
  show "without_usage (snd (dashboard_guards (aw_jwt (wd_auth w)) (wd_cfg w) (pe_now env) q s)) = without_usage s"
    using dashboard_guard.writes_usage_only [of "(_, _, _)"] by simp
  show "\<exists>O'. rq_organizationId q' = Some O' \<and> acts_for w env q s O'"
    if "dashboard_guards (aw_jwt (wd_auth w)) (wd_cfg w) (pe_now env) q s = (Inr q', t)" for q' t
    using dashboard_grants [OF that] by (auto simp: acts_for_def)
qed (use assms in auto)

lemma as_admin_isolated:
  assumes "ids_unique s" and "\<And>O' u t. ids_unique t \<Longrightarrow> keeps_others O' (h O' u) t"
  shows "isolated w env q (as_admin w env q h) s"
  unfolding as_admin_def
proof (rule guarded_isolated)
  show "without_usage (snd (admin_guards (aw_jwt (wd_auth w)) (wd_cfg w) (pe_now env) q s)) = without_usage s"
    using admin_guard.writes_usage_only [of "(_, _, _)"] by simp
  show "keeps_others O' (seq (CurrentUserId q') (h O')) t" if "ids_unique t" for q' O' t
    using assms(2) that by (auto simp: CurrentUserId_def split: option.split)
  show "\<exists>O'. rq_organizationId q' = Some O' \<and> acts_for w env q s O'"
    if "admin_guards (aw_jwt (wd_auth w)) (wd_cfg w) (pe_now env) q s = (Inr q', t)" for q' t
    using admin_grants [OF that] by (auto simp: acts_for_def)
qed (use assms in auto)

lemma as_merchant_isolated:
  assumes "ids_unique s" and "\<And>O' u t. ids_unique t \<Longrightarrow> keeps_others O' (h O' u) t"
  shows "isolated w env q (as_merchant w env q scopes h) s"
  unfolding as_merchant_def
proof (rule guarded_isolated)
  show "without_usage (snd (merchant_guards (aw_hmac (wd_auth w)) (wd_cfg w) (pe_now env) scopes q s)) = without_usage s"
    using merchant_guard.writes_usage_only [of "(_, _, _, _)"] by simp
  show "keeps_others O' (seq (CurrentApiKeyId q') (h O')) t" if "ids_unique t" for q' O' t
    using assms(2) that by (auto simp: CurrentApiKeyId_def split: option.split)
  show "\<exists>O'. rq_organizationId q' = Some O' \<and> acts_for w env q s O'"
    if "merchant_guards (aw_hmac (wd_auth w)) (wd_cfg w) (pe_now env) scopes q s = (Inr q', t)" for q' t
    using merchant_grants [OF that] by (auto simp: acts_for_def)
qed (use assms in auto)

lemmas way_isolated = as_member_isolated as_admin_isolated as_merchant_isolated

lemmas service_keeps = create_api_key_keeps revoke_api_key_keeps create_endpoint_keeps revoke_endpoint_keeps
  set_wallet_keeps create_invoice_keeps update_organization_keeps inviteMember_keeps

lemmas tenant_route_defs = org_get_mine_def org_update_mine_def org_list_members_def org_invite_member_def
  keys_create_def keys_list_def keys_revoke_def invoices_create_def invoices_get_def wallets_list_def
  wallets_set_def endpoints_create_def endpoints_list_def endpoints_revoke_def dashboard_invoices_list_def
  dashboard_invoices_get_def dashboard_webhooks_create_def dashboard_webhooks_list_def
  dashboard_webhooks_deliveries_def dashboard_webhooks_revoke_def

lemma pipe_keeps [simp]:
  "keeps_others O' (seq (pipe w p) g) s \<longleftrightarrow> (\<forall>x. p = Some x \<longrightarrow> keeps_others O' (g x) s)"
  by (cases p) (simp_all add: pipe_def validation_pipe_def)

lemma keeps_then_ret [simp]:
  "keeps_others O' (seq m (\<lambda>x. ret (f x))) s \<longleftrightarrow> keeps_others O' m s"
  "keeps_others O' (seq n (\<lambda>(x, y). ret (g x y))) s \<longleftrightarrow> keeps_others O' n s"
  by (simp_all add: keeps_others_def seq_def ret_def split: prod.split sum.split)

lemma tenant_call_isolated:
  assumes "ids_unique s" and "tenant_call w env registry q c = Some m"
  shows "isolated w env q m s"
  using assms(2)
  by (cases c)
    (auto simp: tenant_route_defs service_keeps assms(1) split: option.split prod.split intro!: way_isolated)

text \<open>C13. Organizations are isolated in the API. A request to a route for an organization either
  writes nothing but the usage stamp of an API key, or is run for one organization that the
  caller is a member of, by a valid session, or holds a usable API key of; whatever it returns
  or throws, the rows of every other organization, and everything that is no organization's,
  are as they were.\<close>

theorem tenant_isolation:
  assumes "tenant_call w env (ap_registry (sv_api v)) q c = Some m" and "ids_unique (ap_store (sv_api v))"
  shows "without_usage (ap_store (sv_api (snd (api w env q c v)))) = without_usage (ap_store (sv_api v)) \<or>
    (\<exists>O'. acts_for w env q (ap_store (sv_api v)) O' \<and>
       others O' (ap_store (sv_api (snd (api w env q c v)))) = others O' (ap_store (sv_api v)))"
  using tenant_call_isolated [OF assms(2,1)] by (simp add: isolated_def api_tenant(1) [OF assms(1)])

definition sample_api :: api_world where
  "sample_api =
     \<lparr>wd_cfg = sample_config, wd_auth = sample_auth, wd_webhooks = sample_world 200,
      wd_isEmail = (\<lambda>_. True), wd_isUrl = (\<lambda>_. True), wd_issues = [], wd_viem = sample_viem,
      wd_mode = Mode_fake, wd_requiredConfirmations = 3, wd_randomHex = ''ab'', wd_fakeAddress = ''0x1''\<rparr>"

definition sample_server :: server where
  "sample_server =
     \<lparr>sv_api = idle_state\<lparr>ap_store := sample_members\<rparr>, sv_counters = (\<lambda>_. None)\<rparr>"

theorem tenant_isolation_witness:
  "\<exists>O'. acts_for sample_api sample_key_env sample_request sample_members O' \<and>
     others O' (ap_store (sv_api (snd (api sample_api sample_key_env sample_request
       (Keys_create ''ci key'' Env_test [Invoices_read]) sample_server)))) = others O' sample_members"
proof -
  let ?c = "Keys_create ''ci key'' Env_test [Invoices_read]"
  let ?s' = "ap_store (sv_api (snd (api sample_api sample_key_env sample_request ?c sample_server)))"
  have store: "ap_store (sv_api sample_server) = sample_members" by (simp add: sample_server_def)
  have ids: "ids_unique (ap_store (sv_api sample_server))"
    by (simp add: store ids_unique_def sample_members_def empty_store_def)
  have "length (apiKeys ?s') = 1" by code_simp
  moreover have "apiKeys sample_members = []" by (simp add: sample_members_def empty_store_def)
  ultimately have "without_usage ?s' \<noteq> without_usage sample_members"
    by (auto simp: without_usage_def dest!: arg_cong [of _ _ "\<lambda>s. length (apiKeys s)"])
  then show ?thesis
    using tenant_isolation [of sample_api sample_key_env sample_server sample_request ?c, OF _ ids]
    by (simp add: store)
qed

end
