(* ===== verification/Service_Frames.thy ===== *)
theory Service_Frames
  imports Frames Tenants
begin

text \<open>
  The frame of every operation of the system: the services of accounts, sessions,
  organizations, keys and deposit addresses stay beside payments and webhooks; invoices,
  endpoints and the passes of the payment pipeline only add to what webhooks are made of.
\<close>

section \<open>Services beside payments and webhooks\<close>

lemma beside_rows:
  "obeys beside (create_row users users_update c1 r1)"
  "obeys beside (update_row users users_update p1 f1)"
  "obeys beside (create_row refreshTokens refreshTokens_update c2 r2)"
  "obeys beside (update_row refreshTokens refreshTokens_update p2 f2)"
  "obeys beside (update_many refreshTokens_update p3 f3)"
  "obeys beside (create_row emailTokens emailTokens_update c4 r4)"
  "obeys beside (update_row emailTokens emailTokens_update p4 f4)"
  "obeys beside (create_row organizations organizations_update c5 r5)"
  "obeys beside (update_row organizations organizations_update p5 f5)"
  "obeys beside (create_row memberships memberships_update c6 r6)"
  "obeys beside (update_row memberships memberships_update p6 f6)"
  "obeys beside (create_row apiKeys apiKeys_update c7 r7)"
  "obeys beside (update_row apiKeys apiKeys_update p7 f7)"
  "obeys beside (update_many apiKeys_update p8 f8)"
  "obeys beside (create_row wallets wallets_update c9 r9)"
  "obeys beside (update_row wallets wallets_update p9 f9)"
  "obeys beside (audit_record e)"
  by (simp_all add: obeys_def update_row_def create_row_def update_many_def audit_record_def modify_def beside_def)

lemmas beside_steps = beside.composed(1-5) beside.in_sequence beside.tried beside.looped beside.transacted beside_rows

lemma token_services_beside:
  "obeys beside (issue_refresh hmac cfg env u f ctx)"
  "obeys beside (revokeFamily env i)"
  "obeys beside (revokeByRawToken hmac cfg env raw)"
  "obeys beside (rotate_refresh hmac cfg env ctx raw)"
  "obeys beside (issue_email_token hmac cfg env u)"
  "obeys beside (consume_email_token hmac cfg env raw)"
proof -
  show issue: "obeys beside (issue_refresh hmac cfg env u f ctx)" for u f ctx
    by (auto simp: issue_refresh_def Let_def intro!: beside_steps)
  show family: "obeys beside (revokeFamily env i)" for i by (simp add: revokeFamily_def beside_rows)
  show "obeys beside (revokeByRawToken hmac cfg env raw)" by (simp add: revokeByRawToken_def beside_rows)
  show "obeys beside (rotate_refresh hmac cfg env ctx raw)"
    by (auto simp: rotate_refresh_def rotate_found_def split: option.split intro!: beside_steps issue family)
  show "obeys beside (issue_email_token hmac cfg env u)"
    by (auto simp: issue_email_token_def Let_def intro!: beside_steps)
  show "obeys beside (consume_email_token hmac cfg env raw)"
    by (auto simp: consume_email_token_def split: option.split intro!: beside_steps)
qed

lemma account_services_beside:
  "obeys beside (register w cfg env email password ctx)"
  "obeys beside (verifyEmail w cfg env raw)"
  "obeys beside (login w cfg env input ctx)"
  "obeys beside (refresh w cfg env raw ctx)"
  "obeys beside (logout w cfg env raw')"
  "obeys beside (enableTwoFactor w cfg env u)"
  "obeys beside (confirmTwoFactor w cfg env u code)"
proof -
  have user: "obeys beside (update_user i f)" for i f by (simp add: update_user_def beside_rows)
  have who: "obeys beside (requireUser u)"
    by (auto simp: requireUser_def split: option.split intro!: beside_steps)
  have factor: "obeys beside (check_second_factor w cfg env v code)" for v code
    by (auto simp: check_second_factor_def registerFailedLogin_def reject_login_def split: option.split
        intro!: beside_steps user)
  have opened: "obeys beside (open_session w cfg env v ctx)" for v
    by (auto simp: open_session_def intro!: beside_steps user token_services_beside)
  show "obeys beside (register w cfg env email password ctx)"
    by (auto simp: register_def Let_def intro!: beside_steps token_services_beside)
  show "obeys beside (verifyEmail w cfg env raw)"
    by (auto simp: verifyEmail_def intro!: beside_steps token_services_beside)
  show "obeys beside (login w cfg env input ctx)"
    by (auto simp: login_def registerFailedLogin_def reject_login_def split: option.split
        intro!: beside_steps user factor opened)
  show "obeys beside (refresh w cfg env raw ctx)"
    by (auto simp: refresh_def intro!: beside_steps token_services_beside)
  show "obeys beside (logout w cfg env raw')"
    by (auto simp: logout_def split: option.split intro!: beside_steps token_services_beside)
  show "obeys beside (enableTwoFactor w cfg env u)"
    by (auto simp: enableTwoFactor_def Let_def intro!: beside_steps user who)
  show "obeys beside (confirmTwoFactor w cfg env u code)"
    by (auto simp: confirmTwoFactor_def split: option.split intro!: beside_steps user who)
qed

lemma organization_services_beside:
  "obeys beside (create_organization env u name ctx)"
  "obeys beside (update_organization O' name' slug u ctx)"
  "obeys beside (inviteMember env O' email role u ctx)"
  "obeys beside (create_api_key hmac cfg env O' name e scopes u ctx)"
  "obeys beside (revoke_api_key env O' k u ctx)"
  "obeys beside (set_wallet env registry O' u network token address ctx)"
proof -
  show "obeys beside (create_organization env u name ctx)"
    by (auto simp: create_organization_def Let_def intro!: beside_steps)
  show "obeys beside (update_organization O' name' slug u ctx)"
    by (auto simp: update_organization_def intro!: beside_steps)
  show "obeys beside (inviteMember env O' email role u ctx)"
    by (auto simp: inviteMember_def Let_def split: option.split intro!: beside_steps)
  show "obeys beside (create_api_key hmac cfg env O' name e scopes u ctx)"
    by (auto simp: create_api_key_def Let_def split: prod.split intro!: beside_steps)
  show "obeys beside (revoke_api_key env O' k u ctx)"
    by (auto simp: revoke_api_key_def split: option.split intro!: beside_steps)
  show "obeys beside (set_wallet env registry O' u network token address ctx)"
    by (auto simp: set_wallet_def Let_def split: option.split intro!: beside_steps)
qed

section \<open>The guards\<close>

lemma usage_beside:
  assumes "without_usage t = without_usage s"
  shows "beside s t"
  using arg_cong [OF assms, of invoices] arg_cong [OF assms, of payments] arg_cong [OF assms, of events]
    arg_cong [OF assms, of endpoints] arg_cong [OF assms, of deliveries]
  by (simp add: without_usage_def beside_def)

context request_guard begin

lemma guard_beside: "obeys beside (guard c q)"
  unfolding obeys_def by (simp add: usage_beside writes_usage_only)

end

lemma guards_beside:
  "obeys beside (session_guards j cfg now q)" "obeys beside (dashboard_guards j cfg now q)"
  "obeys beside (admin_guards j cfg now q)" "obeys beside (merchant_guards hmac cfg now scopes q)"
  "obeys beside (CsrfGuard q)"
  "obeys beside (CurrentUserId q)" "obeys beside (CurrentOrganizationId q)" "obeys beside (CurrentApiKeyId q)"
  "obeys beside (pipe w p)"
proof -
  show "obeys beside (dashboard_guards j cfg now q)" "obeys beside (admin_guards j cfg now q)"
    "obeys beside (merchant_guards hmac cfg now scopes q)" "obeys beside (CsrfGuard q)"
    using dashboard_guard.guard_beside [of "(_, _, _)"] admin_guard.guard_beside [of "(_, _, _)"]
      merchant_guard.guard_beside [of "(_, _, _, _)"] csrf_guard.guard_beside by simp_all
  then show "obeys beside (session_guards j cfg now q)"
    using session_guard.guard_beside [of "(_, _, _)"] csrf_guard.guard_beside
    by (auto simp: session_guards_def intro!: beside.in_sequence)
  show "obeys beside (CurrentUserId q)" "obeys beside (CurrentOrganizationId q)" "obeys beside (CurrentApiKeyId q)"
    "obeys beside (pipe w p)"
    by (auto simp: CurrentUserId_def CurrentOrganizationId_def CurrentApiKeyId_def pipe_def split: option.split
        intro!: beside.composed)
qed

section \<open>Operations that add to what webhooks are made of\<close>

lemma beside_obeys_grows: "obeys beside m \<Longrightarrow> obeys grows m"
  by (erule obeys_mono) (rule beside_grows)

lemma transition_grows:
  "obeys grows (update_invoice now i f)" "obeys grows (update_payment now i g)" "obeys grows (create_payment p)"
  "obeys grows (createWebhookEvent env j type st tx)"
  by (simp_all add: update_invoice_def update_payment_def create_payment_def createWebhookEvent_def
      other_row_grows create_event_grows)

lemma pipeline_step_grows:
  "obeys grows (tryMatchTransfer env transfer)"
  "obeys grows (expireOverdueInvoices env)"
  "obeys grows (failPayment env p i)"
  "obeys grows (moveToConfirming env p i n)"
  "obeys grows (finalizePayment env p i n)"
  "obeys grows (api_moveToConfirming env p n)"
proof -
  note steps = grow_steps transition_grows
  show "obeys grows (tryMatchTransfer env transfer)"
    by (auto simp: tryMatchTransfer_def split: option.split intro!: steps)
  show "obeys grows (expireOverdueInvoices env)"
    by (auto simp: expireOverdueInvoices_def expire_invoice_def intro!: steps)
  show "obeys grows (failPayment env p i)" by (auto simp: failPayment_def intro!: steps)
  show "obeys grows (moveToConfirming env p i n)" by (auto simp: moveToConfirming_def intro!: steps)
  show "obeys grows (finalizePayment env p i n)" by (auto simp: finalizePayment_def Let_def intro!: steps)
  show "obeys grows (api_moveToConfirming env p n)" by (auto simp: api_moveToConfirming_def intro!: steps)
qed

lemma passes_grow:
  "obeys grows (runBlockchainScan env adapter network)"
  "obeys grows (runPaymentConfirm env adapter req)"
proof -
  note steps = grow_steps transition_grows pipeline_step_grows
  show "obeys grows (runBlockchainScan env adapter network)"
    by (auto simp: runBlockchainScan_def upsert_cursor_def set_cursor_def Let_def split: option.split intro!: steps)
  have "obeys grows (confirm_payment env adapter req x)" for x
    by (cases x) (auto simp: confirm_payment_def handleMissingTransaction_def split: option.split sum.split intro!: steps)
  then show "obeys grows (runPaymentConfirm env adapter req)"
    by (auto simp: runPaymentConfirm_def intro!: steps)
qed

lemma invoice_services_grow: "obeys grows (create_invoice env mode O' k input ctx)"
proof -
  have address: "obeys grows (getDepositAddress env mode O' network token)" for network token
    by (rule beside_obeys_grows) (auto simp: getDepositAddress_def Let_def split: option.split intro!: beside_steps)
  have audit: "obeys grows (audit_record e)" for e by (rule beside_obeys_grows) (rule beside_rows)
  have "obeys grows (create_new_invoice env mode O' k input ctx)"
    by (auto simp: create_new_invoice_def Let_def intro!: grow_steps address audit)
  then show ?thesis by (auto simp: create_invoice_def split: option.split intro!: grow_steps)
qed

lemma endpoint_services_grow:
  "obeys grows (create_endpoint w key env O' actor url ctx)"
  "obeys grows (revoke_endpoint env O' i actor ctx)"
proof -
  have audit: "obeys grows (audit_record e)" for e by (rule beside_obeys_grows) (rule beside_rows)
  show "obeys grows (create_endpoint w key env O' actor url ctx)"
    by (auto simp: create_endpoint_def Let_def intro!: grow_steps audit)
  show "obeys grows (revoke_endpoint env O' i actor ctx)"
    by (auto simp: revoke_endpoint_def endpoint_key_def split: option.split intro!: grow_steps audit)
qed

section \<open>The API's own pipeline\<close>

definition api_grows :: "api_state \<Rightarrow> api_state \<Rightarrow> bool" where
  "api_grows a b \<longleftrightarrow> grows (ap_store a) (ap_store b)"

interpretation api_grow: state_order api_grows
  unfolding api_grows_def by unfold_locales (rule grow.R_refl, rule grow.R_trans)

lemma on_store_grows: "obeys grows m \<Longrightarrow> obeys api_grows (on_store m)"
  by (auto simp: obeys_def on_store_def api_grows_def split: prod.split) (metis snd_conv)

lemma api_only_grows: "(\<And>a. ap_store (f a) = ap_store a) \<Longrightarrow> api_grows a (f a)"
  by (simp add: api_grows_def grow.R_refl)

lemma tick_grows: "obeys api_grows (tick v env req)"
proof -
  note steps = api_grow.no_write api_grow.writes api_grow.in_sequence api_grow.looped api_grow.ensured
    on_store_grows api_only_grows
  have detect: "obeys api_grows (detectNewPayments v env)"
    by (auto simp: detectNewPayments_def detect_with_def api_tryMatchTransfer_eq
        intro!: steps pipeline_step_grows)
  have "obeys api_grows (advance_payment v env req x)" for x
  proof (cases x)
    case (Pair p i)
    show ?thesis unfolding obeys_def
    proof
      fix a
      have store: "api_grows a (snd (on_store m a))" if "obeys grows m" for m :: "unit db_op"
        using on_store_grows [OF that] by (simp add: obeys_def)
      show "api_grows a (snd (advance_payment v env req x a))"
        by (auto simp: Pair advance_payment_def ret_def throw_def failOrphanedPayment_eq api_finalizePayment_eq
            api_grow.R_refl split: option.split sum.split intro!: store pipeline_step_grows transition_grows)
    qed
  qed
  then have advance: "obeys api_grows (advanceConfirmations v env req)"
    by (auto simp: advanceConfirmations_def intro!: steps grow.composed)
  show ?thesis
    by (auto simp: tick_def api_expireOverdueInvoices_eq intro!: steps detect advance pipeline_step_grows)
qed

lemma simulate_grows:
  "obeys api_grows (simulatePayment v env req h f O' k amount)"
  "obeys api_grows (simulatePaymentForCheckout v env req h f k amount)"
proof -
  note steps = api_grow.no_write api_grow.writes api_grow.in_sequence api_only_grows
  have read: "obeys api_grows (\<lambda>a. case inv_row (ap_store a) k of None \<Rightarrow> (Inl e, a) | Some j \<Rightarrow> (Inr j, a))"
    for k and e :: thrown
    by (simp add: obeys_def api_grow.R_refl split: option.split)
  have "obeys api_grows (doSimulatePayment v env req h f i amount)" for i
    by (auto simp: doSimulatePayment_def split: adapter_instance.split intro!: steps tick_grows read)
  then show "obeys api_grows (simulatePayment v env req h f O' k amount)"
    "obeys api_grows (simulatePaymentForCheckout v env req h f k amount)"
    by (auto simp: simulatePayment_def simulatePaymentForCheckout_def split: option.split intro!: steps)
qed

end
