(* ===== verification/Webhook_Frames.thy ===== *)
theory Webhook_Frames
  imports Frames Webhook_System
begin

text \<open>
  The frame of the webhook passes: they write deliveries and the log of requests only, a
  dispatch pass adds deliveries and requests for the pairs it read only, a retry pass adds
  requests for deliveries it read, with the event and the endpoint they belong to.
\<close>

section \<open>What a pass may touch\<close>

definition webhooks_only :: "outbox \<Rightarrow> outbox \<Rightarrow> bool" where
  "webhooks_only s t \<longleftrightarrow> t = s\<lparr>deliveries := deliveries t, sent := sent t\<rparr>"

interpretation webhooks_only: state_order webhooks_only
proof
  show "webhooks_only s s" for s by (simp add: webhooks_only_def)
  show "webhooks_only s u" if "webhooks_only s t" "webhooks_only t u" for s t u
    using that unfolding webhooks_only_def by (cases s; cases t; cases u) simp
qed

text \<open>The requests that attempts for the pairs \<open>X\<close> can send.\<close>

definition requests_for :: "worlds \<Rightarrow> string \<Rightarrow> (webhook_event \<times> webhook_endpoint) set \<Rightarrow> sent_entry set" where
  "requests_for ws key X =
     {((evt_id ev, we_id ep), q) | ev ep q. (ev, ep) \<in> X \<and> fst (attempt_made ws key ev ep) = Some q}"

definition adds :: "(ident \<times> ident) set \<Rightarrow> sent_entry set \<Rightarrow> outbox \<Rightarrow> outbox \<Rightarrow> bool" where
  "adds P Q s t \<longleftrightarrow> webhooks_only s t \<and>
     delivery_pair ` set (deliveries t) \<subseteq> delivery_pair ` set (deliveries s) \<union> P \<and>
     set (sent t) \<subseteq> set (sent s) \<union> Q"

interpretation adds: state_order "adds P Q" for P Q
proof
  show "adds P Q s s" for s by (auto simp: adds_def webhooks_only.R_refl)
  show "adds P Q s u" if "adds P Q s t" "adds P Q t u" for s t u
    using that webhooks_only.R_trans [of s t u] unfolding adds_def by blast
qed

lemma log_request_for: "set (log_request (evt_id ev, we_id ep) (fst (attempt_made ws key ev ep))) \<subseteq> requests_for ws key {(ev, ep)}"
  by (auto simp: log_request_def requests_for_def split: option.splits)

lemma requests_for_mono: "X \<subseteq> Y \<Longrightarrow> requests_for ws key X \<subseteq> requests_for ws key Y"
  by (auto simp: requests_for_def)

section \<open>The passes\<close>

lemma first_row_pair [simp]: "delivery_pair (first_row env ws key ev ep) = (evt_id ev, we_id ep)"
  by (simp add: first_row_def Let_def delivery_pair_def new_delivery_def outcome_defs split: sum.split)

lemma dispatch_one_adds:
  assumes "(ev, ep) \<in> X"
  shows "obeys (adds ((\<lambda>(ev, ep). (evt_id ev, we_id ep)) ` X) (requests_for ws key X)) (dispatch_one env ws key ev ep)"
  unfolding obeys_def
proof
  fix s
  have "set (log_request (evt_id ev, we_id ep) (fst (attempt_made ws key ev ep))) \<subseteq> requests_for ws key X"
    using log_request_for requests_for_mono [of "{(ev, ep)}" X] assms by fast
  then show "adds ((\<lambda>(ev, ep). (evt_id ev, we_id ep)) ` X) (requests_for ws key X) s (snd (dispatch_one env ws key ev ep s))"
    using assms by (force simp: dispatch_one_result adds_def webhooks_only_def)
qed

lemma dispatch_adds:
  "adds ((\<lambda>(ev, ep). (evt_id ev, we_id ep)) ` set (dispatch_pairs s)) (requests_for ws key (set (dispatch_pairs s))) s
     (snd (runWebhookDispatch env ws key s))"
proof -
  let ?R = "adds ((\<lambda>(ev, ep). (evt_id ev, we_id ep)) ` set (dispatch_pairs s)) (requests_for ws key (set (dispatch_pairs s)))"
  have "obeys ?R (for_each (\<lambda>(ev, ep). dispatch_one env ws key ev ep) (dispatch_pairs s))"
    by (rule adds.looped) (auto intro: dispatch_one_adds)
  then show ?thesis by (simp add: dispatch_pairs_loop obeys_def)
qed

lemma dispatch_pairs_rows:
  "(ev, ep) \<in> set (dispatch_pairs s) \<Longrightarrow>
   ev \<in> set (events s) \<and> ep \<in> set (endpoints s) \<and> we_organizationId ep = evt_organizationId ev"
  by (auto simp: dispatch_pairs_def dispatch_batch_def enabled_endpoints_def dest: in_set_takeD)

lemma retry_one_adds:
  assumes "(ev, ep) \<in> X"
  shows "obeys (adds {} (requests_for ws key X)) (retry_one ws key (d, ev, ep))"
proof -
  have "obeys (adds {} (requests_for ws key X)) (send_webhook w key ev ep)" if "w = ws (evt_id ev) (we_id ep)" for w
  proof -
    have "set (log_request (evt_id ev, we_id ep) (fst (attempt_made ws key ev ep))) \<subseteq> requests_for ws key X"
      using log_request_for requests_for_mono [of "{(ev, ep)}" X] assms by fast
    then show ?thesis
      by (auto simp: obeys_def send_webhook_def attempt_made_def that adds_def webhooks_only_def split: prod.splits)
  qed
  moreover have "obeys (adds {} (requests_for ws key X)) (update_delivery i f)"
    if "\<And>r. delivery_pair (f r) = delivery_pair r" for i f
    unfolding update_delivery_def
    by (rule adds.updated) (auto simp: adds_def webhooks_only_def update_rows_def that)
  ultimately show ?thesis
    by (auto simp: retry_one_def Let_def outcome_defs delivery_pair_def intro!: adds.in_sequence)
qed

lemma retry_adds:
  "\<exists>X. (\<forall>(ev, ep) \<in> X. \<exists>d \<in> set (deliveries s). attach_delivery s d = Some (d, ev, ep)) \<and>
     adds {} (requests_for ws key X) s (snd (runWebhookRetry env ws key s))"
proof -
  let ?due = "map (attach_delivery s) (retry_batch (pe_now env) s)"
  let ?X = "{(ev, ep). \<exists>d \<in> set (deliveries s). attach_delivery s d = Some (d, ev, ep)}"
  have "adds {} (requests_for ws key ?X) s (snd (runWebhookRetry env ws key s))"
  proof (cases "list_all (\<lambda>x. x \<noteq> None) ?due")
    case True
    have "obeys (adds {} (requests_for ws key ?X)) (retry_one ws key x)" if mem: "x \<in> set (map the ?due)" for x
    proof -
      obtain d ev ep where x: "x = (d, ev, ep)" by (cases x)
      obtain d' where d': "d' \<in> set (retry_batch (pe_now env) s)" "the (attach_delivery s d') = (d, ev, ep)"
        using mem x by auto
      then have "attach_delivery s d' = Some (d, ev, ep)" using True by (auto simp: list_all_iff)
      moreover from this have "d' = d" by (auto simp: attach_delivery_def split: option.splits)
      moreover have "d' \<in> set (deliveries s)" using d'(1) by (auto simp: retry_batch_def dest: in_set_takeD)
      ultimately have "(ev, ep) \<in> ?X" by auto
      then show ?thesis unfolding x by (rule retry_one_adds)
    qed
    then have "obeys (adds {} (requests_for ws key ?X)) (for_each (retry_one ws key) (map the ?due))"
      by (rule adds.looped)
    then show ?thesis using True by (simp add: runWebhookRetry_def seq_reads obeys_def)
  next
    case False
    then show ?thesis by (auto simp: runWebhookRetry_def seq_reads throw_def adds.R_refl)
  qed
  then show ?thesis by (intro exI [of _ ?X]) auto
qed

lemma passes_webhooks_only:
  "webhooks_only s (snd (runWebhookDispatch env ws key s))"
  "webhooks_only s (snd (runWebhookRetry env ws key s))"
  using dispatch_adds [of s ws key env] retry_adds [of s ws key env] by (auto simp: adds_def)

text \<open>What a request carries.\<close>

lemma requests_for_rows:
  assumes "((e, p), q) \<in> requests_for ws key X"
  shows "\<exists>ev ep secret. (ev, ep) \<in> X \<and> e = evt_id ev \<and> p = we_id ep \<and>
    q = delivery_request (ws e p) (we_url ep) ev secret"
proof -
  obtain ev ep where pair: "(ev, ep) \<in> X" "e = evt_id ev" "p = we_id ep"
    and made: "fst (attempt_made ws key ev ep) = Some q"
    using assms by (auto simp: requests_for_def)
  from made obtain secret where "q = delivery_request (ws e p) (we_url ep) ev secret"
    by (auto simp: pair attempt_made_def deliverWebhook_def Let_def split: sum.splits)
  then show ?thesis using pair by blast
qed

end
