(* ===== verification/Env_Config.thy ===== *)
theory Env_Config
  imports Guards Js_Text Chain
begin

text \<open>
  The configuration of the processes (\<open>packages/config\<close>): the environment schema and the
  memoized loader. An environment is a map of strings; a missing variable gets its default, and
  one without a default is an issue. zod's URL check and messages are parameters; a coerced
  number is what \<open>Number\<close> makes of the string.
\<close>

section \<open>Fields\<close>

definition required :: "(string \<Rightarrow> 'a option) \<Rightarrow> string option \<Rightarrow> 'a option" where
  "required p v = (case v of None \<Rightarrow> None | Some s \<Rightarrow> p s)"

definition with_default :: "'a \<Rightarrow> (string \<Rightarrow> 'a option) \<Rightarrow> string option \<Rightarrow> 'a option" where
  "with_default d p v = (case v of None \<Rightarrow> Some d | Some s \<Rightarrow> p s)"

definition secret_field :: "string \<Rightarrow> string option" where
  "secret_field s = (if 32 \<le> length s then Some s else None)"

definition enum_field :: "(string \<times> 'a) list \<Rightarrow> string \<Rightarrow> 'a option" where
  "enum_field values' s = map_of values' s"

definition url_field :: "(string \<Rightarrow> bool) \<Rightarrow> string \<Rightarrow> string option" where
  "url_field is_url s = (if is_url s then Some s else None)"

text \<open>\<open>z.coerce.number().int().positive()\<close>.\<close>

definition positive_field :: "string \<Rightarrow> int option" where
  "positive_field s =
     (case js_Number s of
        None \<Rightarrow> None
      | Some r \<Rightarrow> if r = of_int \<lfloor>r\<rfloor> \<and> 0 < \<lfloor>r\<rfloor> then Some \<lfloor>r\<rfloor> else None)"

definition database_field :: "string \<Rightarrow> string option" where
  "database_field s =
     (if starts_with s ''postgresql://'' \<or> starts_with s ''postgres://'' then Some s else None)"

definition redis_field :: "string \<Rightarrow> string option" where
  "redis_field s = (if starts_with s ''redis://'' \<or> starts_with s ''rediss://'' then Some s else None)"

text \<open>\<open>/^[0-9a-f]{64}$/i\<close>.\<close>

definition key_field :: "string \<Rightarrow> string option" where
  "key_field s = (if length s = 64 \<and> list_all (\<lambda>c. hex_value c \<noteq> None) s then Some s else None)"

definition origins_field :: "string \<Rightarrow> string list option" where
  "origins_field s = Some (map trim (split_char (CHR '','') s))"

section \<open>The schema\<close>

datatype node_env = Development | Test_env | Staging | Production

record server_env =
  env_NODE_ENV :: node_env
  env_LOG_LEVEL :: string
  env_API_PORT :: int
  env_API_BASE_URL :: string
  env_CORS_ORIGINS :: "string list"
  env_WEB_BASE_URL :: string
  env_CHECKOUT_BASE_URL :: string
  env_COOKIE_SECURE :: bool
  env_DATABASE_URL :: string
  env_REDIS_URL :: string

record secret_env =
  env_JWT_ACCESS_SECRET :: string
  env_JWT_REFRESH_SECRET :: string
  env_SESSION_COOKIE_SECRET :: string
  env_CSRF_SECRET :: string
  env_API_KEY_PEPPER :: string
  env_ENCRYPTION_KEY :: string

record limit_env =
  env_ACCESS_TOKEN_TTL_SECONDS :: int
  env_REFRESH_TOKEN_TTL_SECONDS :: int
  env_ARGON2_MEMORY_COST_KIB :: int
  env_ARGON2_TIME_COST :: int
  env_ARGON2_PARALLELISM :: int
  env_RATE_LIMIT_LOGIN :: int
  env_RATE_LIMIT_GLOBAL :: int
  env_RATE_LIMIT_CHECKOUT :: int

record chain_env =
  env_REQUIRED_CONFIRMATIONS :: int
  env_BLOCKCHAIN_BLOCK_TIME_MS :: int
  env_BLOCKCHAIN_MODE :: blockchain_mode
  env_BASE_SEPOLIA_RPC_URL :: string

record env =
  env_server :: server_env
  env_secrets :: secret_env
  env_limits :: limit_env
  env_chain :: chain_env

type_synonym source = "string \<Rightarrow> string option"

definition LOG_LEVELS :: "string list" where
  "LOG_LEVELS = [''fatal'', ''error'', ''warn'', ''info'', ''debug'', ''trace'']"

definition NODE_ENVS :: "(string \<times> node_env) list" where
  "NODE_ENVS = [(''development'', Development), (''test'', Test_env), (''staging'', Staging), (''production'', Production)]"

definition parse_server :: "(string \<Rightarrow> bool) \<Rightarrow> source \<Rightarrow> server_env option" where
  "parse_server is_url src =
     (case (with_default Development (enum_field NODE_ENVS) (src ''NODE_ENV''),
            with_default ''info'' (enum_field (map (\<lambda>l. (l, l)) LOG_LEVELS)) (src ''LOG_LEVEL''),
            with_default 3001 positive_field (src ''API_PORT''),
            with_default ''http://localhost:3001'' (url_field is_url) (src ''API_BASE_URL''),
            with_default [''http://localhost:3000''] origins_field (src ''CORS_ORIGINS''),
            with_default ''http://localhost:3000'' (url_field is_url) (src ''WEB_BASE_URL''),
            with_default ''http://localhost:3000/pay'' (url_field is_url) (src ''CHECKOUT_BASE_URL''),
            with_default True (enum_field [(''true'', True), (''false'', False)]) (src ''COOKIE_SECURE''),
            required database_field (src ''DATABASE_URL''),
            required redis_field (src ''REDIS_URL'')) of
        (Some a, Some b, Some c, Some d, Some e, Some f, Some g, Some h, Some i, Some j) \<Rightarrow>
          Some \<lparr>env_NODE_ENV = a, env_LOG_LEVEL = b, env_API_PORT = c, env_API_BASE_URL = d,
                env_CORS_ORIGINS = e, env_WEB_BASE_URL = f, env_CHECKOUT_BASE_URL = g,
                env_COOKIE_SECURE = h, env_DATABASE_URL = i, env_REDIS_URL = j\<rparr>
      | _ \<Rightarrow> None)"

definition parse_secrets :: "source \<Rightarrow> secret_env option" where
  "parse_secrets src =
     (case (required secret_field (src ''JWT_ACCESS_SECRET''), required secret_field (src ''JWT_REFRESH_SECRET''),
            required secret_field (src ''SESSION_COOKIE_SECRET''), required secret_field (src ''CSRF_SECRET''),
            required secret_field (src ''API_KEY_PEPPER''), required key_field (src ''ENCRYPTION_KEY'')) of
        (Some a, Some b, Some c, Some d, Some e, Some f) \<Rightarrow>
          Some \<lparr>env_JWT_ACCESS_SECRET = a, env_JWT_REFRESH_SECRET = b, env_SESSION_COOKIE_SECRET = c,
                env_CSRF_SECRET = d, env_API_KEY_PEPPER = e, env_ENCRYPTION_KEY = f\<rparr>
      | _ \<Rightarrow> None)"

definition parse_limits :: "source \<Rightarrow> limit_env option" where
  "parse_limits src =
     (case (with_default 900 positive_field (src ''ACCESS_TOKEN_TTL_SECONDS''),
            with_default 2592000 positive_field (src ''REFRESH_TOKEN_TTL_SECONDS''),
            with_default 19456 positive_field (src ''ARGON2_MEMORY_COST_KIB''),
            with_default 2 positive_field (src ''ARGON2_TIME_COST''),
            with_default 1 positive_field (src ''ARGON2_PARALLELISM''),
            with_default 5 positive_field (src ''RATE_LIMIT_LOGIN_PER_MINUTE''),
            with_default 300 positive_field (src ''RATE_LIMIT_GLOBAL_PER_MINUTE''),
            with_default 100 positive_field (src ''RATE_LIMIT_CHECKOUT_PER_MINUTE'')) of
        (Some a, Some b, Some c, Some d, Some e, Some f, Some g, Some h) \<Rightarrow>
          Some \<lparr>env_ACCESS_TOKEN_TTL_SECONDS = a, env_REFRESH_TOKEN_TTL_SECONDS = b,
                env_ARGON2_MEMORY_COST_KIB = c, env_ARGON2_TIME_COST = d, env_ARGON2_PARALLELISM = e,
                env_RATE_LIMIT_LOGIN = f, env_RATE_LIMIT_GLOBAL = g, env_RATE_LIMIT_CHECKOUT = h\<rparr>
      | _ \<Rightarrow> None)"

definition parse_chain :: "(string \<Rightarrow> bool) \<Rightarrow> source \<Rightarrow> chain_env option" where
  "parse_chain is_url src =
     (case (with_default 3 positive_field (src ''REQUIRED_CONFIRMATIONS''),
            with_default 2000 positive_field (src ''BLOCKCHAIN_BLOCK_TIME_MS''),
            with_default Mode_fake (enum_field [(''fake'', Mode_fake), (''evm'', Mode_evm)]) (src ''BLOCKCHAIN_MODE''),
            with_default ''https://sepolia.base.org'' (url_field is_url) (src ''BASE_SEPOLIA_RPC_URL'')) of
        (Some a, Some b, Some c, Some d) \<Rightarrow>
          Some \<lparr>env_REQUIRED_CONFIRMATIONS = a, env_BLOCKCHAIN_BLOCK_TIME_MS = b,
                env_BLOCKCHAIN_MODE = c, env_BASE_SEPOLIA_RPC_URL = d\<rparr>
      | _ \<Rightarrow> None)"

definition envSchema :: "(string \<Rightarrow> bool) \<Rightarrow> source \<Rightarrow> env option" where
  "envSchema is_url src =
     (case (parse_server is_url src, parse_secrets src, parse_limits src, parse_chain is_url src) of
        (Some a, Some b, Some c, Some d) \<Rightarrow>
          Some \<lparr>env_server = a, env_secrets = b, env_limits = c, env_chain = d\<rparr>
      | _ \<Rightarrow> None)"

section \<open>The loader\<close>

text \<open>\<open>issues\<close> is what zod reports of a source that does not fit.\<close>

definition invalid_environment :: "(string list \<times> string) list \<Rightarrow> thrown" where
  "invalid_environment issues =
     OtherThrown (''Invalid environment configuration:'' @ [CHR 0x0A] @
       join [CHR 0x0A] (map (\<lambda>(path, message). ''  - '' @ join ''.'' path @ '': '' @ message) issues))"

definition loadEnv ::
    "(string \<Rightarrow> bool) \<Rightarrow> (source \<Rightarrow> (string list \<times> string) list) \<Rightarrow> source \<Rightarrow> (env option, thrown, env) eff" where
  "loadEnv is_url issues src cachedEnv =
     (case cachedEnv of
        Some e \<Rightarrow> (Inr e, cachedEnv)
      | None \<Rightarrow>
          (case envSchema is_url src of
             None \<Rightarrow> (Inl (invalid_environment (issues src)), cachedEnv)
           | Some e \<Rightarrow> (Inr e, Some e)))"

definition resetEnvCache :: "(env option, thrown, unit) eff" where
  "resetEnvCache cachedEnv = (Inr (), None)"

text \<open>What the services of the API are given of it.\<close>

definition api_config_of :: "env \<Rightarrow> api_config" where
  "api_config_of e =
     \<lparr>cfg_jwtAccessSecret = env_JWT_ACCESS_SECRET (env_secrets e),
      cfg_accessTtlSeconds = env_ACCESS_TOKEN_TTL_SECONDS (env_limits e),
      cfg_jwtRefreshSecret = env_JWT_REFRESH_SECRET (env_secrets e),
      cfg_refreshTtlSeconds = env_REFRESH_TOKEN_TTL_SECONDS (env_limits e),
      cfg_apiKeyPepper = env_API_KEY_PEPPER (env_secrets e),
      cfg_encryptionKey = env_ENCRYPTION_KEY (env_secrets e),
      cfg_checkoutBaseUrl = env_CHECKOUT_BASE_URL (env_server e),
      cfg_cookieSecure = env_COOKIE_SECURE (env_server e),
      cfg_rateGlobal = env_RATE_LIMIT_GLOBAL (env_limits e),
      cfg_rateLogin = env_RATE_LIMIT_LOGIN (env_limits e),
      cfg_rateCheckout = env_RATE_LIMIT_CHECKOUT (env_limits e)\<rparr>"

section \<open>What a loaded configuration guarantees\<close>

lemma positive_default: "0 < d \<Longrightarrow> with_default d positive_field v = Some n \<Longrightarrow> 0 < n"
  by (auto simp: with_default_def positive_field_def split: option.splits if_splits)

lemma hex_decode_length:
  "length s = 2 * n \<Longrightarrow> list_all (\<lambda>c. hex_value c \<noteq> None) s \<Longrightarrow> length (hex_decode s) = n"
proof (induction n arbitrary: s)
  case 0
  then show ?case by simp
next
  case (Suc n)
  then obtain c d t where s: "s = c # d # t" by (auto simp: length_Suc_conv)
  then show ?case using Suc by auto
qed

lemma key_field_decodes: "key_field s = Some k \<Longrightarrow> \<exists>bytes. decodeKey k = Inr bytes \<and> length bytes = 32"
  using hex_decode_length [of s 32]
  by (auto simp: key_field_def decodeKey_def KEY_LENGTH_BYTES_def Let_def split: if_splits)

lemma envSchema_parts:
  "envSchema is_url src = Some e \<longleftrightarrow>
   parse_server is_url src = Some (env_server e) \<and> parse_secrets src = Some (env_secrets e) \<and>
   parse_limits src = Some (env_limits e) \<and> parse_chain is_url src = Some (env_chain e)"
  by (cases e) (auto simp: envSchema_def split: option.splits)

lemma parse_secrets_ok:
  "parse_secrets src = Some x \<Longrightarrow>
   list_all (\<lambda>s. 32 \<le> length s) [env_JWT_ACCESS_SECRET x, env_JWT_REFRESH_SECRET x, env_API_KEY_PEPPER x] \<and>
   (\<exists>bytes. decodeKey (env_ENCRYPTION_KEY x) = Inr bytes \<and> length bytes = 32)"
  by (auto simp: parse_secrets_def required_def secret_field_def key_field_decodes
      split: option.splits if_splits)

lemma parse_limits_parts:
  "parse_limits src = Some x \<Longrightarrow>
   with_default 900 positive_field (src ''ACCESS_TOKEN_TTL_SECONDS'') = Some (env_ACCESS_TOKEN_TTL_SECONDS x) \<and>
   with_default 2592000 positive_field (src ''REFRESH_TOKEN_TTL_SECONDS'') = Some (env_REFRESH_TOKEN_TTL_SECONDS x) \<and>
   with_default 5 positive_field (src ''RATE_LIMIT_LOGIN_PER_MINUTE'') = Some (env_RATE_LIMIT_LOGIN x) \<and>
   with_default 300 positive_field (src ''RATE_LIMIT_GLOBAL_PER_MINUTE'') = Some (env_RATE_LIMIT_GLOBAL x) \<and>
   with_default 100 positive_field (src ''RATE_LIMIT_CHECKOUT_PER_MINUTE'') = Some (env_RATE_LIMIT_CHECKOUT x)"
  by (auto simp: parse_limits_def split: option.splits)

lemma parse_limits_ok:
  assumes "parse_limits src = Some x"
  shows "list_all (\<lambda>n. 0 < n) [env_ACCESS_TOKEN_TTL_SECONDS x, env_REFRESH_TOKEN_TTL_SECONDS x,
    env_RATE_LIMIT_LOGIN x, env_RATE_LIMIT_GLOBAL x, env_RATE_LIMIT_CHECKOUT x]"
proof -
  note pos = positive_default [of 900, simplified] positive_default [of 2592000, simplified]
    positive_default [of 5, simplified] positive_default [of 300, simplified] positive_default [of 100, simplified]
  show ?thesis using parse_limits_parts [OF assms] by (auto intro: pos)
qed

lemma parse_chain_ok:
  "parse_chain is_url src = Some x \<Longrightarrow> 0 < env_REQUIRED_CONFIRMATIONS x \<and> 0 < env_BLOCKCHAIN_BLOCK_TIME_MS x"
  by (auto simp: parse_chain_def dest!: positive_default [rotated] split: option.splits)

definition config_ok :: "api_config \<Rightarrow> bool" where
  "config_ok cfg \<longleftrightarrow>
     list_all (\<lambda>s. 32 \<le> length s) [cfg_jwtAccessSecret cfg, cfg_jwtRefreshSecret cfg, cfg_apiKeyPepper cfg] \<and>
     list_all (\<lambda>n. 0 < n) [cfg_accessTtlSeconds cfg, cfg_refreshTtlSeconds cfg, cfg_rateGlobal cfg,
       cfg_rateLogin cfg, cfg_rateCheckout cfg] \<and>
     (\<forall>c iv plaintext. \<exists>encoded. encryptSecret c iv plaintext (cfg_encryptionKey cfg) = Inr encoded)"

text \<open>C31. A process starts only with a sound configuration: whatever the environment is, the
  loader either throws, and remembers nothing, or returns a configuration whose secrets have at
  least 32 characters, whose limits and lifetimes are positive, that needs at least one
  confirmation and whose key every encryption accepts, and returns that same configuration from
  then on.\<close>

theorem loadEnv_sound:
  "case loadEnv is_url issues src None of
     (Inl e, cache) \<Rightarrow> e = invalid_environment (issues src) \<and> cache = None
   | (Inr e, cache) \<Rightarrow>
       config_ok (api_config_of e) \<and> 0 < env_REQUIRED_CONFIRMATIONS (env_chain e) \<and>
       0 < env_BLOCKCHAIN_BLOCK_TIME_MS (env_chain e) \<and>
       (\<forall>src'. loadEnv is_url issues src' cache = (Inr e, cache))"
proof (cases "envSchema is_url src")
  case None
  then show ?thesis by (simp add: loadEnv_def)
next
  case (Some e)
  then have secrets: "parse_secrets src = Some (env_secrets e)" and limits: "parse_limits src = Some (env_limits e)"
    and chain: "parse_chain is_url src = Some (env_chain e)" by (simp_all add: envSchema_parts)
  have "config_ok (api_config_of e)"
    using parse_secrets_ok [OF secrets] parse_limits_ok [OF limits]
    by (auto simp: config_ok_def api_config_of_def encryptSecret_def split: prod.split)
  then show ?thesis using parse_chain_ok [OF chain] Some by (simp add: loadEnv_def)
qed

end
