(* ===== verification/Worker_Main.thy ===== *)
theory Worker_Main
  imports Env_Config Payment_System Webhook_Frames "HOL-Library.Multiset"
begin

text \<open>
  The worker process (\<open>apps/worker/src/main.ts\<close>): which queues it serves in which mode, what a
  job of each queue runs, the health check, the start that may fail and the graceful shutdown.
  Opening and closing connections, queues and workers are actions; BullMQ, ioredis and Prisma
  answer them, and \<open>accepts\<close> says whether they do.
\<close>

section \<open>Queues\<close>

datatype queue_name =
    healthCheck | blockchainScan | paymentDetect | paymentConfirm | webhookDispatch | webhookRetry
  | notificationsSend | analyticsProcess

definition QUEUE_NAMES :: "queue_name \<Rightarrow> string" where
  "QUEUE_NAMES q =
     (case q of
        healthCheck \<Rightarrow> ''health-check'' | blockchainScan \<Rightarrow> ''blockchain.scan''
      | paymentDetect \<Rightarrow> ''payment.detect'' | paymentConfirm \<Rightarrow> ''payment.confirm''
      | webhookDispatch \<Rightarrow> ''webhook.dispatch'' | webhookRetry \<Rightarrow> ''webhook.retry''
      | notificationsSend \<Rightarrow> ''notifications.send'' | analyticsProcess \<Rightarrow> ''analytics.process'')"

text \<open>A job scheduler: its identifier, the interval and the name of its jobs.\<close>

record schedule =
  sch_id :: string
  sch_every :: millis
  sch_job :: string

definition scheduleHealthCheck :: schedule where
  "scheduleHealthCheck = \<lparr>sch_id = ''health-check-scheduler'', sch_every = 30000, sch_job = ''ping''\<rparr>"

definition scheduleWebhookDispatch :: schedule where
  "scheduleWebhookDispatch = \<lparr>sch_id = ''webhook-dispatch-scheduler'', sch_every = 2000, sch_job = ''dispatch''\<rparr>"

definition scheduleWebhookRetry :: schedule where
  "scheduleWebhookRetry = \<lparr>sch_id = ''webhook-retry-scheduler'', sch_every = 15000, sch_job = ''retry''\<rparr>"

definition scheduleBlockchainScan :: schedule where
  "scheduleBlockchainScan = \<lparr>sch_id = ''blockchain-scan-scheduler'', sch_every = 5000, sch_job = ''scan''\<rparr>"

definition schedulePaymentConfirm :: schedule where
  "schedulePaymentConfirm = \<lparr>sch_id = ''payment-confirm-scheduler'', sch_every = 5000, sch_job = ''confirm''\<rparr>"

section \<open>What a job runs\<close>

text \<open>What a worker was created with.\<close>

datatype processor =
    Check_health
  | Dispatch_webhooks string
  | Retry_webhooks string
  | Scan_chain adapter_instance string
  | Confirm_payments adapter_instance int

text \<open>What the database and Redis answer a health check.\<close>

record pings =
  pg_database :: "thrown + unit"
  pg_redis :: "thrown + string"

definition checkDatabase :: "pings \<Rightarrow> bool" where
  "checkDatabase p = (case pg_database p of Inr _ \<Rightarrow> True | Inl _ \<Rightarrow> False)"

definition checkRedis :: "pings \<Rightarrow> bool" where
  "checkRedis p = (case pg_redis p of Inr pong \<Rightarrow> pong = ''PONG'' | Inl _ \<Rightarrow> False)"

definition bool_toString :: "bool \<Rightarrow> string" where
  "bool_toString b = (if b then ''true'' else ''false'')"

definition health_check_job :: "pings \<Rightarrow> 's \<Rightarrow> (thrown + unit) \<times> 's" where
  "health_check_job p =
     (if \<not> checkDatabase p \<or> \<not> checkRedis p
      then throw (OtherThrown (''Health check failed: database='' @ bool_toString (checkDatabase p) @
        '' redis='' @ bool_toString (checkRedis p)))
      else ret ())"

text \<open>A pass of the payment pipeline does not touch the log of the webhook requests.\<close>

definition on_outbox :: "'a db_op \<Rightarrow> 'a out_op" where
  "on_outbox m =
     (\<lambda>s. case m (store.truncate s) of (r, t) \<Rightarrow> (r, store.extend t (outbox.fields (sent s))))"

definition createWebhookDispatchWorker :: "pass_env \<Rightarrow> worlds \<Rightarrow> string \<Rightarrow> unit out_op" where
  "createWebhookDispatchWorker env ws encryptionKey = runWebhookDispatch env ws encryptionKey"

definition createWebhookRetryWorker :: "pass_env \<Rightarrow> worlds \<Rightarrow> string \<Rightarrow> unit out_op" where
  "createWebhookRetryWorker env ws encryptionKey = runWebhookRetry env ws encryptionKey"

definition createBlockchainScanWorker :: "viem \<Rightarrow> pass_env \<Rightarrow> adapter_instance \<Rightarrow> string \<Rightarrow> unit out_op" where
  "createBlockchainScanWorker v env adapter network =
     on_outbox (runBlockchainScan env (adapter_of v (pe_now env) adapter) network)"

definition createPaymentConfirmWorker :: "viem \<Rightarrow> pass_env \<Rightarrow> adapter_instance \<Rightarrow> int \<Rightarrow> unit out_op" where
  "createPaymentConfirmWorker v env adapter requiredConfirmations =
     on_outbox (runPaymentConfirm env (adapter_of v (pe_now env) adapter) requiredConfirmations)"

definition run_job :: "pings \<Rightarrow> viem \<Rightarrow> pass_env \<Rightarrow> worlds \<Rightarrow> processor \<Rightarrow> unit out_op" where
  "run_job p v env ws h =
     (case h of
        Check_health \<Rightarrow> health_check_job p
      | Dispatch_webhooks encryptionKey \<Rightarrow> createWebhookDispatchWorker env ws encryptionKey
      | Retry_webhooks encryptionKey \<Rightarrow> createWebhookRetryWorker env ws encryptionKey
      | Scan_chain adapter network \<Rightarrow> createBlockchainScanWorker v env adapter network
      | Confirm_payments adapter requiredConfirmations \<Rightarrow>
          createPaymentConfirmWorker v env adapter requiredConfirmations)"

lemmas job_defs = run_job_def createWebhookDispatchWorker_def createWebhookRetryWorker_def
  createBlockchainScanWorker_def createPaymentConfirmWorker_def

section \<open>Start\<close>

datatype resource =
    Redis_connection string
  | Prisma_client string bool
  | Queue_of queue_name
  | Worker_of queue_name processor

datatype action = Open resource | Schedule queue_name schedule | Close resource | Exit int

definition open_queue :: "queue_name \<Rightarrow> schedule \<Rightarrow> processor \<Rightarrow> action list" where
  "open_queue q s h = [Open (Queue_of q), Schedule q s, Open (Worker_of q h)]"

definition redis_of :: "env \<Rightarrow> resource" where
  "redis_of e = Redis_connection (env_REDIS_URL (env_server e))"

definition prisma_of :: "env \<Rightarrow> resource" where
  "prisma_of e = Prisma_client (env_DATABASE_URL (env_server e)) (env_NODE_ENV (env_server e) = Development)"

definition chain_queues :: "env \<Rightarrow> millis \<Rightarrow> thrown + action list" where
  "chain_queues e now =
     (if env_BLOCKCHAIN_MODE (env_chain e) = Mode_evm
      then (let network = ''base'';
                registry = createBlockchainAdapterRegistry (env_BLOCKCHAIN_MODE (env_chain e))
                  (env_BLOCKCHAIN_BLOCK_TIME_MS (env_chain e)) now
            in case registry network of
                 None \<Rightarrow> Inl (OtherThrown (''No blockchain adapter registered for network \"'' @ network @ ''\"''))
               | Some adapter \<Rightarrow>
                   Inr (open_queue blockchainScan scheduleBlockchainScan (Scan_chain adapter network) @
                        open_queue paymentConfirm schedulePaymentConfirm
                          (Confirm_payments adapter (env_REQUIRED_CONFIRMATIONS (env_chain e)))))
      else Inr [])"

definition bootstrap :: "env \<Rightarrow> millis \<Rightarrow> action list \<times> thrown option" where
  "bootstrap e now =
     (let k = env_ENCRYPTION_KEY (env_secrets e);
          always = [Open (redis_of e), Open (prisma_of e)] @
            open_queue healthCheck scheduleHealthCheck Check_health @
            open_queue webhookDispatch scheduleWebhookDispatch (Dispatch_webhooks k) @
            open_queue webhookRetry scheduleWebhookRetry (Retry_webhooks k)
      in case chain_queues e now of
           Inl x \<Rightarrow> (always, Some x)
         | Inr chain' \<Rightarrow> (always @ chain', None))"

text \<open>The list in the line \<open>Worker started\<close>.\<close>

definition activeQueues :: "blockchain_mode \<Rightarrow> string list" where
  "activeQueues mode =
     [''health-check'', ''webhook-dispatch'', ''webhook-retry''] @
     (if mode = Mode_evm then [''blockchain-scan'', ''payment-confirm''] else [])"

text \<open>The process: the first action that is refused, or an error, ends it with code 1; so does a
  configuration that does not fit.\<close>

definition start_worker ::
    "(string \<Rightarrow> bool) \<Rightarrow> (source \<Rightarrow> (string list \<times> string) list) \<Rightarrow> source \<Rightarrow> millis \<Rightarrow> (action \<Rightarrow> bool) \<Rightarrow> action list" where
  "start_worker is_url issues src now accepts =
     (case fst (loadEnv is_url issues src None) of
        Inl _ \<Rightarrow> [Exit 1]
      | Inr e \<Rightarrow>
          (case bootstrap e now of
             (actions, err) \<Rightarrow>
               if list_all accepts actions \<and> err = None then actions
               else takeWhile accepts actions @ [Exit 1]))"

section \<open>Shutdown\<close>

definition shutdown_actions :: "env \<Rightarrow> (queue_name \<rightharpoonup> processor) \<Rightarrow> action list" where
  "shutdown_actions e workers =
     (let close = (\<lambda>q. case workers q of
            Some h \<Rightarrow> [Close (Worker_of q h), Close (Queue_of q)]
          | None \<Rightarrow> [])
      in close healthCheck @ close webhookDispatch @ close webhookRetry @ close blockchainScan @
         close paymentConfirm @ [Close (prisma_of e), Close (redis_of e), Exit 0])"

text \<open>The two signals; only the first one acts.\<close>

definition on_signal :: "env \<Rightarrow> (queue_name \<rightharpoonup> processor) \<Rightarrow> bool \<Rightarrow> action list \<times> bool" where
  "on_signal e workers shuttingDown =
     (if shuttingDown then ([], True) else (shutdown_actions e workers, True))"

fun on_signals :: "env \<Rightarrow> (queue_name \<rightharpoonup> processor) \<Rightarrow> bool \<Rightarrow> nat \<Rightarrow> action list" where
  "on_signals e workers shuttingDown 0 = []"
| "on_signals e workers shuttingDown (Suc n) =
     (case on_signal e workers shuttingDown of (actions, b) \<Rightarrow> actions @ on_signals e workers b n)"

text \<open>The workers of a list of actions.\<close>

fun worker_of :: "action \<Rightarrow> (queue_name \<times> processor) option" where
  "worker_of (Open (Worker_of q h)) = Some (q, h)"
| "worker_of _ = None"

definition workers_of :: "action list \<Rightarrow> (queue_name \<times> processor) list" where
  "workers_of actions = List.map_filter worker_of actions"

fun opened_by :: "action \<Rightarrow> resource option" where
  "opened_by (Open r) = Some r"
| "opened_by _ = None"

fun closed_by :: "action \<Rightarrow> resource option" where
  "closed_by (Close r) = Some r"
| "closed_by _ = None"

fun scheduled_by :: "action \<Rightarrow> queue_name option" where
  "scheduled_by (Schedule q s) = Some q"
| "scheduled_by _ = None"

section \<open>Exactly one pipeline\<close>

lemma chain_queues_eq:
  "chain_queues e now =
     Inr (if env_BLOCKCHAIN_MODE (env_chain e) = Mode_evm
          then open_queue blockchainScan scheduleBlockchainScan (Scan_chain (EvmBlockchainAdapter ''base'') ''base'') @
               open_queue paymentConfirm schedulePaymentConfirm
                 (Confirm_payments (EvmBlockchainAdapter ''base'') (env_REQUIRED_CONFIRMATIONS (env_chain e)))
          else [])"
  by (simp add: chain_queues_def Let_def createBlockchainAdapterRegistry_def)

lemma bootstrap_workers:
  "snd (bootstrap e now) = None"
  "workers_of (fst (bootstrap e now)) =
     [(healthCheck, Check_health), (webhookDispatch, Dispatch_webhooks (env_ENCRYPTION_KEY (env_secrets e))),
      (webhookRetry, Retry_webhooks (env_ENCRYPTION_KEY (env_secrets e)))] @
     (if env_BLOCKCHAIN_MODE (env_chain e) = Mode_evm
      then [(blockchainScan, Scan_chain (EvmBlockchainAdapter ''base'') ''base''),
            (paymentConfirm, Confirm_payments (EvmBlockchainAdapter ''base'') (env_REQUIRED_CONFIRMATIONS (env_chain e)))]
      else [])"
  "List.map_filter scheduled_by (fst (bootstrap e now)) = map fst (workers_of (fst (bootstrap e now)))"
  "length (workers_of (fst (bootstrap e now))) = length (activeQueues (env_BLOCKCHAIN_MODE (env_chain e)))"
  by (simp_all add: bootstrap_def Let_def chain_queues_eq open_queue_def workers_of_def activeQueues_def
      redis_of_def prisma_of_def map_filter_simps)

lemma webhook_jobs_webhooks_only:
  "webhooks_only s (snd (run_job p v env ws Check_health s))"
  "webhooks_only s (snd (run_job p v env ws (Dispatch_webhooks k) s))"
  "webhooks_only s (snd (run_job p v env ws (Retry_webhooks k) s))"
  by (simp_all add: job_defs health_check_job_def throw_def ret_def webhooks_only.R_refl passes_webhooks_only)

text \<open>C33. In each mode exactly one process runs the payment pipeline. The worker starts in both
  modes. With the simulated chain the API polls in its own process, and no job of the worker
  touches anything but deliveries and their requests; with the real chain the API does not
  poll, and the worker scans and confirms on the same adapter, with the configured number of
  confirmations.\<close>

theorem one_pipeline_per_mode:
  "snd (bootstrap e now) = None \<and>
   (if env_BLOCKCHAIN_MODE (env_chain e) = Mode_fake
    then polls_in_process (env_BLOCKCHAIN_MODE (env_chain e)) \<and>
      (\<forall>(q, h) \<in> set (workers_of (fst (bootstrap e now))). webhooks_only s (snd (run_job p v env ws h s)))
    else \<not> polls_in_process (env_BLOCKCHAIN_MODE (env_chain e)) \<and>
      map (\<lambda>(q, h). run_job p v env ws h) (drop 3 (workers_of (fst (bootstrap e now)))) =
        [on_outbox (runBlockchainScan env (evm_adapter v ''base'') ''base''),
         on_outbox (runPaymentConfirm env (evm_adapter v ''base'') (env_REQUIRED_CONFIRMATIONS (env_chain e)))])"
proof (cases "env_BLOCKCHAIN_MODE (env_chain e)")
  case Mode_fake
  then show ?thesis by (simp add: bootstrap_workers polls_in_process_def webhook_jobs_webhooks_only)
next
  case Mode_evm
  then show ?thesis by (simp add: bootstrap_workers polls_in_process_def job_defs)
qed

definition sample_worker_env :: env where
  "sample_worker_env =
     \<lparr>env_server = \<lparr>env_NODE_ENV = Production, env_LOG_LEVEL = ''info'', env_API_PORT = 3010,
        env_API_BASE_URL = ''https://pay.example'', env_CORS_ORIGINS = [''https://pay.example''],
        env_WEB_BASE_URL = ''https://pay.example'', env_CHECKOUT_BASE_URL = ''https://pay.example/pay'',
        env_COOKIE_SECURE = True, env_DATABASE_URL = ''postgresql://db'', env_REDIS_URL = ''redis://cache''\<rparr>,
      env_secrets = \<lparr>env_JWT_ACCESS_SECRET = replicate 32 (CHR ''a''), env_JWT_REFRESH_SECRET = replicate 32 (CHR ''b''),
        env_SESSION_COOKIE_SECRET = replicate 32 (CHR ''c''), env_CSRF_SECRET = replicate 32 (CHR ''d''),
        env_API_KEY_PEPPER = replicate 32 (CHR ''e''), env_ENCRYPTION_KEY = sample_key\<rparr>,
      env_limits = \<lparr>env_ACCESS_TOKEN_TTL_SECONDS = 900, env_REFRESH_TOKEN_TTL_SECONDS = 2592000,
        env_ARGON2_MEMORY_COST_KIB = 19456, env_ARGON2_TIME_COST = 2, env_ARGON2_PARALLELISM = 1,
        env_RATE_LIMIT_LOGIN = 5, env_RATE_LIMIT_GLOBAL = 300, env_RATE_LIMIT_CHECKOUT = 100\<rparr>,
      env_chain = \<lparr>env_REQUIRED_CONFIRMATIONS = 3, env_BLOCKCHAIN_BLOCK_TIME_MS = 2000,
        env_BLOCKCHAIN_MODE = Mode_fake, env_BASE_SEPOLIA_RPC_URL = ''https://sepolia.base.org''\<rparr>\<rparr>"

theorem one_pipeline_per_mode_witness:
  "length (workers_of (fst (bootstrap sample_worker_env 0))) = 3 \<and>
   webhooks_only sample_dispatched
     (snd (run_job \<lparr>pg_database = Inr (), pg_redis = Inr ''PONG''\<rparr> sample_viem sample_env
        (\<lambda>_ _. sample_world 200) (Dispatch_webhooks sample_key) sample_dispatched))"
  using one_pipeline_per_mode [of sample_worker_env 0 sample_dispatched
      "\<lparr>pg_database = Inr (), pg_redis = Inr ''PONG''\<rparr>" sample_viem sample_env "\<lambda>_ _. sample_world 200"]
  by (simp add: bootstrap_workers(2) sample_worker_env_def)

section \<open>Health and shutdown\<close>

text \<open>A health check fails exactly when the database or Redis does not answer as it should.\<close>

lemma health_check_fails_iff:
  "(\<exists>e. fst (health_check_job p s) = Inl e) \<longleftrightarrow> \<not> (\<exists>x. pg_database p = Inr x) \<or> pg_redis p \<noteq> Inr ''PONG''"
  by (auto simp: health_check_job_def checkDatabase_def checkRedis_def throw_def ret_def split: sum.splits)

text \<open>A start that does not go through ends the process, and opens nothing after the failure.\<close>

lemma start_fails:
  assumes "Exit n \<in> set (start_worker is_url issues src now accepts)"
  shows "n = 1 \<and> last (start_worker is_url issues src now accepts) = Exit 1"
proof -
  have none: "Exit m \<notin> set (fst (bootstrap e now))" for m e
    by (simp add: bootstrap_def Let_def chain_queues_eq open_queue_def)
  show ?thesis
  proof (cases "fst (loadEnv is_url issues src None)")
    case (Inl x)
    then show ?thesis using assms by (simp add: start_worker_def)
  next
    case (Inr e)
    obtain actions err where b: "bootstrap e now = (actions, err)" by fastforce
    then have "Exit n \<notin> set actions" using none [of n e] by simp
    then show ?thesis
      using assms by (auto simp: start_worker_def Inr b split: if_splits dest!: set_takeWhileD)
  qed
qed

lemma later_signals: "on_signals e workers True n = []"
  by (induction n) (simp_all add: on_signal_def)

text \<open>C34. The first signal shuts the worker down gracefully: everything the start opened is closed
  exactly once, each worker before its queue, the database and Redis after all of them, and the
  process ends with code 0; further signals do nothing.\<close>

theorem shutdown_closes_everything:
  "List.map_filter closed_by (on_signals e (map_of (workers_of (fst (bootstrap e now)))) False (Suc n)) =
     concat (map (\<lambda>(q, h). [Worker_of q h, Queue_of q]) (workers_of (fst (bootstrap e now)))) @ [prisma_of e, redis_of e] \<and>
   mset (List.map_filter closed_by (on_signals e (map_of (workers_of (fst (bootstrap e now)))) False (Suc n))) =
     mset (List.map_filter opened_by (fst (bootstrap e now))) \<and>
   last (on_signals e (map_of (workers_of (fst (bootstrap e now)))) False (Suc n)) = Exit 0"
proof -
  have stop: "on_signals e (map_of (workers_of (fst (bootstrap e now)))) False (Suc n) =
      shutdown_actions e (map_of (workers_of (fst (bootstrap e now))))"
    by (simp add: on_signal_def later_signals)
  have closed: "List.map_filter closed_by (shutdown_actions e (map_of (workers_of (fst (bootstrap e now))))) =
     concat (map (\<lambda>(q, h). [Worker_of q h, Queue_of q]) (workers_of (fst (bootstrap e now)))) @ [prisma_of e, redis_of e]"
    by (simp add: shutdown_actions_def bootstrap_workers Let_def map_filter_simps)
  have "mset (List.map_filter opened_by (fst (bootstrap e now))) =
     mset (concat (map (\<lambda>(q, h). [Worker_of q h, Queue_of q]) (workers_of (fst (bootstrap e now)))) @ [prisma_of e, redis_of e])"
    unfolding bootstrap_workers(2)
    by (simp add: bootstrap_def Let_def chain_queues_eq open_queue_def map_filter_simps)
  moreover have "last (shutdown_actions e (map_of (workers_of (fst (bootstrap e now))))) = Exit 0"
    by (simp add: shutdown_actions_def Let_def)
  ultimately show ?thesis unfolding stop closed by simp
qed

end
