(* ===== verification/Platform.thy ===== *)
theory Platform
  imports Service_Frames Webhook_Frames Worker_Main
begin

text \<open>
  The whole platform: requests to any route of the API, the API's own tick, and the jobs of the
  worker, in any order, on one database with the log of the webhook requests that left.
  What every request of a webhook rests on, from the chain to the merchant.
\<close>

section \<open>What an operation of the API does to the database\<close>

definition moves :: "int \<Rightarrow> store \<Rightarrow> store \<Rightarrow> bool" where
  "moves req s t \<longleftrightarrow> grows s t \<and> (reachable req s \<longrightarrow> reachable req t)"

interpretation move: state_order "moves req" for req
proof
  show "moves req s s" for s by (simp add: moves_def grow.R_refl)
  show "moves req s u" if "moves req s t" "moves req t u" for s t u
    using that grow.R_trans by (auto simp: moves_def)
qed

lemma beside_moves: "obeys beside m \<Longrightarrow> obeys (moves req) m"
  by (erule obeys_mono) (auto simp: moves_def beside_grows beside_def intro: reachable.other_tables)

lemma books_moves:
  assumes "obeys books m" and "obeys grows m"
  shows "obeys (moves req) m"
  using assms unfolding obeys_def moves_def books_def by (metis reachable.other_tables)

lemma create_invoice_moves: "obeys (moves req) (create_invoice env mode O' k input ctx)"
  using invoice_services_grow unfolding obeys_def moves_def by (metis reachable.creates surjective_pairing)

lemma endpoint_services_move:
  "obeys (moves req) (create_endpoint w key env O' actor url ctx)"
  "obeys (moves req) (revoke_endpoint env O' i actor ctx)"
proof -
  have rows: "obeys books (create_row endpoints endpoints_update c r)" "obeys books (update_row endpoints endpoints_update g f)"
    "obeys books (audit_record e)" for c r g f e
    by (simp_all add: obeys_def create_row_def update_row_def audit_record_def modify_def books_def)
  have "obeys books (create_endpoint w key env O' actor url ctx)"
    by (auto simp: create_endpoint_def Let_def intro!: books.no_write books.in_sequence rows)
  then show "obeys (moves req) (create_endpoint w key env O' actor url ctx)"
    by (rule books_moves) (rule endpoint_services_grow)
  have "obeys books (revoke_endpoint env O' i actor ctx)"
    by (auto simp: revoke_endpoint_def split: option.split intro!: books.no_write books.in_sequence rows)
  then show "obeys (moves req) (revoke_endpoint env O' i actor ctx)"
    by (rule books_moves) (rule endpoint_services_grow)
qed

lemmas guards_move = guards_beside [THEN beside_moves]

lemmas services_move = account_services_beside [THEN beside_moves] organization_services_beside [THEN beside_moves]
  create_invoice_moves endpoint_services_move

lemma ways_move:
  "(\<And>O'. obeys (moves req) (h O')) \<Longrightarrow> obeys (moves req) (as_member w env q h)"
  "(\<And>O' u. obeys (moves req) (h' O' u)) \<Longrightarrow> obeys (moves req) (as_admin w env q h')"
  "(\<And>O' k. obeys (moves req) (h' O' k)) \<Longrightarrow> obeys (moves req) (as_merchant w env q scopes h')"
  by (auto simp: as_member_def as_admin_def as_merchant_def intro!: move.in_sequence guards_move)

lemma tenant_calls_move:
  assumes "tenant_call w env registry q c = Some m"
  shows "obeys (moves req) m"
  using assms
  by (cases c)
    (auto simp: tenant_route_defs split: option.split prod.split
      intro!: ways_move move.no_write move.in_sequence guards_move services_move)

section \<open>The API process\<close>

definition api_moves :: "int \<Rightarrow> api_state \<Rightarrow> api_state \<Rightarrow> bool" where
  "api_moves req a b \<longleftrightarrow> moves req (ap_store a) (ap_store b)"

definition server_moves :: "int \<Rightarrow> server \<Rightarrow> server \<Rightarrow> bool" where
  "server_moves req v v' \<longleftrightarrow> api_moves req (sv_api v) (sv_api v')"

interpretation server_move: state_order "server_moves req" for req
  unfolding server_moves_def api_moves_def by unfold_locales (rule move.R_refl, rule move.R_trans)

lemma simulate_moves:
  "obeys (api_moves req) (simulatePayment v env req h f O' k amount)"
  "obeys (api_moves req) (simulatePaymentForCheckout v env req h f k amount)"
  using simulate_grows unfolding obeys_def api_moves_def moves_def api_grows_def
  by (metis reachable.merchant_simulates surjective_pairing, metis reachable.simulates surjective_pairing)

lemma tick_moves: "obeys (api_moves req) (tick v env req)"
  using tick_grows unfolding obeys_def api_moves_def moves_def api_grows_def
  by (metis reachable.ticks surjective_pairing)

lemma lifted_moves:
  "obeys (api_moves req) m \<Longrightarrow> obeys (server_moves req) (on_api m)"
  "obeys (moves req) n \<Longrightarrow> obeys (server_moves req) (on_db n)"
  "obeys (server_moves req) (on_redis k)"
  by (auto simp: obeys_def server_moves_def api_moves_def on_db_def on_api_def on_store_def on_redis_def
      move.R_refl split: prod.split dest: spec) (metis snd_conv)+

lemma api_moves_store:
  assumes "wd_requiredConfirmations w = req"
  shows "server_moves req v (snd (api w env q c v))"
proof (cases "tenant_call w env (ap_registry (sv_api v)) q c")
  case (Some m)
  then have "obeys (moves req) m" by (rule tenant_calls_move)
  then show ?thesis
    by (simp add: server_moves_def api_moves_def api_tenant(1) [OF Some] obeys_def)
next
  case None
  note steps = server_move.no_write server_move.in_sequence lifted_moves move.no_write move.in_sequence
    guards_move services_move simulate_moves ways_move
  have pipes: "obeys (server_moves req) (pipe w x)" for x :: "'a option" by (simp add: pipe_def server_move.no_write)
  have "obeys (server_moves req) (other_call w env q c)"
    unfolding assms [symmetric]
    by (cases c)
      (auto simp: map_eff_def auth_register_def auth_login_def auth_refresh_def auth_logout_def auth_verify_email_def
        auth_enable_two_factor_def auth_verify_two_factor_def org_create_def payments_simulate_def checkout_get_def
        checkout_simulate_def split: option.split prod.split intro!: steps pipes [unfolded assms [symmetric]])
  then show ?thesis by (simp add: api_def None obeys_def)
qed

section \<open>The platform\<close>

definition with_store :: "outbox \<Rightarrow> store \<Rightarrow> outbox" where
  "with_store s t = store.extend t (outbox.fields (sent s))"

lemma with_store_tables [simp]:
  "invoices (with_store s t) = invoices t" "payments (with_store s t) = payments t" "events (with_store s t) = events t"
  "endpoints (with_store s t) = endpoints t" "deliveries (with_store s t) = deliveries t" "sent (with_store s t) = sent s"
  "store.truncate (with_store s t) = t"
  by (simp_all add: with_store_def store.defs outbox.defs)

lemma truncate_tables [simp]:
  fixes s :: outbox
  shows "invoices (store.truncate s) = invoices s" "payments (store.truncate s) = payments s"
    "events (store.truncate s) = events s" "endpoints (store.truncate s) = endpoints s"
    "deliveries (store.truncate s) = deliveries s"
  by (simp_all add: store.defs)

lemma on_outbox_store: "snd (on_outbox m s) = with_store s (snd (m (store.truncate s)))"
  by (simp add: on_outbox_def with_store_def split: prod.split)

text \<open>The worker confirms with the number of confirmations of its configuration, which is the
  API's.\<close>

definition configured :: "int \<Rightarrow> processor \<Rightarrow> bool" where
  "configured req h = (case h of Confirm_payments _ n \<Rightarrow> n = req | _ \<Rightarrow> True)"

text \<open>It starts on any database that the payment system reached before the first webhook was
  sent, the empty one for instance.\<close>

inductive platform :: "int \<Rightarrow> outbox \<Rightarrow> bool" for req where
  Deployed: "reachable req (store.truncate s) \<Longrightarrow> ids_distinct s \<Longrightarrow> deliveries s = [] \<Longrightarrow> sent s = [] \<Longrightarrow>
    platform req s"
| Request: "platform req s \<Longrightarrow> wd_requiredConfirmations w = req \<Longrightarrow> ap_store (sv_api v) = store.truncate s \<Longrightarrow>
    platform req (with_store s (ap_store (sv_api (snd (api w env q c v)))))"
| Poll: "platform req s \<Longrightarrow> ap_store a = store.truncate s \<Longrightarrow>
    platform req (with_store s (ap_store (snd (tick v' env req a))))"
| Job: "platform req s \<Longrightarrow> configured req h \<Longrightarrow> platform req (snd (run_job p v' env ws h s))"

text \<open>One step writes either the store, as an operation of the pipeline or of a service, or
  deliveries and the log, as a pass of a webhook queue.\<close>

lemma job_cases:
  assumes "configured req h"
  shows "(\<exists>t. snd (run_job p v env ws h s) = with_store s t \<and> moves req (store.truncate s) t) \<or>
    (\<exists>key. snd (run_job p v env ws h s) = snd (runWebhookDispatch env ws key s)) \<or>
    (\<exists>key. snd (run_job p v env ws h s) = snd (runWebhookRetry env ws key s))"
proof (cases h)
  case Check_health
  have "s = with_store s (store.truncate s)" by (cases s) (simp add: with_store_def store.defs outbox.defs)
  then show ?thesis
    using move.R_refl by (auto simp: Check_health job_defs health_check_job_def throw_def ret_def)
next
  case (Scan_chain adapter network)
  have "moves req t (snd (runBlockchainScan env x network t))" for t x
    using passes_grow(1) unfolding obeys_def moves_def by (metis reachable.scans surjective_pairing)
  then show ?thesis by (auto simp: Scan_chain job_defs on_outbox_store)
next
  case (Confirm_payments adapter n)
  have "moves req t (snd (runPaymentConfirm env x req t))" for t x
    using passes_grow(2) unfolding obeys_def moves_def by (metis reachable.confirms surjective_pairing)
  then show ?thesis using assms by (auto simp: Confirm_payments job_defs on_outbox_store configured_def)
qed (auto simp: job_defs)

section \<open>What every delivery and every request rests on\<close>

text \<open>The pair of an event and an endpoint of the same organization.\<close>

definition linked :: "outbox \<Rightarrow> webhook_event \<Rightarrow> ident \<times> ident \<times> string \<times> string \<Rightarrow> bool" where
  "linked s ev k \<longleftrightarrow> ev \<in> set (events s) \<and> k \<in> endpoint_key ` set (endpoints s) \<and>
     fst (snd k) = evt_organizationId ev"

definition outbox_linked :: "outbox \<Rightarrow> bool" where
  "outbox_linked s \<longleftrightarrow>
     (\<forall>d \<in> set (deliveries s). \<exists>ev k. linked s ev k \<and> delivery_pair d = (evt_id ev, fst k)) \<and>
     (\<forall>((e, p), q) \<in> set (sent s). \<exists>ev k w secret. linked s ev k \<and> e = evt_id ev \<and> p = fst k \<and>
        q = delivery_request w (fst (snd (snd k))) ev secret)"

definition platform_inv :: "int \<Rightarrow> outbox \<Rightarrow> bool" where
  "platform_inv req s \<longleftrightarrow> reachable req (store.truncate s) \<and> ids_distinct s \<and> outbox_linked s"

lemma moves_inv:
  assumes "platform_inv req s" and "moves req (store.truncate s) t"
  shows "platform_inv req (with_store s t)"
proof -
  have grows: "set (events s) \<subseteq> set (events t)" "endpoint_key ` set (endpoints s) \<subseteq> endpoint_key ` set (endpoints t)"
    "deliveries t = deliveries s" "ids_distinct (store.truncate s) \<Longrightarrow> ids_distinct t"
  proof -
    from assms(2) obtain es ks where "events t = events s @ es"
      "map endpoint_key (endpoints t) = map endpoint_key (endpoints s) @ ks" "deliveries t = deliveries s"
      "ids_distinct (store.truncate s) \<longrightarrow> ids_distinct t"
      by (auto simp: moves_def grows_def)
    moreover from this(2) have "endpoint_key ` set (endpoints t) = endpoint_key ` set (endpoints s) \<union> set ks"
      by (metis image_set set_append)
    ultimately show "set (events s) \<subseteq> set (events t)"
      "endpoint_key ` set (endpoints s) \<subseteq> endpoint_key ` set (endpoints t)"
      "deliveries t = deliveries s" "ids_distinct (store.truncate s) \<Longrightarrow> ids_distinct t" by auto
  qed
  have "linked s ev k \<Longrightarrow> linked (with_store s t) ev k" for ev k using grows(1,2) by (auto simp: linked_def)
  then have "outbox_linked (with_store s t)"
    using assms(1) by (fastforce simp: platform_inv_def outbox_linked_def grows(3))
  moreover have "ids_distinct (with_store s t)"
    using assms(1) grows(4) by (simp add: platform_inv_def ids_distinct_def)
  ultimately show ?thesis using assms by (simp add: platform_inv_def moves_def)
qed

lemma adds_inv:
  assumes "platform_inv req s" and "adds P (requests_for ws key X) s t"
    and pairs: "\<And>e p. (e, p) \<in> P \<Longrightarrow> \<exists>ev k. linked s ev k \<and> e = evt_id ev \<and> p = fst k"
    and X: "\<And>ev ep. (ev, ep) \<in> X \<Longrightarrow> linked s ev (endpoint_key ep)"
  shows "platform_inv req t"
proof -
  have t: "t = s\<lparr>deliveries := deliveries t, sent := sent t\<rparr>" using assms(2) by (simp add: adds_def webhooks_only_def)
  have tables: "invoices t = invoices s" "payments t = payments s" "events t = events s" "endpoints t = endpoints s"
    by (subst t, simp)+
  have linked: "linked t ev k = linked s ev k" for ev k by (simp add: linked_def tables)
  have "reachable req (store.truncate t)"
    using assms(1) by (auto simp: platform_inv_def tables intro: reachable.other_tables)
  moreover have "ids_distinct t" using assms(1) by (simp add: platform_inv_def ids_distinct_def tables)
  moreover have "outbox_linked t"
    unfolding outbox_linked_def linked
  proof (intro conjI ballI)
    fix d assume "d \<in> set (deliveries t)"
    then consider "delivery_pair d \<in> delivery_pair ` set (deliveries s)" | "delivery_pair d \<in> P"
      using assms(2) by (auto simp: adds_def)
    then show "\<exists>ev k. linked s ev k \<and> delivery_pair d = (evt_id ev, fst k)"
    proof cases
      case 1
      then show ?thesis using assms(1) by (fastforce simp: platform_inv_def outbox_linked_def)
    next
      case 2
      then obtain ev k where "linked s ev k" "fst (delivery_pair d) = evt_id ev" "snd (delivery_pair d) = fst k"
        using pairs [of "fst (delivery_pair d)" "snd (delivery_pair d)"] by auto
      then show ?thesis by (intro exI [of _ ev] exI [of _ k]) (simp add: prod_eq_iff)
    qed
  next
    fix x assume "x \<in> set (sent t)"
    then consider "x \<in> set (sent s)" | "x \<in> requests_for ws key X" using assms(2) by (auto simp: adds_def)
    then show "case x of (pair, q) \<Rightarrow> (case pair of (e, p) \<Rightarrow> \<lambda>q. \<exists>ev k w secret. linked s ev k \<and> e = evt_id ev \<and>
        p = fst k \<and> q = delivery_request w (fst (snd (snd k))) ev secret) q"
    proof cases
      case 1
      then show ?thesis using assms(1) by (auto simp: platform_inv_def outbox_linked_def)
    next
      case 2
      obtain e p q where x: "x = ((e, p), q)" by (metis prod.exhaust)
      obtain ev ep secret where "(ev, ep) \<in> X" "e = evt_id ev" "p = we_id ep"
        "q = delivery_request (ws e p) (we_url ep) ev secret"
        using requests_for_rows 2 unfolding x by meson
      then have "linked s ev (endpoint_key ep) \<and> e = evt_id ev \<and> p = fst (endpoint_key ep) \<and>
          q = delivery_request (ws e p) (fst (snd (snd (endpoint_key ep)))) ev secret"
        using X by (simp add: endpoint_key_def)
      then show ?thesis unfolding x prod.case by blast
    qed
  qed
  ultimately show ?thesis by (simp add: platform_inv_def)
qed

lemma distinct_key_unique: "distinct (map f xs) \<Longrightarrow> x \<in> set xs \<Longrightarrow> y \<in> set xs \<Longrightarrow> f x = f y \<Longrightarrow> x = y"
  by (auto simp: distinct_map dest: inj_onD)

text \<open>What a retry reads for a delivery is what the delivery is for.\<close>

lemma attached_linked:
  assumes "platform_inv req s" and "d \<in> set (deliveries s)" and "attach_delivery s d = Some (d, ev, ep)"
  shows "linked s ev (endpoint_key ep)"
proof -
  have found: "ev \<in> set (events s)" "evt_id ev = whd_eventId d" "ep \<in> set (endpoints s)" "we_id ep = whd_endpointId d"
    using assms(3) by (auto simp: attach_delivery_def split: option.splits dest: find_SomeD)
  obtain ev' k where l: "linked s ev' k" "delivery_pair d = (evt_id ev', fst k)"
    using assms(1,2) by (auto simp: platform_inv_def outbox_linked_def)
  then obtain ep' where k: "ep' \<in> set (endpoints s)" "k = endpoint_key ep'" by (auto simp: linked_def)
  have ids: "distinct (map evt_id (events s))" "distinct (map we_id (endpoints s))"
    using assms(1) by (simp_all add: platform_inv_def ids_distinct_def)
  have "ev' \<in> set (events s)" using l(1) by (simp add: linked_def)
  then have "ev' = ev"
    using distinct_key_unique [OF ids(1) _ found(1)] l(2) found(2) by (simp add: delivery_pair_def)
  moreover have "ep' = ep"
    using distinct_key_unique [OF ids(2) k(1) found(3)] l(2) found(4) by (simp add: delivery_pair_def k(2) endpoint_key_def)
  ultimately show ?thesis using l(1) k(2) by simp
qed

lemma platform_inv_holds: "platform req s \<Longrightarrow> platform_inv req s"
proof (induction rule: platform.induct)
  case (Deployed s)
  then show ?case by (simp add: platform_inv_def outbox_linked_def)
next
  case (Request s w v env q c)
  have "moves req (store.truncate s) (ap_store (sv_api (snd (api w env q c v))))"
    using api_moves_store [OF Request.hyps(2), of v env q c] by (simp add: server_moves_def api_moves_def flip: Request.hyps(3))
  then show ?case by (rule moves_inv [OF Request.IH])
next
  case (Poll s a v' env)
  have "moves req (store.truncate s) (ap_store (snd (tick v' env req a)))"
    using tick_moves [of req v' env] by (simp add: obeys_def api_moves_def flip: Poll.hyps(2))
  then show ?case by (rule moves_inv [OF Poll.IH])
next
  case (Job s h p v' env ws)
  consider t where "snd (run_job p v' env ws h s) = with_store s t" "moves req (store.truncate s) t"
    | key where "snd (run_job p v' env ws h s) = snd (runWebhookDispatch env ws key s)"
    | key where "snd (run_job p v' env ws h s) = snd (runWebhookRetry env ws key s)"
    using job_cases [OF Job.hyps(2)] by meson
  then show ?case
  proof cases
    case 1
    then show ?thesis using moves_inv [OF Job.IH] by simp
  next
    case 2
    have rows: "linked s ev (endpoint_key ep)" if "(ev, ep) \<in> set (dispatch_pairs s)" for ev ep
      using dispatch_pairs_rows [OF that] by (auto simp: linked_def endpoint_key_def)
    show ?thesis unfolding 2
      by (rule adds_inv [OF Job.IH dispatch_adds]) (use rows in \<open>force simp: endpoint_key_def\<close>)+
  next
    case 3
    obtain X where X: "\<forall>(ev, ep) \<in> X. \<exists>d \<in> set (deliveries s). attach_delivery s d = Some (d, ev, ep)"
      "adds {} (requests_for ws key X) s (snd (runWebhookRetry env ws key s))"
      using retry_adds by meson
    show ?thesis unfolding 3
    proof (rule adds_inv [OF Job.IH X(2)])
      show "linked s ev (endpoint_key ep)" if "(ev, ep) \<in> X" for ev ep
        using X(1) that attached_linked [OF Job.IH] by blast
    qed simp
  qed
qed

section \<open>What merchants are told\<close>

lemma event_of_invoice:
  assumes "reachable req s" and "ev \<in> set (events s)"
  shows "\<exists>i \<in> set (invoices s). inv_id i = evt_invoiceId ev \<and> evt_type ev \<in> set (status_events (inv_status i)) \<and>
    event_ok i (pays_of s (inv_id i)) ev"
proof -
  have inv: "pipeline_inv req s" using assms(1) by (rule reachable_inv)
  then obtain i where "inv_row s (evt_invoiceId ev) = Some i" using assms(2) by (auto simp: pipeline_inv_def)
  then have i: "i \<in> set (invoices s)" "inv_id i = evt_invoiceId ev" using inv_rowD by blast+
  have mem: "ev \<in> set (evts_of s (inv_id i))" using assms(2) i(2) by (simp add: evts_of_def)
  have ok: "map evt_type (evts_of s (inv_id i)) = status_events (inv_status i)"
    "list_all (event_ok i (pays_of s (inv_id i))) (evts_of s (inv_id i))"
    using reachable_invoice_ok [OF assms(1) i(1)]
    by (cases "(req, i, pays_of s (inv_id i), evts_of s (inv_id i))" rule: invoice_ok.cases; simp)+
  have "evt_type ev \<in> set (map evt_type (evts_of s (inv_id i)))" using mem by simp
  then have "evt_type ev \<in> set (status_events (inv_status i))" unfolding ok(1) .
  moreover have "event_ok i (pays_of s (inv_id i)) ev" using ok(2) mem by (simp add: list_all_iff)
  ultimately have "evt_type ev \<in> set (status_events (inv_status i)) \<and> event_ok i (pays_of s (inv_id i)) ev" ..
  then show ?thesis using i by blast
qed


text \<open>The paid invoice of \<open>Payment_System\<close>, and an endpoint of its organization.\<close>

definition sample_paid_event :: webhook_event where
  "sample_paid_event = event_for Invoices.sample_env (inv_moves Inv_CONFIRMING 1000000 sample_invoice)
     ''payment.paid'' Inv_PAID (Some ''0x1'')"

definition sample_platform :: outbox where
  "sample_platform = (sample_outbox [sample_paid_event])
     \<lparr>invoices := invoices sample_paid, payments := payments sample_paid\<rparr>"

lemma sample_platform_reached: "platform 2 sample_platform"
proof (rule platform.Deployed)
  show "reachable 2 (store.truncate sample_platform)"
    by (rule reachable.other_tables [OF sample_reachable(4)])
      (simp_all add: sample_platform_def sample_outbox_def sample_paid_rows(3) sample_paid_event_def)
qed (simp_all add: sample_platform_def sample_outbox_def ids_distinct_def)

lemma sample_attempt:
  "\<exists>q. fst (attempt_made (\<lambda>_ _. sample_world 200) sample_key sample_paid_event sample_endpoint) = Some q"
proof -
  have "case fst (attempt_made (\<lambda>_ _. sample_world 200) sample_key sample_paid_event sample_endpoint) of
      None \<Rightarrow> False | Some q \<Rightarrow> True"
    by code_simp
  then show ?thesis by (auto split: option.splits)
qed

lemma sample_platform_sends:
  "\<exists>q. ((evt_id sample_paid_event, ''we_1''), q) \<in>
     set (sent (snd (runWebhookDispatch Webhook_System.sample_env (\<lambda>_ _. sample_world 200) sample_key sample_platform)))"
proof -
  have org: "evt_organizationId sample_paid_event = ''org_1''"
    by (simp add: sample_paid_event_def event_for_def inv_moves_def)
  have pairs: "dispatch_pairs sample_platform = [(sample_paid_event, sample_endpoint)]"
    by (simp add: dispatch_pairs_def dispatch_batch_def enabled_endpoints_def has_delivery_def BATCH_SIZE_def
        sample_platform_def sample_outbox_def org) (simp add: sample_endpoint_def)
  have none: "deliveries sample_platform = []" by (simp add: sample_platform_def sample_outbox_def)
  obtain q where "fst (attempt_made (\<lambda>_ _. sample_world 200) sample_key sample_paid_event sample_endpoint) = Some q"
    using sample_attempt by blast
  moreover have "we_id sample_endpoint = ''we_1''" by (simp add: sample_endpoint_def)
  ultimately show ?thesis
    by (auto simp: dispatch_pairs_loop pairs dispatch_one_result none log_request_def seq_def ret_def
        split: sum.split)
qed


end
