(* ===== verification/Web_Client.thy ===== *)
theory Web_Client
  imports Tenants Payment_System
begin

text \<open>
  The logic of the web application that talks to the API (\<open>apps/web/src/lib\<close>,
  \<open>hooks\<close>, and the decisions of the checkout page and the dashboard): how a request is built
  from the browser's cookies, how an answer is read, when the checkout page asks again and what
  it shows. Components that only draw are left out.
\<close>

section \<open>\<open>lib/api-client.ts\<close>\<close>

text \<open>\<open>/(?:^|; )name=([^;]*)/\<close> on \<open>document.cookie\<close>: at the start, else after the first
  separator where the name follows.\<close>

definition cookie_here :: "string \<Rightarrow> string \<Rightarrow> string option" where
  "cookie_here name s =
     (if starts_with s (name @ ''='') then Some (takeWhile (\<lambda>c. c \<noteq> CHR '';'') (drop (length name + 1) s))
      else None)"

fun scan_cookie :: "string \<Rightarrow> string \<Rightarrow> string option" where
  "scan_cookie name [] = None"
| "scan_cookie name (c # s) =
     (if starts_with (c # s) ''; ''
      then (case cookie_here name (drop 1 s) of Some v \<Rightarrow> Some v | None \<Rightarrow> scan_cookie name s)
      else scan_cookie name s)"

definition readCookie :: "string option \<Rightarrow> string \<Rightarrow> string option" where
  "readCookie document name =
     (case document of
        None \<Rightarrow> None
      | Some s \<Rightarrow> (case cookie_here name s of Some v \<Rightarrow> Some v | None \<Rightarrow> scan_cookie name s))"

record fetch_options =
  fo_method :: "string option"
  fo_body :: "json option"
  fo_organizationId :: "string option"

record fetch_request =
  fr_method :: string
  fr_path :: string
  fr_headers :: "(string \<times> string) list"
  fr_body :: "string option"

definition optional_header :: "string \<Rightarrow> string option \<Rightarrow> (string \<times> string) list" where
  "optional_header name v = (case truthy v of None \<Rightarrow> [] | Some x \<Rightarrow> [(name, x)])"

definition api_fetch_request :: "string option \<Rightarrow> string \<Rightarrow> fetch_options \<Rightarrow> fetch_request" where
  "api_fetch_request document path options =
     (let m = (case fo_method options of None \<Rightarrow> ''GET'' | Some m \<Rightarrow> m)
      in \<lparr>fr_method = m, fr_path = path,
          fr_headers =
            (if fo_body options \<noteq> None then [(''Content-Type'', ''application/json'')] else []) @
            (if m \<noteq> ''GET'' then optional_header ''X-CSRF-Token'' (readCookie document ''cp_csrf'') else []) @
            optional_header ''X-Organization-Id'' (fo_organizationId options),
          fr_body = map_option jsonStringify (fo_body options)\<rparr>)"

text \<open>An answer: its status, the \<open>error\<close> object of a JSON body if there is one, and the body
  parsed as JSON if it can be.\<close>

record 'a web_response =
  wr_status :: int
  wr_error :: "api_error_response option"
  wr_json :: "'a option"

datatype client_error =
    ApiErr int string string string
  | RequestFailed string
  | JsonError

definition response_ok :: "int \<Rightarrow> bool" where
  "response_ok status \<longleftrightarrow> 200 \<le> status \<and> status \<le> 299"

definition api_fetch_result :: "'a web_response \<Rightarrow> client_error + 'a option" where
  "api_fetch_result r =
     (if \<not> response_ok (wr_status r)
      then (case wr_error r of
              Some e \<Rightarrow> Inl (ApiErr (wr_status r) (er_code e) (er_message e) (er_request_id e))
            | None \<Rightarrow> Inl (RequestFailed (''Request failed with status '' @ int_toString (wr_status r))))
      else if wr_status r = 204 then Inr None
      else (case wr_json r of Some x \<Rightarrow> Inr (Some x) | None \<Rightarrow> Inl JsonError))"

section \<open>\<open>lib/checkout-client.ts\<close>, \<open>hooks\<close>, the checkout page\<close>

definition checkout_fetch_result :: "'a web_response \<Rightarrow> client_error + 'a" where
  "checkout_fetch_result r =
     (if \<not> response_ok (wr_status r)
      then (case wr_error r of
              Some e \<Rightarrow> Inl (ApiErr (wr_status r) (er_code e) (er_message e) (er_request_id e))
            | None \<Rightarrow> Inl (RequestFailed (''Request failed with status '' @ int_toString (wr_status r))))
      else (case wr_json r of Some x \<Rightarrow> Inr x | None \<Rightarrow> Inl JsonError))"

text \<open>A public request: no cookie, no CSRF value, no key. \<open>fetchCheckout\<close> and
  \<open>simulateCheckoutPayment\<close> are the two arguments of \<open>checkoutFetch\<close>.\<close>

definition checkout_fetch_request :: "string \<Rightarrow> fetch_options \<Rightarrow> fetch_request" where
  "checkout_fetch_request path init =
     \<lparr>fr_method = (case fo_method init of None \<Rightarrow> ''GET'' | Some m \<Rightarrow> m), fr_path = path,
      fr_headers = [(''Content-Type'', ''application/json'')],
      fr_body = map_option jsonStringify (fo_body init)\<rparr>"

definition fetchCheckout :: "string \<Rightarrow> string \<times> fetch_options" where
  "fetchCheckout invoiceId =
     (''/v1/checkout/'' @ invoiceId, \<lparr>fo_method = None, fo_body = None, fo_organizationId = None\<rparr>)"

definition simulateCheckoutPayment :: "string \<Rightarrow> string option \<Rightarrow> string \<times> fetch_options" where
  "simulateCheckoutPayment invoiceId amount =
     (''/v1/checkout/'' @ invoiceId @ ''/simulate-payment'',
      \<lparr>fo_method = Some ''POST'',
       fo_body = Some (JObj (case truthy amount of None \<Rightarrow> [] | Some a \<Rightarrow> [(''amount'', JStr a)])),
       fo_organizationId = None\<rparr>)"

definition ACTIVE_STATUSES :: "string list" where
  "ACTIVE_STATUSES = [''PENDING'', ''DETECTED'', ''CONFIRMING'']"

text \<open>\<open>useCheckout\<close>: the time until the next request, if there is one.\<close>

definition refetchInterval :: "checkout_view option \<Rightarrow> int option" where
  "refetchInterval data =
     (case truthy (map_option cv_status data) of
        Some st \<Rightarrow> if st \<in> set ACTIVE_STATUSES then Some 2000 else None
      | None \<Rightarrow> None)"

text \<open>\<open>Math.round\<close> rounds halves up.\<close>

definition secondsUntil :: "millis \<Rightarrow> millis \<Rightarrow> int" where
  "secondsUntil target now = max 0 ((target - now + 500) div 1000)"

definition formatCountdown :: "int \<Rightarrow> string" where
  "formatCountdown totalSeconds =
     (let s = int_toString (totalSeconds mod 60)
      in int_toString (totalSeconds div 60) @ '':'' @ replicate (2 - length s) (CHR ''0'') @ s)"

datatype screen =
    Loading | InvoiceNotFound | SomethingWrong | PendingState checkout_view | Confirming
  | PaidState checkout_view | Underpayment | Overpayment | LinkExpired | Unavailable string

definition status_screen :: "checkout_view \<Rightarrow> screen" where
  "status_screen data =
     (let st = cv_status data
      in if st = ''PENDING'' then PendingState data
         else if st = ''DETECTED'' \<or> st = ''CONFIRMING'' then Confirming
         else if st = ''PAID'' then PaidState data
         else if st = ''UNDERPAID'' then Underpayment
         else if st = ''OVERPAID'' then Overpayment
         else if st = ''EXPIRED'' then LinkExpired
         else Unavailable (''This invoice is '' @ to_lower st @ '' and can no longer be paid.''))"

definition checkout_screen :: "bool \<Rightarrow> client_error option \<Rightarrow> checkout_view option \<Rightarrow> screen" where
  "checkout_screen isLoading err data =
     (if isLoading then Loading
      else (case err of
              Some (ApiErr status _ _ _) \<Rightarrow> if status = 404 then InvoiceNotFound else SomethingWrong
            | Some _ \<Rightarrow> SomethingWrong
            | None \<Rightarrow> (case data of None \<Rightarrow> SomethingWrong | Some d \<Rightarrow> status_screen d)))"

text \<open>\<open>useOrganization\<close>: whether a failed query is sent again.\<close>

definition retry_organization :: "nat \<Rightarrow> client_error \<Rightarrow> bool" where
  "retry_organization failureCount err =
     (case err of
        ApiErr status _ _ _ \<Rightarrow> if status = 403 \<or> status = 401 then False else failureCount < 2
      | _ \<Rightarrow> failureCount < 2)"

definition isActiveRoute :: "string \<Rightarrow> string \<Rightarrow> bool" where
  "isActiveRoute pathname route =
     (if route = ''/dashboard'' then pathname = route else starts_with pathname route)"

datatype badge_tone = Neutral | Brand | Success | Warning | Danger

definition toneForStatus :: "string \<Rightarrow> badge_tone" where
  "toneForStatus st =
     (if st \<in> {''CREATED'', ''PENDING'', ''DETECTED'', ''CONFIRMING''} then Brand
      else if st \<in> {''PAID'', ''SUCCEEDED''} then Success
      else if st \<in> {''UNDERPAID'', ''OVERPAID''} then Warning
      else if st \<in> {''FAILED'', ''EXHAUSTED''} then Danger
      else Neutral)"

section \<open>Reading a cookie back\<close>

definition plain_pair :: "string \<times> string \<Rightarrow> bool" where
  "plain_pair = (\<lambda>(n, v). CHR '';'' \<notin> set n \<and> CHR ''='' \<notin> set n \<and> CHR '';'' \<notin> set v)"

definition pair_text :: "string \<times> string \<Rightarrow> string" where
  "pair_text = (\<lambda>(n, v). n @ ''='' @ v)"

lemma takeWhile_until: "c \<notin> set v \<Longrightarrow> takeWhile (\<lambda>x. x \<noteq> c) (v @ c # l) = v"
  by (induction v) auto

lemma starts_withD: "starts_with s p \<Longrightarrow> \<exists>u. s = p @ u"
  by (metis starts_with_def append_take_drop_id)

lemma cookie_here_pair:
  assumes "plain_pair (n, v)" and "CHR ''='' \<notin> set name" and "t = [] \<or> hd t = CHR '';''"
  shows "cookie_here name (pair_text (n, v) @ t) = (if n = name then Some v else None)"
proof -
  have "starts_with (n @ ''='' @ v @ t) (name @ ''='') \<longleftrightarrow> n = name"
  proof
    assume "starts_with (n @ ''='' @ v @ t) (name @ ''='')"
    then obtain u where "n @ ''='' @ v @ t = name @ ''='' @ u"
      using starts_withD by fastforce
    then have "takeWhile (\<lambda>c. c \<noteq> CHR ''='') (n @ ''='' @ v @ t) = takeWhile (\<lambda>c. c \<noteq> CHR ''='') (name @ ''='' @ u)"
      by simp
    then show "n = name" using assms(1,2) by (simp add: plain_pair_def takeWhile_until)
  qed (simp add: starts_with_def)
  moreover have "takeWhile (\<lambda>c. c \<noteq> CHR '';'') (v @ t) = v"
    using assms(1,3) by (cases t) (auto simp: plain_pair_def takeWhile_until)
  ultimately show ?thesis by (auto simp: cookie_here_def pair_text_def)
qed

lemma scan_cookie_skip:
  "CHR '';'' \<notin> set p \<Longrightarrow> scan_cookie name (p @ t) = scan_cookie name t"
  by (induction p) (auto simp: starts_with_def)

lemma pair_text_plain: "plain_pair p \<Longrightarrow> CHR '';'' \<notin> set (pair_text p)"
  by (auto simp: plain_pair_def pair_text_def split: prod.splits)

lemma join_Cons: "join sep (x # xs) = x @ (if xs = [] then [] else sep @ join sep xs)"
  by (cases xs) simp_all

lemma read_pairs:
  assumes "\<forall>p \<in> set ps. plain_pair p" and "CHR ''='' \<notin> set name"
  shows "scan_cookie name (if ps = [] then [] else ''; '' @ join ''; '' (map pair_text ps)) = map_of ps name"
  using assms(1)
proof (induction ps)
  case Nil
  then show ?case by simp
next
  case (Cons p ps)
  obtain n v where p: "p = (n, v)" by (cases p)
  let ?t = "if ps = [] then [] else ''; '' @ join ''; '' (map pair_text ps)"
  have here: "cookie_here name (pair_text (n, v) @ ?t) = (if n = name then Some v else None)"
    using Cons.prems assms(2) by (intro cookie_here_pair) (auto simp: p)
  have "scan_cookie name ('' '' @ pair_text (n, v) @ ?t) = map_of ps name"
    using Cons scan_cookie_skip [of "'' '' @ pair_text (n, v)" name ?t] pair_text_plain [of "(n, v)"]
    by (simp add: p)
  then show ?case using here by (simp add: p join_Cons starts_with_def split: if_splits)
qed

lemma readCookie_pairs:
  assumes "\<forall>p \<in> set ps. plain_pair p" and "CHR ''='' \<notin> set name" and "name \<noteq> []"
  shows "readCookie (Some (join ''; '' (map pair_text ps))) name = map_of ps name"
proof (cases ps)
  case Nil
  then show ?thesis using assms(3) by (simp add: readCookie_def cookie_here_def starts_with_def)
next
  case (Cons p rest)
  obtain n v where p: "p = (n, v)" by (cases p)
  let ?t = "if rest = [] then [] else ''; '' @ join ''; '' (map pair_text rest)"
  have "cookie_here name (pair_text (n, v) @ ?t) = (if n = name then Some v else None)"
    using assms(1,2) Cons by (intro cookie_here_pair) (auto simp: p)
  moreover have "scan_cookie name (pair_text (n, v) @ ?t) = map_of rest name"
    using read_pairs [of rest name] scan_cookie_skip [of "pair_text (n, v)" name ?t] pair_text_plain [of "(n, v)"]
      assms(1,2) Cons by (simp add: p)
  ultimately show ?thesis by (simp add: Cons p readCookie_def join_Cons split: if_splits)
qed

section \<open>A session of the dashboard\<close>

text \<open>What the browser shows scripts on a page, and the request it sends for \<open>apiFetch\<close>: the
  API sees header names in lower case.\<close>

definition documentCookie :: "string \<Rightarrow> jar_cookie list \<Rightarrow> string" where
  "documentCookie page jar =
     join ''; '' (map pair_text (map (\<lambda>c. (jc_name c, jc_value c))
       (filter (\<lambda>c. \<not> jc_httpOnly c \<and> path_match (jc_path c) page) jar)))"

definition browser_request :: "string \<Rightarrow> string \<Rightarrow> jar_cookie list \<Rightarrow> string \<Rightarrow> fetch_options \<Rightarrow> request" where
  "browser_request ip page jar path options =
     (let r = api_fetch_request (Some (documentCookie page jar)) path options
      in \<lparr>rq_method = fr_method r, rq_url = path, rq_ip = ip, rq_cookies = cookies_for path jar,
          rq_headers = (\<lambda>n. map_option One (map_of (map (\<lambda>(k, v). (to_lower k, v)) (fr_headers r)) n)),
          rq_bodyEmail = None, rq_userId = None, rq_organizationId = None, rq_membershipRole = None,
          rq_apiKeyId = None, rq_apiKeyScopes = None\<rparr>)"

text \<open>What \<open>jose\<close> documents: a signed token is not empty and verifies to its subject until it
  expires.\<close>

definition jwt_documented :: "jwt \<Rightarrow> bool" where
  "jwt_documented j \<longleftrightarrow>
     (\<forall>secret sub iat exp. jwt_sign j secret sub iat exp \<noteq> [] \<and>
        (\<forall>now < exp. jwt_verify j secret now (jwt_sign j secret sub iat exp) = Some (Some sub)))"

lemma hex_encode_chars: "CHR '';'' \<notin> set (hex_encode bs)"
proof -
  have "hex_digit n \<in> set ''0123456789abcdef''" for n
    unfolding hex_digit_def by (rule nth_mem) simp
  moreover have "CHR '';'' \<notin> set ''0123456789abcdef''" by simp
  ultimately have "hex_digit n \<noteq> CHR '';''" for n by metis
  then show ?thesis by (fastforce simp: hex_encode_def)
qed

lemma lower_header_names:
  "to_lower ''Content-Type'' = ''content-type''" "to_lower ''X-CSRF-Token'' = ''x-csrf-token''"
  "to_lower ''X-Organization-Id'' = ''x-organization-id''"
  by code_simp+

lemma auth_login_result:
  assumes "auth_login w env q b v = (Inr reply, v')"
  obtains input tokens u where "loginSchema (wd_isEmail w) b = Some input"
    "user_by_email (li_email input) (ap_store (sv_api v)) = Some u"
    "at_accessToken tokens = sign_access_token (aw_jwt (wd_auth w)) (wd_cfg w) (pe_now env) (usr_id u)"
    "ar_cookies reply = issueCookies (wd_cfg w) env tokens"
proof -
  obtain q1 v1 input tokens v2 where
    limit: "on_redis (RedisRateLimitGuard (wd_cfg w) (Some Rate_login) (pe_now env) q) v = (Inr q1, v1)"
    and input: "loginSchema (wd_isEmail w) b = Some input"
    and login: "on_db (login (wd_auth w) (wd_cfg w) env input (context_of q1)) v1 = (Inr tokens, v2)"
    and reply: "ar_cookies reply = issueCookies (wd_cfg w) env tokens"
    using assms
    by (auto simp: auth_login_def seq_eq_Inr pipe_def validation_pipe_def lift_def ret_def split: option.splits)
  have store: "sv_api v1 = sv_api v" using limit by (auto simp: on_redis_def split: prod.splits)
  have "fst (login (wd_auth w) (wd_cfg w) env input (context_of q1) (ap_store (sv_api v))) = Inr tokens"
    using login on_db_result(1) [of _ v1] by (metis fst_conv store)
  then obtain s' where "login (wd_auth w) (wd_cfg w) env input (context_of q1) (ap_store (sv_api v)) = (Inr tokens, s')"
    by (metis prod.collapse)
  then obtain u where "user_by_email (li_email input) (ap_store (sv_api v)) = Some u"
    "at_accessToken tokens = sign_access_token (aw_jwt (wd_auth w)) (wd_cfg w) (pe_now env) (usr_id u)"
    by (auto simp: login_def seq_reads reject_login_def throw_def seq_eq_Inr open_session_def ret_def
        split: option.splits if_splits)
  then show thesis using that input reply by blast
qed

lemma browser_csrf:
  assumes "\<forall>c \<in> set jar. jc_name c \<notin> auth_cookie_names \<and> plain_pair (jc_name c, jc_value c)"
    and "starts_with path ''/''" and "starts_with page ''/''"
    and "csrf = hex_encode bs" and "bs \<noteq> []"
    and "acv_csrfToken values' = csrf"
  shows "CsrfGuard (browser_request ip page (receive_cookies jar (setAuthCookies cfg values')) path options
      \<lparr>rq_userId := x\<rparr>) s =
    (Inr (browser_request ip page (receive_cookies jar (setAuthCookies cfg values')) path options\<lparr>rq_userId := x\<rparr>), s)"
proof -
  let ?jar = "receive_cookies jar (setAuthCookies cfg values')"
  let ?q = "browser_request ip page ?jar path options"
  let ?ps = "map (\<lambda>c. (jc_name c, jc_value c)) (filter (\<lambda>c. \<not> jc_httpOnly c \<and> path_match (jc_path c) page) ?jar)"
  have same: "filter (\<lambda>c. \<not> (jc_name c = n \<and> jc_path c = p)) jar = jar" if "n \<in> auth_cookie_names" for n p
    using assms(1) that by (intro filter_True) auto
  have ps: "?ps = map (\<lambda>c. (jc_name c, jc_value c)) (filter (\<lambda>c. \<not> jc_httpOnly c \<and> path_match (jc_path c) page) jar)
      @ [(''cp_csrf'', csrf)]"
    using assms(3,6) same
    by (simp add: receive_cookies_def setAuthCookies_def auth_cookie_names_def path_match_root)
  have "readCookie (Some (documentCookie page ?jar)) ''cp_csrf'' = map_of ?ps ''cp_csrf''"
    unfolding documentCookie_def
    by (rule readCookie_pairs)
      (use assms(1,4) hex_encode_chars [of bs] in \<open>auto simp: ps plain_pair_def\<close>)
  moreover have "map_of ?ps ''cp_csrf'' = Some csrf"
  proof -
    have "(''cp_csrf'', y) \<notin> set (map (\<lambda>c. (jc_name c, jc_value c))
        (filter (\<lambda>c. \<not> jc_httpOnly c \<and> path_match (jc_path c) page) jar))" for y
      using assms(1) by (auto simp: auth_cookie_names_def)
    then have "map_of (map (\<lambda>c. (jc_name c, jc_value c))
        (filter (\<lambda>c. \<not> jc_httpOnly c \<and> path_match (jc_path c) page) jar)) ''cp_csrf'' = None"
      by (meson map_of_SomeD not_None_eq)
    then show ?thesis by (simp add: ps map_add_def)
  qed
  ultimately have read: "readCookie (Some (documentCookie page ?jar)) ''cp_csrf'' = Some csrf" by simp
  have nonempty: "csrf \<noteq> []" using assms(4,5) by (cases bs) (simp_all add: hex_encode_def)
  have cookie: "rq_cookies ?q ''cp_csrf'' = Some csrf"
    using cookies_after_set(2) [of jar path cfg values'] assms(1,2,6) by (simp add: browser_request_def Let_def)
  have "rq_method ?q = ''GET'' \<or> single_header ?q ''x-csrf-token'' = Some csrf"
    using read nonempty
    by (simp add: browser_request_def api_fetch_request_def Let_def single_header_def optional_header_def truthy_def
        lower_header_names split: option.split list.split)
  moreover have "map to_upper_char ''GET'' \<in> set SAFE_METHODS" by code_simp
  moreover have "single_header (?q\<lparr>rq_userId := x\<rparr>) n = single_header ?q n" for n by (simp add: single_header_def)
  ultimately show ?thesis
    using cookie nonempty by (subst csrf_passes) auto
qed

text \<open>C15. A login opens the dashboard: with the cookies it set, every request the web application
  builds while the access token lives, on any page and with any method, passes the session
  guard for the account that logged in and the CSRF guard, and these write nothing.\<close>

theorem web_session_works:
  assumes login: "auth_login w env q b v = (Inr reply, v')"
    and jwt: "jwt_documented (aw_jwt (wd_auth w))"
    and csrf: "pe_randomBytes env ''csrf'' ''cookie'' \<noteq> []"
    and jar: "\<forall>c \<in> set jar. jc_name c \<notin> auth_cookie_names \<and> plain_pair (jc_name c, jc_value c)"
    and paths: "starts_with path ''/''" "starts_with page ''/''"
    and later: "now div 1000 < pe_now env div 1000 + cfg_accessTtlSeconds (wd_cfg w)"
  shows "\<exists>input u. loginSchema (wd_isEmail w) b = Some input \<and>
    user_by_email (li_email input) (ap_store (sv_api v)) = Some u \<and>
    session_guards (aw_jwt (wd_auth w)) (wd_cfg w) now
      (browser_request ip page (receive_cookies jar (ar_cookies reply)) path options) s =
    (Inr (browser_request ip page (receive_cookies jar (ar_cookies reply)) path options\<lparr>rq_userId := Some (usr_id u)\<rparr>), s)"
proof -
  obtain input tokens u where input: "loginSchema (wd_isEmail w) b = Some input"
    and u: "user_by_email (li_email input) (ap_store (sv_api v)) = Some u"
    and token: "at_accessToken tokens = sign_access_token (aw_jwt (wd_auth w)) (wd_cfg w) (pe_now env) (usr_id u)"
    and cookies: "ar_cookies reply = issueCookies (wd_cfg w) env tokens"
    using auth_login_result [OF login] .
  let ?q = "browser_request ip page (receive_cookies jar (ar_cookies reply)) path options"
  have names: "\<forall>c \<in> set jar. jc_name c \<notin> auth_cookie_names" using jar by blast
  have "rq_cookies ?q ''cp_at'' = Some (at_accessToken tokens)"
    using cookies_after_set(1) [OF names paths(1)] by (simp add: browser_request_def Let_def cookies issueCookies_def)
  then have "SessionAuthGuard (aw_jwt (wd_auth w)) (wd_cfg w) now ?q s = (Inr (?q\<lparr>rq_userId := Some (usr_id u)\<rparr>), s)"
    using jwt later token unfolding session_passes by (simp add: jwt_documented_def sign_access_token_def)
  then have "session_guards (aw_jwt (wd_auth w)) (wd_cfg w) now ?q s =
      CsrfGuard (?q\<lparr>rq_userId := Some (usr_id u)\<rparr>) s"
    by (simp add: session_guards_def seq_Inr)
  then show ?thesis
    using input u browser_csrf [OF jar paths refl csrf] by (simp add: cookies issueCookies_def)
qed

definition prefix_jwt :: jwt where
  "prefix_jwt = \<lparr>jwt_sign = (\<lambda>_ sub _ _. CHR ''t'' # sub), jwt_verify = (\<lambda>_ _ token. Some (Some (drop 1 token)))\<rparr>"

definition dashboard_api :: api_world where
  "dashboard_api = sample_api\<lparr>wd_auth := sample_auth\<lparr>aw_jwt := prefix_jwt\<rparr>\<rparr>"

definition dashboard_server :: server where
  "dashboard_server = sample_server\<lparr>sv_api := idle_state\<lparr>ap_store := sample_accounts 0\<rparr>\<rparr>"

definition sign_out :: fetch_options where
  "sign_out = \<lparr>fo_method = Some ''POST'', fo_body = None, fo_organizationId = None\<rparr>"

theorem web_session_works_witness:
  "\<exists>reply v' q'. auth_login dashboard_api sample_key_env sample_client (sample_login ''pass123456'') dashboard_server =
       (Inr reply, v') \<and>
     fst (session_guards prefix_jwt sample_config 60000
       (browser_request ''203.0.113.9'' ''/en/dashboard'' (receive_cookies [] (ar_cookies reply)) ''/v1/auth/2fa/enable'' sign_out)
       empty_store) = Inr q' \<and> rq_userId q' = Some ''usr_1''"
proof -
  let ?l = "auth_login dashboard_api sample_key_env sample_client (sample_login ''pass123456'') dashboard_server"
  have "case fst ?l of Inl e \<Rightarrow> False | Inr x \<Rightarrow> True" by code_simp
  then obtain reply v' where l: "?l = (Inr reply, v')" by (cases ?l) (auto split: sum.splits)
  have world: "aw_jwt (wd_auth dashboard_api) = prefix_jwt" "wd_cfg dashboard_api = sample_config"
    "ap_store (sv_api dashboard_server) = sample_accounts 0"
    by (simp_all add: dashboard_api_def sample_api_def dashboard_server_def)
  have jwt: "jwt_documented (aw_jwt (wd_auth dashboard_api))" by (simp add: world jwt_documented_def prefix_jwt_def)
  have csrf: "pe_randomBytes sample_key_env ''csrf'' ''cookie'' \<noteq> []" by (simp add: sample_key_env_def)
  have jar: "\<forall>c \<in> set []. jc_name c \<notin> auth_cookie_names \<and> plain_pair (jc_name c, jc_value c)" by simp
  have paths: "starts_with ''/v1/auth/2fa/enable'' ''/''" "starts_with ''/en/dashboard'' ''/''"
    by (simp_all add: starts_with_def)
  have later: "60000 div 1000 < pe_now sample_key_env div 1000 + cfg_accessTtlSeconds (wd_cfg dashboard_api)"
    by (simp add: sample_key_env_def world sample_config_def)
  from web_session_works [OF l jwt csrf jar paths later,
      where ip = "''203.0.113.9''" and options = sign_out and s = empty_store, unfolded world] obtain input :: login_input and u where
    u: "user_by_email (li_email input) (sample_accounts 0) = Some u"
    and g: "session_guards prefix_jwt sample_config 60000
      (browser_request ''203.0.113.9'' ''/en/dashboard'' (receive_cookies [] (ar_cookies reply)) ''/v1/auth/2fa/enable'' sign_out)
      empty_store =
    (Inr (browser_request ''203.0.113.9'' ''/en/dashboard'' (receive_cookies [] (ar_cookies reply))
       ''/v1/auth/2fa/enable'' sign_out\<lparr>rq_userId := Some (usr_id u)\<rparr>), empty_store)" by blast
  have "usr_id u = ''usr_1''"
    using u by (auto simp: user_by_email_def sample_accounts_def sample_user_def split: if_splits)
  then have "rq_userId (q\<lparr>rq_userId := Some (usr_id u)\<rparr>) = Some ''usr_1''" for q by simp
  then show ?thesis using l g by (metis fst_conv)
qed

section \<open>The checkout page\<close>

lemma life_settled:
  assumes "life_reaches l l'" and "fst l \<notin> {Inv_PENDING, Inv_DETECTED, Inv_CONFIRMING}"
  shows "l' = l"
  using assms by (induction rule: rtranclp_induct) (auto elim: life_step.cases)

lemma view_of_terms:
  "terms_of i = terms_of j \<Longrightarrow> inv_status i = inv_status j \<Longrightarrow> toCheckoutView dts i n = toCheckoutView dts j n"
  by (cases i, cases j) (simp add: terms_of_def toCheckoutView_def)

lemma stops_polling:
  "refetchInterval (Some (toCheckoutView dts i n)) = None \<longleftrightarrow>
   inv_status i \<notin> {Inv_PENDING, Inv_DETECTED, Inv_CONFIRMING}"
  by (cases "inv_status i")
    (simp_all add: refetchInterval_def truthy_def toCheckoutView_def ACTIVE_STATUSES_def)

text \<open>C29. The checkout page stops asking only when nothing more can happen: once the client
  stops polling, every later pass of the worker or the API leaves what the page shows of the
  invoice exactly as it is.\<close>

theorem checkout_page_final:
  assumes "reachable req s" and "reachable req (ap_store a)"
    and "s' = snd (runBlockchainScan env adapter network s) \<or>
      s' = snd (runPaymentConfirm env adapter req s) \<or> (s' = ap_store (snd (tick v env req a)) \<and> s = ap_store a)"
    and "checkout_page dts k s = Inr view" and "refetchInterval (Some view) = None"
  shows "\<exists>i. inv_row s' k = Some i \<and> (\<forall>name. toCheckoutView dts i name = view\<lparr>cv_merchantName := name\<rparr>)"
proof -
  have steps: "pipe_steps req s s'"
    using assms(3) pass_okD(1) [OF tick_ok reachable_inv [OF assms(2)] surjective_pairing]
      pass_okD(1) [OF runBlockchainScan_ok reachable_inv [OF assms(1)] surjective_pairing]
      pass_okD(1) [OF runPaymentConfirm_ok reachable_inv [OF assms(1)] surjective_pairing]
    by auto
  obtain i n where i: "inv_row s k = Some i" and view: "view = toCheckoutView dts i n"
    using assms(4) by (auto simp: checkout_page_def getForCheckout_def split: option.splits)
  have settled: "inv_status i \<notin> {Inv_PENDING, Inv_DETECTED, Inv_CONFIRMING}"
    using assms(5) by (simp add: view stops_polling)
  have frame: "map_option terms_of (inv_row s' k) = map_option terms_of (inv_row s k)"
    using pipe_steps_frame [OF steps] by blast
  then obtain j where j: "inv_row s' k = Some j" "terms_of j = terms_of i" by (auto simp: i)
  have "rel_option life_reaches (life_of s k) (life_of s' k)"
    using pipe_steps_life [OF steps reachable_inv [OF assms(1)]] .
  then have "inv_status j = inv_status i"
    using life_settled settled by (fastforce simp: life_of_def i j(1))
  then have "toCheckoutView dts j name = view\<lparr>cv_merchantName := name\<rparr>" for name
    using view_of_terms [OF j(2), of dts name] by (simp add: view toCheckoutView_def)
  then show ?thesis using j(1) by blast
qed

definition sample_settled :: store where
  "sample_settled = sample_paid\<lparr>organizations := [\<lparr>org_id = ''org_1'', org_name = ''Shop'', org_slug = ''shop''\<rparr>]\<rparr>"

theorem checkout_page_final_witness:
  "\<exists>i view. checkout_page (\<lambda>_. ''5'') (inv_id sample_invoice) sample_settled = Inr view \<and>
     status_screen view = PaidState view \<and>
     inv_row (snd (runBlockchainScan sample_env sample_adapter ''base'' sample_settled)) (inv_id sample_invoice) = Some i \<and>
     toCheckoutView (\<lambda>_. ''5'') i ''Shop'' = view"
proof -
  have r: "reachable 2 sample_settled"
    by (rule reachable.other_tables [OF sample_reachable(4)]) (simp_all add: sample_settled_def)
  have org: "inv_organizationId sample_invoice = ''org_1''" by (simp add: sample_invoice_def new_invoice_def)
  let ?i = "inv_finalized Inv_PAID 1000000 sample_invoice"
  let ?view = "toCheckoutView (\<lambda>_. ''5'') ?i ''Shop''"
  have page: "checkout_page (\<lambda>_. ''5'') (inv_id sample_invoice) sample_settled = Inr ?view"
    by (simp add: checkout_page_def getForCheckout_def inv_row_def sample_settled_def sample_paid_rows
        inv_finalized_def org)
  have stop: "refetchInterval (Some ?view) = None" by (simp add: stops_polling inv_finalized_def)
  have idle: "reachable 2 (ap_store (idle_state\<lparr>ap_store := sample_settled\<rparr>))" using r by simp
  from checkout_page_final [OF r idle _ page stop, of _ sample_env sample_adapter "''base''"]
  obtain j where "inv_row (snd (runBlockchainScan sample_env sample_adapter ''base'' sample_settled)) (inv_id sample_invoice) = Some j"
    "toCheckoutView (\<lambda>_. ''5'') j ''Shop'' = ?view\<lparr>cv_merchantName := ''Shop''\<rparr>" by blast
  moreover have "?view\<lparr>cv_merchantName := ''Shop''\<rparr> = ?view" by (simp add: toCheckoutView_def)
  moreover have "status_screen ?view = PaidState ?view"
    by (simp add: status_screen_def toCheckoutView_def inv_finalized_def)
  ultimately show ?thesis using page by metis
qed

end
