(* ===== verification/Web_Pages.thy ===== *)
theory Web_Pages
  imports Web_Client
begin

text \<open>
  What the pages of the web application do with the client: the calls of the query and mutation
  hooks (\<open>apps/web/src/hooks\<close>), the login and registration forms, and the decisions of the
  dashboard's pages, without their markup. \<open>web_path\<close> and \<open>web_options\<close> are the two arguments a
  call gives \<open>apiFetch\<close>.
\<close>

section \<open>The calls\<close>

datatype web_call =
    Web_register string string
  | Web_login string string "string option"
  | Web_sign_out
  | Web_organization
  | Web_create_organization string
  | Web_update_organization string
  | Web_members
  | Web_invite_member string membership_role
  | Web_api_keys
  | Web_create_api_key string api_key_environment "api_key_scope list"
  | Web_revoke_api_key ident
  | Web_invoices nat nat
  | Web_endpoints
  | Web_create_endpoint string
  | Web_revoke_endpoint ident
  | Web_deliveries ident
  | Web_wallets
  | Web_set_wallet string string string

definition json_body :: "(string \<times> json) list \<Rightarrow> json option" where
  "json_body kvs = Some (JObj kvs)"

definition fetch_with :: "string \<Rightarrow> json option \<Rightarrow> fetch_options" where
  "fetch_with m body = \<lparr>fo_method = Some m, fo_body = body, fo_organizationId = None\<rparr>"

definition fetch_get :: fetch_options where
  "fetch_get = \<lparr>fo_method = None, fo_body = None, fo_organizationId = None\<rparr>"

text \<open>\<open>use-organization.ts\<close>.\<close>

definition useOrganization :: "string \<times> fetch_options" where
  "useOrganization = (''/v1/organizations/me'', fetch_get)"

definition useCreateOrganization :: "string \<Rightarrow> string \<times> fetch_options" where
  "useCreateOrganization name =
     (''/v1/organizations'', fetch_with ''POST'' (json_body [(''name'', JStr name)]))"

definition useUpdateOrganization :: "string \<Rightarrow> string \<times> fetch_options" where
  "useUpdateOrganization name =
     (''/v1/organizations/me'', fetch_with ''PATCH'' (json_body [(''name'', JStr name)]))"

definition useOrganizationMembers :: "string \<times> fetch_options" where
  "useOrganizationMembers = (''/v1/organizations/me/members'', fetch_get)"

definition useInviteMember :: "string \<Rightarrow> membership_role \<Rightarrow> string \<times> fetch_options" where
  "useInviteMember email role =
     (''/v1/organizations/me/members'',
      fetch_with ''POST'' (json_body [(''email'', JStr email), (''role'', JStr (role_name role))]))"

text \<open>\<open>use-api-keys.ts\<close>.\<close>

definition useApiKeys :: "string \<times> fetch_options" where
  "useApiKeys = (''/v1/api-keys'', fetch_get)"

definition useCreateApiKey ::
    "string \<Rightarrow> api_key_environment \<Rightarrow> api_key_scope list \<Rightarrow> string \<times> fetch_options" where
  "useCreateApiKey name environment scopes =
     (''/v1/api-keys'', fetch_with ''POST'' (json_body
        [(''name'', JStr name), (''environment'', JStr (environment_name environment)),
         (''scopes'', JArr (map (\<lambda>x. JStr (scope_name x)) scopes))]))"

definition useRevokeApiKey :: "ident \<Rightarrow> string \<times> fetch_options" where
  "useRevokeApiKey i = (''/v1/api-keys/'' @ i, fetch_with ''DELETE'' None)"

text \<open>\<open>use-webhook-endpoints.ts\<close>.\<close>

definition useWebhookEndpoints :: "string \<times> fetch_options" where
  "useWebhookEndpoints = (''/v1/dashboard/webhook-endpoints'', fetch_get)"

definition useCreateWebhookEndpoint :: "string \<Rightarrow> string \<times> fetch_options" where
  "useCreateWebhookEndpoint url =
     (''/v1/dashboard/webhook-endpoints'', fetch_with ''POST'' (json_body [(''url'', JStr url)]))"

definition useRevokeWebhookEndpoint :: "ident \<Rightarrow> string \<times> fetch_options" where
  "useRevokeWebhookEndpoint i =
     (''/v1/dashboard/webhook-endpoints/'' @ i, fetch_with ''DELETE'' None)"

definition useWebhookDeliveries :: "ident \<Rightarrow> string \<times> fetch_options" where
  "useWebhookDeliveries i =
     (''/v1/dashboard/webhook-endpoints/'' @ i @ ''/deliveries'', fetch_get)"

text \<open>\<open>use-invoices.ts\<close> and \<open>use-wallet-addresses.ts\<close>.\<close>

definition useInvoices :: "nat \<Rightarrow> nat \<Rightarrow> string \<times> fetch_options" where
  "useInvoices page limit =
     (''/v1/dashboard/invoices?page='' @ nat_toString page @ ''&limit='' @ nat_toString limit, fetch_get)"

definition useWalletAddresses :: "string \<times> fetch_options" where
  "useWalletAddresses = (''/v1/dashboard/wallet-addresses'', fetch_get)"

definition useSetWalletAddress :: "string \<Rightarrow> string \<Rightarrow> string \<Rightarrow> string \<times> fetch_options" where
  "useSetWalletAddress network token address =
     (''/v1/dashboard/wallet-addresses'', fetch_with ''PUT'' (json_body
        [(''network'', JStr network), (''token'', JStr token), (''address'', JStr address)]))"

text \<open>The forms and the sign-out button.\<close>

definition post_register :: "string \<Rightarrow> string \<Rightarrow> string \<times> fetch_options" where
  "post_register email password =
     (''/v1/auth/register'', fetch_with ''POST'' (json_body
        [(''email'', JStr email), (''password'', JStr password)]))"

definition post_login :: "string \<Rightarrow> string \<Rightarrow> string option \<Rightarrow> string \<times> fetch_options" where
  "post_login email password totpCode =
     (''/v1/auth/login'', fetch_with ''POST'' (json_body
        ([(''email'', JStr email), (''password'', JStr password)] @
         (case totpCode of None \<Rightarrow> [] | Some x \<Rightarrow> [(''totpCode'', JStr x)]))))"

definition handleSignOut :: "string \<times> fetch_options" where
  "handleSignOut = (''/v1/auth/logout'', fetch_with ''POST'' None)"

primrec web_fetch :: "web_call \<Rightarrow> string \<times> fetch_options" where
  "web_fetch (Web_register email password) = post_register email password"
| "web_fetch (Web_login email password totpCode) = post_login email password totpCode"
| "web_fetch Web_sign_out = handleSignOut"
| "web_fetch Web_organization = useOrganization"
| "web_fetch (Web_create_organization name) = useCreateOrganization name"
| "web_fetch (Web_update_organization name) = useUpdateOrganization name"
| "web_fetch Web_members = useOrganizationMembers"
| "web_fetch (Web_invite_member email role) = useInviteMember email role"
| "web_fetch Web_api_keys = useApiKeys"
| "web_fetch (Web_create_api_key name environment scopes) = useCreateApiKey name environment scopes"
| "web_fetch (Web_revoke_api_key i) = useRevokeApiKey i"
| "web_fetch (Web_invoices page limit) = useInvoices page limit"
| "web_fetch Web_endpoints = useWebhookEndpoints"
| "web_fetch (Web_create_endpoint url) = useCreateWebhookEndpoint url"
| "web_fetch (Web_revoke_endpoint i) = useRevokeWebhookEndpoint i"
| "web_fetch (Web_deliveries i) = useWebhookDeliveries i"
| "web_fetch Web_wallets = useWalletAddresses"
| "web_fetch (Web_set_wallet network token address) = useSetWalletAddress network token address"

lemmas hook_defs = useOrganization_def useCreateOrganization_def useUpdateOrganization_def
  useOrganizationMembers_def useInviteMember_def useApiKeys_def useCreateApiKey_def useRevokeApiKey_def
  useWebhookEndpoints_def useCreateWebhookEndpoint_def useRevokeWebhookEndpoint_def useWebhookDeliveries_def
  useInvoices_def useWalletAddresses_def useSetWalletAddress_def post_register_def post_login_def
  handleSignOut_def

definition web_path :: "web_call \<Rightarrow> string" where "web_path c = fst (web_fetch c)"

definition web_options :: "web_call \<Rightarrow> fetch_options" where "web_options c = snd (web_fetch c)"

section \<open>The forms\<close>

text \<open>\<open>LoginForm\<close>: what submitting sends, if the form is well-formed, and what an error shows.\<close>

definition login_submit :: "(string \<Rightarrow> bool) \<Rightarrow> string \<Rightarrow> string \<Rightarrow> string \<Rightarrow> web_call option" where
  "login_submit isEmail email password totpCode =
     map_option (\<lambda>p. Web_login (li_email p) (li_password p) (li_totpCode p))
       (loginSchema isEmail \<lparr>li_email = email, li_password = password, li_totpCode = truthy (Some totpCode)\<rparr>)"

fun contains :: "string \<Rightarrow> string \<Rightarrow> bool" where
  "contains [] t \<longleftrightarrow> t = []"
| "contains (c # s) t \<longleftrightarrow> starts_with (c # s) t \<or> contains s t"

definition login_needs_totp :: "client_error \<Rightarrow> bool" where
  "login_needs_totp e =
     (case e of ApiErr _ _ message _ \<Rightarrow> contains (to_lower message) ''two-factor'' | _ \<Rightarrow> False)"

text \<open>\<open>RegisterForm\<close>: every answer, an error too, shows that the address was accepted.\<close>

definition register_submit :: "(string \<Rightarrow> bool) \<Rightarrow> string \<Rightarrow> string \<Rightarrow> web_call option" where
  "register_submit isEmail email password =
     map_option (\<lambda>(e, p). Web_register e p) (registerSchema isEmail email password)"

definition register_shows_success :: "client_error + 'a \<Rightarrow> bool" where
  "register_shows_success answer = (case answer of Inr _ \<Rightarrow> True | Inl _ \<Rightarrow> True)"

section \<open>The pages\<close>

text \<open>The overview, for what \<open>useOrganization\<close> holds.\<close>

datatype overview_panel = Skeleton | Create_organization_card | Organization_card organization

definition overview :: "bool \<Rightarrow> client_error option \<Rightarrow> organization option \<Rightarrow> overview_panel list" where
  "overview isLoading err organization =
     (if isLoading then [Skeleton] else []) @
     (case err of Some (ApiErr status _ _ _) \<Rightarrow> if status = 403 then [Create_organization_card] else [] | _ \<Rightarrow> []) @
     (case organization of Some o' \<Rightarrow> [Organization_card o'] | None \<Rightarrow> [])"

text \<open>The invoice list: \<open>Math.ceil\<close> of a quotient of natural numbers, and the two buttons with
  the state they are disabled in.\<close>

definition totalPages :: "nat \<Rightarrow> nat \<Rightarrow> nat" where
  "totalPages count limit = max 1 ((count + limit - 1) div limit)"

definition previous_page :: "nat \<Rightarrow> nat option" where
  "previous_page page = (if page \<le> 1 then None else Some (max 1 (page - 1)))"

definition next_page :: "nat \<Rightarrow> nat \<Rightarrow> nat option" where
  "next_page total_pages page = (if total_pages \<le> page then None else Some (min total_pages (page + 1)))"

text \<open>The scopes of a new key, and when the form can be sent.\<close>

definition toggleScope :: "api_key_scope \<Rightarrow> api_key_scope list \<Rightarrow> api_key_scope list" where
  "toggleScope scope chosen =
     (if scope \<in> set chosen then filter (\<lambda>s. s \<noteq> scope) chosen else chosen @ [scope])"

definition create_key_disabled :: "bool \<Rightarrow> api_key_scope list \<Rightarrow> bool" where
  "create_key_disabled isPending scopes \<longleftrightarrow> isPending \<or> scopes = []"

text \<open>The deposit address: the one configured for the only network and token, and the button.\<close>

definition WALLET_NETWORK :: string where "WALLET_NETWORK = ''base''"
definition WALLET_TOKEN :: string where "WALLET_TOKEN = ''USDC''"

definition configured_wallet :: "wallet_address list \<Rightarrow> wallet_address option" where
  "configured_wallet ws = find (\<lambda>w. wal_network w = WALLET_NETWORK \<and> wal_token w = WALLET_TOKEN) ws"

definition wallet_dirty :: "wallet_address list \<Rightarrow> string \<Rightarrow> bool" where
  "wallet_dirty ws address \<longleftrightarrow>
     trim address \<noteq> (case configured_wallet ws of Some w \<Rightarrow> wal_address w | None \<Rightarrow> []) \<and>
     0 < length (trim address)"

definition wallet_submit :: "string \<Rightarrow> web_call" where
  "wallet_submit address = Web_set_wallet WALLET_NETWORK WALLET_TOKEN (trim address)"

definition organization_submit :: "string \<Rightarrow> web_call" where
  "organization_submit name = Web_update_organization (trim name)"

definition invite_submit :: "string \<Rightarrow> membership_role \<Rightarrow> web_call" where
  "invite_submit email role = Web_invite_member (trim email) role"

section \<open>Clicking through the invoices\<close>

text \<open>The pages someone sees who clicks \<open>Next\<close> until the button is disabled.\<close>

function pages_by_next :: "nat \<Rightarrow> nat \<Rightarrow> nat list" where
  "pages_by_next total_pages page =
     page # (case next_page total_pages page of None \<Rightarrow> [] | Some p \<Rightarrow> pages_by_next total_pages p)"
  by auto
termination
  by (relation "measure (\<lambda>(total_pages, page). total_pages - page)") (auto simp: next_page_def split: if_splits)

declare pages_by_next.simps [simp del]

lemma pages_by_next_upto: "page \<le> n \<Longrightarrow> pages_by_next n page = [page..<Suc n]"
proof (induction n page rule: pages_by_next.induct)
  case (1 n page)
  show ?case
  proof (cases "n \<le> page")
    case True
    then have "page = n" using 1(2) by simp
    then show ?thesis by (simp add: pages_by_next.simps next_page_def)
  next
    case False
    then have next': "next_page n page = Some (Suc page)" by (simp add: next_page_def)
    then have "pages_by_next n (Suc page) = [Suc page..<Suc n]" using 1(1) False by simp
    then show ?thesis
      using False by (subst pages_by_next.simps) (simp add: next' upt_conv_Cons)
  qed
qed

lemma totalPages_enough: "0 < limit \<Longrightarrow> count \<le> totalPages count limit * limit"
proof -
  assume l: "0 < limit"
  let ?k = "(count + limit - 1) div limit"
  have "(count + limit - 1) mod limit < limit" using l by simp
  moreover have "?k * limit + (count + limit - 1) mod limit = count + limit - 1" by simp
  ultimately have "count \<le> ?k * limit" using l by linarith
  moreover have "?k * limit \<le> totalPages count limit * limit" by (simp add: totalPages_def)
  ultimately show ?thesis by linarith
qed

text \<open>C30. Clicking \<open>Next\<close> from the first page of the invoice list ends, at the last page, and has
  then shown every invoice of the organization exactly once, newest first (invoices of the
  same instant in the order of their insertion).\<close>

theorem next_shows_every_invoice:
  "pages_by_next (totalPages (snd (list_invoices org 1 20 s)) 20) 1 =
     [1..<totalPages (snd (list_invoices org 1 20 s)) 20 + 1] \<and>
   concat (map (\<lambda>page. fst (list_invoices org page 20 s))
     (pages_by_next (totalPages (snd (list_invoices org 1 20 s)) 20) 1)) = newest_first org s"
proof -
  let ?n = "totalPages (snd (list_invoices org 1 20 s)) 20"
  have pages: "pages_by_next ?n 1 = [1..<?n + 1]"
    using pages_by_next_upto [of 1 ?n] by (simp add: totalPages_def)
  have "snd (list_invoices org 1 20 s) \<le> ?n * 20" by (rule totalPages_enough) simp
  then show ?thesis unfolding pages using list_invoices_pages [of 20 org s ?n] by simp
qed

lemma previous_undoes_next: "next_page n page = Some p \<Longrightarrow> 1 \<le> page \<Longrightarrow> previous_page p = Some page"
  by (auto simp: next_page_def previous_page_def split: if_splits)

text \<open>Toggling a scope twice restores the choice as a set, and a choice never repeats a scope.\<close>

lemma toggleScope_twice: "set (toggleScope x (toggleScope x xs)) = set xs"
  by (auto simp: toggleScope_def)

lemma toggleScope_distinct: "distinct xs \<Longrightarrow> distinct (toggleScope x xs)"
  by (simp add: toggleScope_def)

text \<open>The second factor is asked for exactly when the server asked for it: of the messages a login
  is refused with, the two about the second factor, and no other, open the field.\<close>

lemma totp_field_opens:
  "login_needs_totp (ApiErr st cd ''Two-factor authentication code required'' r)"
  "login_needs_totp (ApiErr st cd ''Invalid two-factor code'' r)"
  "\<not> login_needs_totp (ApiErr st cd ''Invalid email or password'' r)"
  "\<not> login_needs_totp (ApiErr st cd ''Please verify your email before logging in'' r)"
  "\<not> login_needs_totp (ApiErr st cd ''Account is suspended'' r)"
  "\<not> login_needs_totp (ApiErr st cd ''Account temporarily locked due to repeated failed logins'' r)"
proof -
  have "contains (to_lower ''Two-factor authentication code required'') ''two-factor''"
    "contains (to_lower ''Invalid two-factor code'') ''two-factor''"
    "\<not> contains (to_lower ''Invalid email or password'') ''two-factor''"
    "\<not> contains (to_lower ''Please verify your email before logging in'') ''two-factor''"
    "\<not> contains (to_lower ''Account is suspended'') ''two-factor''"
    "\<not> contains (to_lower ''Account temporarily locked due to repeated failed logins'') ''two-factor''"
    by code_simp+
  then show "login_needs_totp (ApiErr st cd ''Two-factor authentication code required'' r)"
    "login_needs_totp (ApiErr st cd ''Invalid two-factor code'' r)"
    "\<not> login_needs_totp (ApiErr st cd ''Invalid email or password'' r)"
    "\<not> login_needs_totp (ApiErr st cd ''Please verify your email before logging in'' r)"
    "\<not> login_needs_totp (ApiErr st cd ''Account is suspended'' r)"
    "\<not> login_needs_totp (ApiErr st cd ''Account temporarily locked due to repeated failed logins'' r)"
    unfolding login_needs_totp_def client_error.case by blast+
qed

end
