(* ===== verification/Web_Panels.thy ===== *)
theory Web_Panels
  imports Web_Pages
begin

text \<open>
  The states the pages keep for themselves: the form and the one-time secret of the API key page
  and of the webhook page, the toasts, the navigation, the settings forms, the details of the
  checkout page. Clicks and answers are events; a component that is not on the screen gets no
  clicks, but the request it sent is answered all the same.
\<close>

section \<open>The key page and the webhook page\<close>

text \<open>\<open>ApiKeysPage\<close> and \<open>WebhooksPage\<close> keep the same two states, \<open>formOpen\<close> and the secret just
  created. \<open>pn_pending\<close> is the open form's own request (\<open>isPending\<close>), which a form that is opened
  anew does not know of; \<open>pn_inFlight\<close> counts all creations that were sent and not answered.\<close>

record panels =
  pn_formOpen :: bool
  pn_pending :: bool
  pn_created :: "string option"
  pn_inFlight :: nat

definition fresh_page :: panels where
  "fresh_page = \<lparr>pn_formOpen = False, pn_pending = False, pn_created = None, pn_inFlight = 0\<rparr>"

datatype page_event = Click_open | Click_cancel | Click_submit | Created string | Refused bool | Click_done

definition shows_button :: "panels \<Rightarrow> bool" where
  "shows_button p \<longleftrightarrow> \<not> pn_formOpen p \<and> truthy (pn_created p) = None"

definition shows_form :: "panels \<Rightarrow> bool" where
  "shows_form p \<longleftrightarrow> pn_formOpen p \<and> truthy (pn_created p) = None"

definition shows_banner :: "panels \<Rightarrow> string option" where
  "shows_banner p = truthy (pn_created p)"

definition shows_empty :: "'a list option \<Rightarrow> panels \<Rightarrow> bool" where
  "shows_empty rows p \<longleftrightarrow> rows = Some [] \<and> \<not> pn_formOpen p"

text \<open>The events that can happen to a page, and what they do; \<open>Refused True\<close> is the answer to the
  open form's own request, \<open>Refused False\<close> to one whose form was closed since.\<close>

fun enabled_event :: "panels \<Rightarrow> page_event \<Rightarrow> bool" where
  "enabled_event p Click_open \<longleftrightarrow> shows_button p"
| "enabled_event p Click_cancel \<longleftrightarrow> shows_form p"
| "enabled_event p Click_submit \<longleftrightarrow> shows_form p \<and> \<not> pn_pending p"
| "enabled_event p (Created x) \<longleftrightarrow> 0 < pn_inFlight p \<and> x \<noteq> []"
| "enabled_event p (Refused own) \<longleftrightarrow>
     (if own then pn_pending p else (if pn_pending p then 1 else 0) < pn_inFlight p)"
| "enabled_event p Click_done \<longleftrightarrow> shows_banner p \<noteq> None"

fun page_step :: "page_event \<Rightarrow> panels \<Rightarrow> panels" where
  "page_step Click_open p = p\<lparr>pn_formOpen := True, pn_pending := False\<rparr>"
| "page_step Click_cancel p = p\<lparr>pn_formOpen := False, pn_pending := False\<rparr>"
| "page_step Click_submit p = p\<lparr>pn_pending := True, pn_inFlight := pn_inFlight p + 1\<rparr>"
| "page_step (Created x) p =
     p\<lparr>pn_formOpen := False, pn_pending := False, pn_created := Some x, pn_inFlight := pn_inFlight p - 1\<rparr>"
| "page_step (Refused own) p = p\<lparr>pn_pending := pn_pending p \<and> \<not> own, pn_inFlight := pn_inFlight p - 1\<rparr>"
| "page_step Click_done p = p\<lparr>pn_created := None\<rparr>"

inductive page_run :: "page_event list \<Rightarrow> panels \<Rightarrow> bool" where
  loaded: "page_run [] fresh_page"
| happens: "page_run es p \<Longrightarrow> enabled_event p e \<Longrightarrow> page_run (es @ [e]) (page_step e p)"

inductive_cases page_run_lastE: "page_run (es @ [e]) p"

text \<open>One thing at a time: the button, the form or the secret.\<close>

lemma one_panel:
  "(shows_button p \<or> shows_form p \<or> shows_banner p \<noteq> None) \<and> \<not> (shows_button p \<and> shows_form p) \<and>
   (shows_banner p \<noteq> None \<longrightarrow> \<not> shows_button p \<and> \<not> shows_form p)"
  by (auto simp: shows_button_def shows_form_def shows_banner_def)

text \<open>The form is closed while a secret is shown, and the secret is one that was created.\<close>

lemma banner_closes_form: "page_run es p \<Longrightarrow> shows_banner p = Some x \<Longrightarrow> \<not> pn_formOpen p \<and> Created x \<in> set es"
proof (induction arbitrary: x rule: page_run.induct)
  case loaded
  then show ?case by (simp add: fresh_page_def shows_banner_def truthy_def)
next
  case (happens es p e)
  show ?case
  proof (cases e)
    case (Created y)
    then show ?thesis using happens.prems by (auto simp: shows_banner_def truthy_def split: list.splits)
  next
    case Click_open
    then show ?thesis
      using happens.hyps(2) happens.prems by (simp add: shows_button_def shows_banner_def)
  qed (use happens.IH happens.prems in \<open>auto simp: shows_banner_def truthy_def\<close>)
qed

lemma pending_form: "page_run es p \<Longrightarrow> pn_pending p \<Longrightarrow> pn_formOpen p \<and> 0 < pn_inFlight p"
proof (induction rule: page_run.induct)
  case loaded
  then show ?case by (simp add: fresh_page_def)
next
  case (happens es p e)
  then show ?case by (cases e) (auto simp: shows_form_def split: if_splits)
qed

text \<open>A secret is shown once, and stays until the merchant confirms it, if no second creation
  is under way: nothing but \<open>Done\<close> can happen to the page.\<close>

lemma secret_stays_until_done:
  assumes "page_run es p" and "shows_banner p = Some x" and "pn_inFlight p = 0" and "enabled_event p e"
  shows "e = Click_done"
  using assms(2-4) one_panel [of p] pending_form [OF assms(1)] by (cases e) (auto split: if_splits)

text \<open>With a second creation under way it can be lost: submit, cancel, submit again; the answer
  to the first takes the place of the secret of the second.\<close>

lemma second_answer_hides_secret:
  assumes "x \<noteq> []" and "y \<noteq> []"
  shows "\<exists>p. page_run [Click_open, Click_submit, Click_cancel, Click_open, Click_submit, Created x, Created y] p \<and>
    shows_banner p = Some y"
proof -
  let ?p = "\<lparr>pn_formOpen = False, pn_pending = False, pn_created = Some y, pn_inFlight = 0\<rparr>"
  note step = page_run.happens [where p = "\<lparr>pn_formOpen = a, pn_pending = b, pn_created = c, pn_inFlight = d\<rparr>" for a b c d]
  note on = shows_button_def shows_form_def truthy_def
  have "page_run ([] @ [Click_open]) \<lparr>pn_formOpen = True, pn_pending = False, pn_created = None, pn_inFlight = 0\<rparr>"
    using page_run.happens [OF page_run.loaded, of Click_open] by (simp add: fresh_page_def on)
  from step [OF this, of Click_submit] have "page_run [Click_open, Click_submit]
      \<lparr>pn_formOpen = True, pn_pending = True, pn_created = None, pn_inFlight = 1\<rparr>"
    by (simp add: on)
  from step [OF this, of Click_cancel] have "page_run [Click_open, Click_submit, Click_cancel]
      \<lparr>pn_formOpen = False, pn_pending = False, pn_created = None, pn_inFlight = 1\<rparr>"
    by (simp add: on)
  from step [OF this, of Click_open] have "page_run [Click_open, Click_submit, Click_cancel, Click_open]
      \<lparr>pn_formOpen = True, pn_pending = False, pn_created = None, pn_inFlight = 1\<rparr>"
    by (simp add: on)
  from step [OF this, of Click_submit] have "page_run [Click_open, Click_submit, Click_cancel, Click_open, Click_submit]
      \<lparr>pn_formOpen = True, pn_pending = True, pn_created = None, pn_inFlight = 2\<rparr>"
    by (simp add: on eval_nat_numeral)
  from step [OF this, of "Created x"] assms have
    "page_run [Click_open, Click_submit, Click_cancel, Click_open, Click_submit, Created x]
       \<lparr>pn_formOpen = False, pn_pending = False, pn_created = Some x, pn_inFlight = 1\<rparr>"
    by simp
  from step [OF this, of "Created y"] assms have
    "page_run [Click_open, Click_submit, Click_cancel, Click_open, Click_submit, Created x, Created y] ?p"
    by simp
  then show ?thesis using assms by (auto simp: shows_banner_def truthy_Some)
qed

text \<open>The deliveries of one endpoint at most are open.\<close>

definition toggleDeliveries :: "ident \<Rightarrow> ident option \<Rightarrow> ident option" where
  "toggleDeliveries endpointId expanded = (if expanded = Some endpointId then None else Some endpointId)"

lemma toggleDeliveries_twice: "toggleDeliveries i (toggleDeliveries i (Some i)) = Some i"
  by (simp add: toggleDeliveries_def)

section \<open>Toasts\<close>

datatype toast_text = Translated string | Message string

record toast_item =
  ti_id :: nat
  ti_text :: toast_text
  ti_tone :: badge_tone

record toasts =
  ts_items :: "toast_item list"
  ts_last :: nat

definition push_toast :: "toast_text \<Rightarrow> badge_tone \<Rightarrow> toasts \<Rightarrow> toasts" where
  "push_toast message tone ts =
     (let i = ts_last ts + 1
      in \<lparr>ts_items = ts_items ts @ [\<lparr>ti_id = i, ti_text = message, ti_tone = tone\<rparr>], ts_last = i\<rparr>)"

definition toast_timeout :: "nat \<Rightarrow> toasts \<Rightarrow> toasts" where
  "toast_timeout i ts = ts\<lparr>ts_items := filter (\<lambda>t. ti_id t \<noteq> i) (ts_items ts)\<rparr>"

definition toasts_ok :: "toasts \<Rightarrow> bool" where
  "toasts_ok ts \<longleftrightarrow> distinct (map ti_id (ts_items ts)) \<and> (\<forall>t \<in> set (ts_items ts). ti_id t \<le> ts_last ts)"

text \<open>Identifiers stay distinct, so a timer takes away its own toast and no other.\<close>

lemma toasts_ok_steps:
  "toasts_ok ts \<Longrightarrow> toasts_ok (push_toast message tone ts)"
  "toasts_ok ts \<Longrightarrow> toasts_ok (toast_timeout i ts)"
  by (fastforce simp: toasts_ok_def push_toast_def Let_def toast_timeout_def distinct_map inj_on_def)+

lemma toast_goes_alone:
  assumes "toasts_ok ts"
  shows "toast_timeout (ts_last ts + 1) (push_toast message tone ts) = ts\<lparr>ts_last := ts_last ts + 1\<rparr>"
proof -
  have "filter (\<lambda>t. ti_id t \<noteq> Suc (ts_last ts)) (ts_items ts) = ts_items ts"
    using assms by (fastforce simp: toasts_ok_def intro: filter_True)
  then show ?thesis by (simp add: toast_timeout_def push_toast_def Let_def)
qed

text \<open>What a mutation tells: the success text, the message of an API error, and for every other
  error \<open>fallback\<close>, which the revoke buttons and the settings forms give the success text too.\<close>

definition mutation_toast :: "string \<Rightarrow> client_error option \<Rightarrow> toast_text \<times> badge_tone" where
  "mutation_toast success err =
     (case err of
        None \<Rightarrow> (Translated success, Success)
      | Some (ApiErr _ _ message _) \<Rightarrow> (Message message, Danger)
      | Some _ \<Rightarrow> (Translated success, Danger))"

definition revoke_key_toast :: "client_error option \<Rightarrow> toast_text \<times> badge_tone" where
  "revoke_key_toast = mutation_toast ''revokeSuccess''"

definition revoke_endpoint_toast :: "client_error option \<Rightarrow> toast_text \<times> badge_tone" where
  "revoke_endpoint_toast = mutation_toast ''revokeSuccess''"

definition wallet_toast :: "client_error option \<Rightarrow> toast_text \<times> badge_tone" where
  "wallet_toast = mutation_toast ''walletSaved''"

definition organization_toast :: "client_error option \<Rightarrow> toast_text \<times> badge_tone" where
  "organization_toast = mutation_toast ''saved''"

text \<open>A request that failed without an answer of the API (a broken connection, a proxy's error
  page) is told in the words of success.\<close>

lemma failed_revoke_reads_revoked:
  "fst (revoke_key_toast (Some (RequestFailed x))) = fst (revoke_key_toast None)"
  "fst (revoke_key_toast (Some JsonError)) = fst (revoke_key_toast None)"
  by (simp_all add: revoke_key_toast_def mutation_toast_def)

section \<open>The navigation\<close>

definition NAV_KEYS :: "string list" where
  "NAV_KEYS = [''overview'', ''transactions'', ''invoices'', ''paymentLinks'', ''apiKeys'', ''webhooks'', ''settings'']"

definition NAV_ROUTES :: "(string \<times> string) list" where
  "NAV_ROUTES =
     [(''overview'', ''/dashboard''), (''invoices'', ''/dashboard/invoices''), (''apiKeys'', ''/dashboard/api-keys''),
      (''webhooks'', ''/dashboard/webhooks''), (''settings'', ''/dashboard/settings'')]"

definition nav_rows :: "string \<Rightarrow> (string \<times> string option \<times> bool) list" where
  "nav_rows pathname =
     map (\<lambda>key. let r = map_of NAV_ROUTES key
                in (key, r, case r of Some x \<Rightarrow> isActiveRoute pathname x | None \<Rightarrow> False)) NAV_KEYS"

text \<open>On each page of the dashboard exactly its own entry is marked.\<close>

lemma nav_marks_own_page:
  "\<forall>(key, path) \<in> set NAV_ROUTES. map fst (filter (snd \<circ> snd) (nav_rows path)) = [key]"
  by code_simp

section \<open>The settings\<close>

definition organization_dirty :: "string \<Rightarrow> string \<Rightarrow> bool" where
  "organization_dirty saved name \<longleftrightarrow> trim name \<noteq> saved \<and> 2 \<le> length (trim name)"

datatype organization_section =
    Org_skeleton
  | Org_message toast_text
  | Org_form string bool

text \<open>\<open>OrganizationSection\<close>; the button is disabled unless the last field is \<open>True\<close>.\<close>

definition organization_section ::
    "bool \<Rightarrow> client_error option \<Rightarrow> organization option \<Rightarrow> string \<Rightarrow> bool \<Rightarrow> organization_section" where
  "organization_section isLoading err organization name isPending =
     (if isLoading then Org_skeleton
      else (case (err, organization) of
              (None, Some o') \<Rightarrow> Org_form (org_slug o') (organization_dirty (org_name o') name \<and> \<not> isPending)
            | (Some (ApiErr _ _ message _), _) \<Rightarrow> Org_message (Message message)
            | _ \<Rightarrow> Org_message (Translated ''generic'')))"

definition ROLE_TONE :: "membership_role \<Rightarrow> badge_tone" where
  "ROLE_TONE r = (case r of OWNER \<Rightarrow> Brand | ADMIN \<Rightarrow> Success | MEMBER \<Rightarrow> Neutral)"

lemma trim_trim [simp]: "trim (trim s) = trim s"
proof -
  have outer: "dropWhile P (dropWhile P xs) = dropWhile P xs" for P :: "char \<Rightarrow> bool" and xs
    by (induction xs) auto
  have inner: "dropWhile P (rev (dropWhile P (rev (dropWhile P xs)))) = rev (dropWhile P (rev (dropWhile P xs)))"
    for P :: "char \<Rightarrow> bool" and xs
  proof (cases "dropWhile P xs")
    case (Cons x ys)
    then have "\<not> P x" by (metis hd_dropWhile list.distinct(1) list.sel(1))
    then show ?thesis using Cons by (simp add: dropWhile_append)
  next
    case Nil
    show ?thesis unfolding Nil by simp
  qed
  show ?thesis by (simp add: trim_def inner outer)
qed

text \<open>The buttons that save only work on a change the API would take: a name the organization
  form sends has the length the schema asks for, up to its maximum.\<close>

lemma organization_submit_long_enough:
  "organization_dirty saved name \<Longrightarrow> length (trim name) \<le> 120 \<Longrightarrow> trimmed_between 2 120 (trim name) = Some (trim name)"
  by (simp add: organization_dirty_def trimmed_between_def Let_def)

section \<open>The checkout page\<close>

definition to_upper :: "string \<Rightarrow> string" where
  "to_upper s = map to_upper_char s"

definition networkLabel :: "string \<Rightarrow> string" where
  "networkLabel network =
     (if length network \<le> 4 then to_upper network else to_upper (take 1 network) @ drop 1 network)"

definition checkout_expired :: "checkout_view \<Rightarrow> millis \<Rightarrow> bool" where
  "checkout_expired v now \<longleftrightarrow> secondsUntil (cv_expiresAt v) now \<le> 0"

definition expiry_line :: "checkout_view \<Rightarrow> millis \<Rightarrow> string" where
  "expiry_line v now =
     (if checkout_expired v now then ''Expiring...''
      else ''Expires in '' @ formatCountdown (secondsUntil (cv_expiresAt v) now))"

definition simulate_disabled :: "checkout_view \<Rightarrow> millis \<Rightarrow> bool \<Rightarrow> bool" where
  "simulate_disabled v now pending \<longleftrightarrow> checkout_expired v now \<or> pending"

definition simulate_message :: "client_error + 'a \<Rightarrow> string option" where
  "simulate_message answer =
     (case answer of
        Inr _ \<Rightarrow> None
      | Inl (ApiErr _ _ message _) \<Rightarrow> Some message
      | Inl _ \<Rightarrow> Some ''Could not simulate the payment.'')"

text \<open>\<open>PaidState\<close>: where the browser goes after two and a half seconds.\<close>

definition paid_redirect :: "checkout_view \<Rightarrow> string option" where
  "paid_redirect v = (if cv_status v = ''PAID'' then truthy (cv_successUrl v) else None)"

text \<open>The page calls a link expired from half a second before the server's own time on.\<close>

lemma checkout_expired_iff: "checkout_expired v now \<longleftrightarrow> cv_expiresAt v < now + 500"
  unfolding checkout_expired_def secondsUntil_def by linarith

lemma live_link_open: "now + 500 \<le> cv_expiresAt v \<Longrightarrow> \<not> simulate_disabled v now False"
  by (simp add: simulate_disabled_def checkout_expired_iff)

text \<open>The page sends the browser to the URL the merchant gave, whatever its scheme: the schema
  only asks that it parses.\<close>

lemma redirect_as_given:
  assumes "createInvoiceSchema is_url b = Some input" and "ci_successUrl b = Some u"
    and "terms_of i = terms_of (new_invoice env organizationId input address)" and "inv_status i = Inv_PAID"
  shows "paid_redirect (toCheckoutView d i merchantName) = truthy (Some (trim u))"
proof -
  have "ci_successUrl input = Some (trim u)"
    using assms(1,2) by (auto simp: createInvoiceSchema_def optional_field_def urlSchema_def Let_def split: option.splits if_splits)
  moreover have "inv_successUrl i = inv_successUrl (new_invoice env organizationId input address)"
    using arg_cong [OF assms(3), of inv_successUrl] by (simp add: terms_of_def)
  ultimately show ?thesis
    using assms(4) by (simp add: paid_redirect_def toCheckoutView_def new_invoice_def)
qed

end
