(* ===== verification/Web_Rows.thy ===== *)
theory Web_Rows
  imports Web_Panels
begin

text \<open>
  What the pages of the dashboard show of the rows the API answers, what the buttons of a row and
  the remaining forms send, the member list, the drop-down list, the copy button, and the locales.
\<close>

section \<open>The remaining forms\<close>

definition create_key_submit :: "string \<Rightarrow> api_key_environment \<Rightarrow> api_key_scope list \<Rightarrow> web_call" where
  "create_key_submit name environment scopes = Web_create_api_key name environment scopes"

definition create_endpoint_submit :: "string \<Rightarrow> web_call" where
  "create_endpoint_submit url = Web_create_endpoint url"

definition create_organization_submit :: "string \<Rightarrow> web_call" where
  "create_organization_submit name = Web_create_organization (trim name)"

text \<open>The text under a form whose request failed: the message of an API error, else a fallback.\<close>

definition form_error :: "toast_text \<Rightarrow> client_error option \<Rightarrow> toast_text option" where
  "form_error fallback err =
     map_option (\<lambda>e. case e of ApiErr _ _ message _ \<Rightarrow> Message message | _ \<Rightarrow> fallback) err"

definition create_key_error :: "client_error option \<Rightarrow> toast_text option" where
  "create_key_error = form_error (Message ''Something went wrong.'')"

definition create_endpoint_error :: "client_error option \<Rightarrow> toast_text option" where
  "create_endpoint_error = form_error (Message ''Something went wrong.'')"

definition create_organization_error :: "client_error option \<Rightarrow> toast_text option" where
  "create_organization_error = form_error (Translated ''createTitle'')"

definition invite_error :: "client_error option \<Rightarrow> toast_text option" where
  "invite_error = form_error (Translated ''inviteTitle'')"

definition wallet_error :: "client_error option \<Rightarrow> toast_text option" where
  "wallet_error = form_error (Translated ''walletSaved'')"

lemmas form_error_defs = create_key_error_def create_endpoint_error_def create_organization_error_def
  invite_error_def wallet_error_def form_error_def

section \<open>The rows\<close>

text \<open>\<open>ApiKeyRow\<close>; a date is shown as its instant. The button is there unless the key is revoked.\<close>

record key_row =
  kr_name :: string
  kr_prefix :: string
  kr_tone :: badge_tone
  kr_environment :: string
  kr_lastUsed :: "millis option"
  kr_revocable :: bool

definition ApiKeyRow :: "api_key_view \<Rightarrow> key_row" where
  "ApiKeyRow v =
     \<lparr>kr_name = kv_name v, kr_prefix = kv_keyPrefix v @ ''...'',
      kr_tone = (if kv_environment v = ''live'' then Success else Neutral),
      kr_environment = kv_environment v, kr_lastUsed = kv_lastUsedAt v,
      kr_revocable = (kv_revokedAt v = None)\<rparr>"

text \<open>A click on a revoke button: nothing while a request is under way, or if the question is
  answered with no.\<close>

definition revoke_key_click :: "bool \<Rightarrow> bool \<Rightarrow> api_key_view \<Rightarrow> web_call option" where
  "revoke_key_click isPending confirmed v =
     (if kr_revocable (ApiKeyRow v) \<and> \<not> isPending \<and> confirmed then Some (Web_revoke_api_key (kv_id v)) else None)"

text \<open>\<open>EndpointRow\<close> and, when it is expanded, its \<open>DeliveriesList\<close>.\<close>

record endpoint_row =
  er_url :: string
  er_created :: millis
  er_revoked_badge :: bool
  er_toggle :: string
  er_revocable :: bool
  er_deliveries :: bool

definition EndpointRow :: "ident option \<Rightarrow> endpoint_view \<Rightarrow> endpoint_row" where
  "EndpointRow expandedId v =
     \<lparr>er_url = ev_url v, er_created = ev_createdAt v, er_revoked_badge = (\<not> ev_enabled v),
      er_toggle = (if expandedId = Some (ev_id v) then ''hideDeliveries'' else ''viewDeliveries''),
      er_revocable = ev_enabled v, er_deliveries = (expandedId = Some (ev_id v))\<rparr>"

definition revoke_endpoint_click :: "bool \<Rightarrow> bool \<Rightarrow> endpoint_view \<Rightarrow> web_call option" where
  "revoke_endpoint_click isPending confirmed v =
     (if ev_enabled v \<and> \<not> isPending \<and> confirmed then Some (Web_revoke_endpoint (ev_id v)) else None)"

record delivery_row =
  dr_eventType :: string
  dr_attempt :: int
  dr_tone :: badge_tone
  dr_status :: string
  dr_http :: "int option"
  dr_delivered :: "millis option"

datatype deliveries_part = Deliveries_loading | Deliveries_empty | Deliveries_rows "delivery_row list"

definition delivery_row_of :: "delivery_view \<Rightarrow> delivery_row" where
  "delivery_row_of d =
     \<lparr>dr_eventType = dv_eventType d, dr_attempt = dv_attempt d, dr_tone = toneForStatus (dv_status d),
      dr_status = dv_status d, dr_http = dv_statusCode d, dr_delivered = dv_deliveredAt d\<rparr>"

definition DeliveriesList :: "bool \<Rightarrow> delivery_view list option \<Rightarrow> deliveries_part list" where
  "DeliveriesList isLoading ds =
     (if isLoading then [Deliveries_loading] else []) @
     (case ds of
        None \<Rightarrow> []
      | Some [] \<Rightarrow> [Deliveries_empty]
      | Some xs \<Rightarrow> [Deliveries_rows (map delivery_row_of xs)])"

text \<open>\<open>InvoiceRow\<close>: the identifier, the amount with its token, the tone and the text of the status,
  and the link the copy button copies.\<close>

record invoice_row =
  ir_id :: ident
  ir_created :: millis
  ir_amount :: string
  ir_tone :: badge_tone
  ir_status :: string
  ir_link :: string

definition InvoiceRow :: "invoice_view \<Rightarrow> invoice_row" where
  "InvoiceRow v =
     \<lparr>ir_id = iv_id v, ir_created = iv_createdAt v, ir_amount = iv_amount v @ '' '' @ iv_token v,
      ir_tone = toneForStatus (iv_status v), ir_status = ''status_'' @ iv_status v, ir_link = iv_checkoutUrl v\<rparr>"

text \<open>The member list, and the form under it that a successful invitation closes.\<close>

record member_row =
  mr_initial :: "string option"
  mr_email :: string
  mr_tone :: badge_tone
  mr_role :: string

definition member_row_of :: "membership_role \<Rightarrow> string \<Rightarrow> member_row" where
  "member_row_of role email =
     \<lparr>mr_initial = (case email of [] \<Rightarrow> None | c # _ \<Rightarrow> Some (to_upper [c])), mr_email = email,
      mr_tone = ROLE_TONE role, mr_role = ''role_'' @ role_name role\<rparr>"

datatype invite_event = Click_invite | Click_invite_cancel | Invited | Invite_refused

fun invite_step :: "invite_event \<Rightarrow> bool \<Rightarrow> bool" where
  "invite_step Click_invite formOpen = True"
| "invite_step Click_invite_cancel formOpen = False"
| "invite_step Invited formOpen = False"
| "invite_step Invite_refused formOpen = formOpen"

section \<open>Small components\<close>

text \<open>The drop-down list: open or not, and the value it was given; what a click or a key does to the
  list, and what it reports to \<open>onChange\<close>.\<close>

datatype select_event = Click_button | Pointer_outside | Pointer_inside | Key_down string | Choose nat

fun select_step :: "string list \<Rightarrow> select_event \<Rightarrow> bool \<Rightarrow> bool \<times> string option" where
  "select_step opts Click_button is_open = (\<not> is_open, None)"
| "select_step opts Pointer_outside is_open = (False, None)"
| "select_step opts Pointer_inside is_open = (is_open, None)"
| "select_step opts (Key_down key) is_open = (is_open \<and> key \<noteq> ''Escape'', None)"
| "select_step opts (Choose n) is_open =
     (if is_open \<and> n < length opts then (False, Some (opts ! n)) else (is_open, None))"

definition select_label :: "(string \<times> string) list \<Rightarrow> string \<Rightarrow> string" where
  "select_label opts v = (case find (\<lambda>p. fst p = v) opts of Some p \<Rightarrow> snd p | None \<Rightarrow> [])"

text \<open>The copy button says \<open>Copied\<close> for a second and a half: the state is when it stops.\<close>

definition on_copied :: "millis \<Rightarrow> millis option \<Rightarrow> millis option" where
  "on_copied now copied = (case copied of Some t \<Rightarrow> Some t | None \<Rightarrow> Some (now + 1500))"

definition copy_timer :: "millis \<Rightarrow> millis option \<Rightarrow> millis option" where
  "copy_timer now copied = (case copied of Some t \<Rightarrow> if t \<le> now then None else Some t | None \<Rightarrow> None)"

text \<open>The locales: which paths the middleware handles, the locale of a request, and the switcher.\<close>

definition locales :: "string list" where "locales = [''en'', ''ru'']"
definition defaultLocale :: string where "defaultLocale = ''en''"

definition localized_path :: "string \<Rightarrow> bool" where
  "localized_path path \<longleftrightarrow>
     starts_with path ''/'' \<and>
     (let p = drop 1 path
      in list_all (\<lambda>x. \<not> starts_with p x) [''api'', ''trpc'', ''_next'', ''_vercel'', ''pay''] \<and> CHR ''.'' \<notin> set p)"

definition request_locale :: "string option \<Rightarrow> string" where
  "request_locale requested =
     (case requested of Some l \<Rightarrow> if l \<in> set locales then l else defaultLocale | None \<Rightarrow> defaultLocale)"

fun index_from :: "nat \<Rightarrow> 'a \<Rightarrow> 'a list \<Rightarrow> int" where
  "index_from n x [] = -1"
| "index_from n x (y # ys) = (if y = x then int n else index_from (Suc n) x ys)"

definition activeIndex :: "string \<Rightarrow> int" where
  "activeIndex locale = max 0 (index_from 0 locale locales)"

definition LOCALE_LABELS :: "string \<rightharpoonup> string" where
  "LOCALE_LABELS = [''en'' \<mapsto> ''EN'', ''ru'' \<mapsto> ''RU'']"

definition locale_buttons :: "string \<Rightarrow> (string \<times> string \<times> bool) list" where
  "locale_buttons locale =
     map (\<lambda>l. (l, case LOCALE_LABELS l of Some x \<Rightarrow> x | None \<Rightarrow> l, l = locale)) locales"

section \<open>What the rows promise\<close>

text \<open>Every key of the organization that still works can be revoked from its page, and a key that is
  revoked shows no button.\<close>

lemma working_key_can_be_revoked:
  assumes "k \<in> set (apiKeys s)" and "key_organizationId k = org" and "key_usable now k"
  shows "\<exists>v \<in> set (map toApiKeyView (list_api_keys org s)).
    revoke_key_click False True v = Some (Web_revoke_api_key (key_id k))"
  using assms
  by (intro bexI [of _ "toApiKeyView k"])
    (auto simp: revoke_key_click_def ApiKeyRow_def toApiKeyView_def key_usable_def list_api_keys_def)

lemma revoked_key_has_no_button:
  "key_revokedAt k \<noteq> None \<Longrightarrow> revoke_key_click isPending confirmed (toApiKeyView k) = None"
  by (simp add: revoke_key_click_def ApiKeyRow_def toApiKeyView_def)

lemma enabled_endpoint_can_be_revoked:
  assumes "p \<in> set (endpoints s)" and "we_organizationId p = org" and "we_enabled p"
  shows "\<exists>v \<in> set (map toWebhookEndpointView (list_endpoints org s)).
    revoke_endpoint_click False True v = Some (Web_revoke_endpoint (we_id p))"
  using assms
  by (intro bexI [of _ "toWebhookEndpointView p"])
    (auto simp: revoke_endpoint_click_def toWebhookEndpointView_def list_endpoints_def)

text \<open>No click revokes anything without the question answered with yes.\<close>

lemma revoking_asks:
  "revoke_key_click isPending False v = None" "revoke_endpoint_click isPending False v' = None"
  by (simp_all add: revoke_key_click_def revoke_endpoint_click_def)

text \<open>Of the endpoints, the deliveries of one at most are open, and toggling the row of another one
  opens those.\<close>

lemma one_expanded:
  "er_deliveries (EndpointRow expandedId v) \<Longrightarrow> er_deliveries (EndpointRow expandedId v') \<Longrightarrow> ev_id v = ev_id v'"
  "er_deliveries (EndpointRow (toggleDeliveries (ev_id v) expandedId) v) \<longleftrightarrow> \<not> er_deliveries (EndpointRow expandedId v)"
  by (auto simp: EndpointRow_def toggleDeliveries_def)

text \<open>The list only reports values it offers, and closes when it does.\<close>

lemma select_reports_option:
  "snd (select_step opts e is_open) = Some v \<Longrightarrow> v \<in> set opts \<and> is_open \<and> \<not> fst (select_step opts e is_open)"
  by (cases e) (auto split: if_splits)

text \<open>However often it is clicked meanwhile, the button says \<open>Copied\<close> for a second and a half after
  the first click, and no longer.\<close>

lemma copied_ends:
  "copy_timer now (on_copied t2 (on_copied t1 None)) = (if t1 + 1500 \<le> now then None else Some (t1 + 1500))"
  by (simp add: on_copied_def copy_timer_def)

section \<open>Locales\<close>

text \<open>Every page of the application is handled by the locale middleware, in every locale and
  without one, and the checkout page never is.\<close>

lemma pages_localized:
  "\<forall>l \<in> set ([] # map ((#) CHR ''/'') locales). \<forall>p \<in> set ([''/login'', ''/register''] @ map snd NAV_ROUTES).
     localized_path (l @ p)"
  by code_simp

lemma checkout_not_localized: "\<not> localized_path (''/pay/'' @ i)"
  by (simp add: localized_path_def starts_with_def)

lemma request_locale_known: "request_locale requested \<in> set locales"
  by (simp add: request_locale_def defaultLocale_def locales_def split: option.splits)

text \<open>The switcher marks exactly the current locale, and its slider stands under it.\<close>

lemma switcher_marks_locale:
  assumes "l \<in> set locales"
  shows "locales ! nat (activeIndex l) = l" "map fst (filter (snd \<circ> snd) (locale_buttons l)) = [l]"
  using assms by (auto simp: locales_def activeIndex_def locale_buttons_def)

end
