(* ===== verification/Routes.thy ===== *)
theory Routes
  imports Http_Api
begin

text \<open>
  From the wire to a call: the routes the controllers' decorators declare, one function per
  controller, on the method, the segments of the path, the query and the JSON body of a
  request. \<open>None\<close> is a request that no route takes, or whose body does not have the fields its
  schema reads with their types: the framework or the schema answers those. A segment of the
  path is taken as it stands (no identifier needs percent-encoding). A merchant's invoice body
  is read back as it was written, and no request is taken by two controllers.
\<close>

section \<open>Reading a request\<close>

definition url_path :: "string \<Rightarrow> string" where
  "url_path url = takeWhile (\<lambda>c. c \<noteq> CHR ''?'') url"

definition url_query :: "string \<Rightarrow> string" where
  "url_query url = drop 1 (dropWhile (\<lambda>c. c \<noteq> CHR ''?'') url)"

definition path_segments :: "string \<Rightarrow> string list" where
  "path_segments url = split_char (CHR ''/'') (url_path url)"

definition query_field :: "string \<Rightarrow> string \<Rightarrow> string option" where
  "query_field url name =
     map_of (map (\<lambda>p. (takeWhile (\<lambda>c. c \<noteq> CHR ''='') p, drop 1 (dropWhile (\<lambda>c. c \<noteq> CHR ''='') p)))
       (split_char (CHR ''&'') (url_query url))) name"

text \<open>\<open>z.coerce.number().int()\<close> on a query field; left out is left out.\<close>

definition query_int :: "string \<Rightarrow> string \<Rightarrow> int option option" where
  "query_int url name =
     (case query_field url name of
        None \<Rightarrow> Some None
      | Some s \<Rightarrow>
          (case js_Number s of
             Some r \<Rightarrow> if r = of_int \<lfloor>r\<rfloor> then Some (Some \<lfloor>r\<rfloor>) else None
           | None \<Rightarrow> None))"

text \<open>A body: what \<open>JSON.parse\<close> makes of any text. \<open>wire_of\<close> is the body that reading back a value
  the web application wrote gives.\<close>

datatype wire = W_obj "(string \<times> wire) list" | W_arr "wire list" | W_scalar json_scalar

fun wire_of :: "json \<Rightarrow> wire" where
  "wire_of (JObj kvs) = W_obj (map (\<lambda>(k, v). (k, wire_of v)) kvs)"
| "wire_of (JArr xs) = W_arr (map wire_of xs)"
| "wire_of (JStr s) = W_scalar (JString s)"
| "wire_of (JInt n) = W_scalar (JNumber (of_int n))"
| "wire_of JNil = W_scalar JNull"

definition json_field :: "string \<Rightarrow> wire option \<Rightarrow> wire option" where
  "json_field name b = (case b of Some (W_obj kvs) \<Rightarrow> map_of kvs name | _ \<Rightarrow> None)"

definition string_field :: "string \<Rightarrow> wire option \<Rightarrow> string option" where
  "string_field name b = (case json_field name b of Some (W_scalar (JString s)) \<Rightarrow> Some s | _ \<Rightarrow> None)"

definition optional_string :: "string \<Rightarrow> wire option \<Rightarrow> string option option" where
  "optional_string name b =
     (case json_field name b of None \<Rightarrow> Some None | Some (W_scalar (JString s)) \<Rightarrow> Some (Some s) | _ \<Rightarrow> None)"

text \<open>\<open>z.enum\<close>.\<close>

definition member_named :: "('a \<Rightarrow> string) \<Rightarrow> 'a list \<Rightarrow> string \<Rightarrow> 'a option" where
  "member_named name_of xs s = find (\<lambda>x. name_of x = s) xs"

definition API_KEY_SCOPES :: "api_key_scope list" where
  "API_KEY_SCOPES =
     [Invoices_read, Invoices_write, Payments_read, PaymentLinks_read, PaymentLinks_write,
      Webhooks_read, Webhooks_write]"

definition API_KEY_ENVIRONMENTS :: "api_key_environment list" where
  "API_KEY_ENVIRONMENTS = [Env_test, Env_live]"

definition MEMBERSHIP_ROLES :: "membership_role list" where
  "MEMBERSHIP_ROLES = [OWNER, ADMIN, MEMBER]"

fun all_some :: "'a option list \<Rightarrow> 'a list option" where
  "all_some [] = Some []"
| "all_some (None # xs) = None"
| "all_some (Some x # xs) = map_option ((#) x) (all_some xs)"

definition scopes_field :: "string \<Rightarrow> wire option \<Rightarrow> api_key_scope list option" where
  "scopes_field name b =
     (case json_field name b of
        Some (W_arr xs) \<Rightarrow>
          all_some (map (\<lambda>x. case x of W_scalar (JString s) \<Rightarrow> member_named scope_name API_KEY_SCOPES s | _ \<Rightarrow> None) xs)
      | _ \<Rightarrow> None)"

definition role_field :: "string \<Rightarrow> wire option \<Rightarrow> membership_role option option" where
  "role_field name b =
     (case optional_string name b of
        Some None \<Rightarrow> Some None
      | Some (Some s) \<Rightarrow> map_option Some (member_named role_name MEMBERSHIP_ROLES s)
      | None \<Rightarrow> None)"

text \<open>Merchant metadata: an object of primitive values, or left out.\<close>

definition scalar_of :: "wire \<Rightarrow> json_scalar option" where
  "scalar_of v = (case v of W_scalar x \<Rightarrow> Some x | _ \<Rightarrow> None)"

definition metadata_field :: "string \<Rightarrow> wire option \<Rightarrow> (string \<times> json_scalar) list option option" where
  "metadata_field name b =
     (case json_field name b of
        None \<Rightarrow> Some None
      | Some (W_obj kvs) \<Rightarrow> map_option Some (all_some (map (\<lambda>(k, v). map_option (Pair k) (scalar_of v)) kvs))
      | _ \<Rightarrow> None)"

definition invoice_fields :: "wire option \<Rightarrow> create_invoice_input option" where
  "invoice_fields b =
     (case (optional_string ''externalId'' b, optional_string ''description'' b, string_field ''amount'' b,
            string_field ''currency'' b, string_field ''token'' b, string_field ''network'' b,
            optional_string ''successUrl'' b, optional_string ''cancelUrl'' b, metadata_field ''metadata'' b) of
        (Some externalId, Some description, Some amount, Some currency, Some token, Some network,
         Some successUrl, Some cancelUrl, Some metadata) \<Rightarrow>
          Some \<lparr>ci_externalId = externalId, ci_description = description, ci_amount = amount,
                ci_currency = currency, ci_token = token, ci_network = network,
                ci_successUrl = successUrl, ci_cancelUrl = cancelUrl, ci_metadata = metadata\<rparr>
      | _ \<Rightarrow> None)"

section \<open>The controllers\<close>

definition auth_routes :: "string \<Rightarrow> string list \<Rightarrow> wire option \<Rightarrow> call option" where
  "auth_routes m p b =
     (case p of
        [r, v, c, a] \<Rightarrow>
          if [r, v, c] = [[], ''v1'', ''auth''] \<and> m = ''POST'' then
            if a = ''register'' then
              (case (string_field ''email'' b, string_field ''password'' b) of
                 (Some e, Some w) \<Rightarrow> Some (Auth_register e w) | _ \<Rightarrow> None)
            else if a = ''login'' then
              (case (string_field ''email'' b, string_field ''password'' b, optional_string ''totpCode'' b) of
                 (Some e, Some w, Some t) \<Rightarrow>
                   Some (Auth_login \<lparr>li_email = e, li_password = w, li_totpCode = t\<rparr>)
               | _ \<Rightarrow> None)
            else if a = ''refresh'' then Some Auth_refresh
            else if a = ''logout'' then Some Auth_logout
            else if a = ''verify-email'' then map_option Auth_verify_email (string_field ''token'' b)
            else None
          else None
      | [r, v, c, d, a] \<Rightarrow>
          if [r, v, c, d] = [[], ''v1'', ''auth'', ''2fa''] \<and> m = ''POST'' then
            if a = ''enable'' then Some Auth_enable_two_factor
            else if a = ''verify'' then map_option Auth_verify_two_factor (string_field ''code'' b)
            else None
          else None
      | _ \<Rightarrow> None)"

definition organization_routes :: "string \<Rightarrow> string list \<Rightarrow> wire option \<Rightarrow> call option" where
  "organization_routes m p b =
     (if p = [[], ''v1'', ''organizations''] then
        if m = ''POST'' then map_option Org_create (string_field ''name'' b) else None
      else if p = [[], ''v1'', ''organizations'', ''me''] then
        if m = ''GET'' then Some Org_get_mine
        else if m = ''PATCH'' then
          (case (optional_string ''name'' b, optional_string ''slug'' b) of
             (Some n, Some g) \<Rightarrow> Some (Org_update_mine n g) | _ \<Rightarrow> None)
        else None
      else if p = [[], ''v1'', ''organizations'', ''me'', ''members''] then
        if m = ''GET'' then Some Org_list_members
        else if m = ''POST'' then
          (case (string_field ''email'' b, role_field ''role'' b) of
             (Some e, Some r) \<Rightarrow> Some (Org_invite_member e r) | _ \<Rightarrow> None)
        else None
      else None)"

definition api_key_routes :: "string \<Rightarrow> string list \<Rightarrow> wire option \<Rightarrow> call option" where
  "api_key_routes m p b =
     (case p of
        [r, v, c] \<Rightarrow>
          if [r, v, c] = [[], ''v1'', ''api-keys''] then
            if m = ''GET'' then Some Keys_list
            else if m = ''POST'' then
              (case (string_field ''name'' b,
                     Option.bind (string_field ''environment'' b) (member_named environment_name API_KEY_ENVIRONMENTS),
                     scopes_field ''scopes'' b) of
                 (Some n, Some e, Some xs) \<Rightarrow> Some (Keys_create n e xs) | _ \<Rightarrow> None)
            else None
          else None
      | [r, v, c, i] \<Rightarrow>
          if [r, v, c] = [[], ''v1'', ''api-keys''] \<and> m = ''DELETE'' then Some (Keys_revoke i) else None
      | _ \<Rightarrow> None)"

definition checkout_routes :: "string \<Rightarrow> string list \<Rightarrow> wire option \<Rightarrow> call option" where
  "checkout_routes m p b =
     (case p of
        [r, v, c, i] \<Rightarrow>
          if [r, v, c] = [[], ''v1'', ''checkout''] \<and> m = ''GET'' then Some (Checkout_get i) else None
      | [r, v, c, i, a] \<Rightarrow>
          if [r, v, c, a] = [[], ''v1'', ''checkout'', ''simulate-payment''] \<and> m = ''POST''
          then map_option (Checkout_simulate i) (optional_string ''amount'' b) else None
      | _ \<Rightarrow> None)"

definition wallet_routes :: "string \<Rightarrow> string list \<Rightarrow> wire option \<Rightarrow> call option" where
  "wallet_routes m p b =
     (if p = [[], ''v1'', ''dashboard'', ''wallet-addresses''] then
        if m = ''GET'' then Some Wallets_list
        else if m = ''PUT'' then
          (case (string_field ''network'' b, string_field ''token'' b, string_field ''address'' b) of
             (Some n, Some t, Some a) \<Rightarrow> Some (Wallets_set n t a) | _ \<Rightarrow> None)
        else None
      else None)"

definition invoice_routes :: "string \<Rightarrow> string list \<Rightarrow> string \<Rightarrow> call option" where
  "invoice_routes m p url =
     (case p of
        [r, v, d, c] \<Rightarrow>
          if [r, v, d, c] = [[], ''v1'', ''dashboard'', ''invoices''] \<and> m = ''GET'' then
            (case (query_int url ''page'', query_int url ''limit'') of
               (Some page, Some limit) \<Rightarrow> Some (Dashboard_invoices_list page limit) | _ \<Rightarrow> None)
          else None
      | [r, v, d, c, i] \<Rightarrow>
          if [r, v, d, c] = [[], ''v1'', ''dashboard'', ''invoices''] \<and> m = ''GET''
          then Some (Dashboard_invoices_get i) else None
      | _ \<Rightarrow> None)"

definition webhook_routes :: "string \<Rightarrow> string list \<Rightarrow> wire option \<Rightarrow> call option" where
  "webhook_routes m p b =
     (case p of
        [r, v, d, c] \<Rightarrow>
          if [r, v, d, c] = [[], ''v1'', ''dashboard'', ''webhook-endpoints''] then
            if m = ''GET'' then Some Dashboard_webhooks_list
            else if m = ''POST'' then map_option Dashboard_webhooks_create (string_field ''url'' b)
            else None
          else None
      | [r, v, d, c, i] \<Rightarrow>
          if [r, v, d, c] = [[], ''v1'', ''dashboard'', ''webhook-endpoints''] \<and> m = ''DELETE''
          then Some (Dashboard_webhooks_revoke i) else None
      | [r, v, d, c, i, a] \<Rightarrow>
          if [r, v, d, c, a] = [[], ''v1'', ''dashboard'', ''webhook-endpoints'', ''deliveries''] \<and> m = ''GET''
          then Some (Dashboard_webhooks_deliveries i) else None
      | _ \<Rightarrow> None)"

text \<open>The merchant's API. Invoices and simulated payments share a prefix.\<close>

definition merchant_invoice_routes :: "string \<Rightarrow> string list \<Rightarrow> wire option \<Rightarrow> call option" where
  "merchant_invoice_routes m p b =
     (case p of
        [r, v, c] \<Rightarrow>
          if [r, v, c] = [[], ''v1'', ''invoices''] \<and> m = ''POST''
          then map_option Invoices_create (invoice_fields b) else None
      | [r, v, c, i] \<Rightarrow>
          if [r, v, c] = [[], ''v1'', ''invoices''] \<and> m = ''GET'' then Some (Invoices_get i) else None
      | _ \<Rightarrow> None)"

definition payment_routes :: "string \<Rightarrow> string list \<Rightarrow> wire option \<Rightarrow> call option" where
  "payment_routes m p b =
     (case p of
        [r, v, c, i, a] \<Rightarrow>
          if [r, v, c, a] = [[], ''v1'', ''invoices'', ''simulate-payment''] \<and> m = ''POST''
          then map_option (Payments_simulate i) (optional_string ''amount'' b) else None
      | _ \<Rightarrow> None)"

definition endpoint_routes :: "string \<Rightarrow> string list \<Rightarrow> wire option \<Rightarrow> call option" where
  "endpoint_routes m p b =
     (case p of
        [r, v, c] \<Rightarrow>
          if [r, v, c] = [[], ''v1'', ''webhook-endpoints''] then
            if m = ''GET'' then Some Endpoints_list
            else if m = ''POST'' then map_option Endpoints_create (string_field ''url'' b)
            else None
          else None
      | [r, v, c, i] \<Rightarrow>
          if [r, v, c] = [[], ''v1'', ''webhook-endpoints''] \<and> m = ''DELETE'' then Some (Endpoints_revoke i) else None
      | _ \<Rightarrow> None)"

definition health_routes :: "string \<Rightarrow> string list \<Rightarrow> call option" where
  "health_routes m p = (if p = [[], ''v1'', ''health''] \<and> m = ''GET'' then Some Health_check else None)"

section \<open>The routes of the API\<close>

definition controllers :: "string \<Rightarrow> string \<Rightarrow> wire option \<Rightarrow> call option list" where
  "controllers m url b =
     (let p = path_segments url
      in [auth_routes m p b, organization_routes m p b, api_key_routes m p b, checkout_routes m p b,
          wallet_routes m p b, invoice_routes m p url, webhook_routes m p b, merchant_invoice_routes m p b,
          payment_routes m p b, endpoint_routes m p b, health_routes m p])"

definition first_some :: "'a option list \<Rightarrow> 'a option" where
  "first_some xs = (case dropWhile (\<lambda>x. x = None) xs of [] \<Rightarrow> None | x # _ \<Rightarrow> x)"

definition route :: "string \<Rightarrow> string \<Rightarrow> wire option \<Rightarrow> call option" where
  "route m url b = first_some (controllers m url b)"

lemmas route_defs = route_def controllers_def auth_routes_def organization_routes_def api_key_routes_def
  checkout_routes_def wallet_routes_def invoice_routes_def webhook_routes_def merchant_invoice_routes_def
  payment_routes_def endpoint_routes_def health_routes_def first_some_def

lemmas field_defs = string_field_def optional_string_def json_field_def scopes_field_def role_field_def

section \<open>Reading what was written\<close>

lemma path_segments_plain:
  assumes "CHR ''?'' \<notin> set url"
  shows "path_segments url = split_char (CHR ''/'') url"
proof -
  have "takeWhile (\<lambda>c. c \<noteq> CHR ''?'') url = url"
    using assms by (auto simp del: takeWhile_neq_rev simp: takeWhile_eq_all_conv)
  then show ?thesis unfolding path_segments_def url_path_def by (rule arg_cong)
qed

lemma member_named_self:
  assumes "inj name_of" and "x \<in> set xs"
  shows "member_named name_of xs (name_of x) = Some x"
proof -
  have "find (\<lambda>y. name_of y = name_of x) xs = find (\<lambda>y. y = x) xs"
    using assms(1) by (auto simp: inj_eq intro: find_cong)
  also have "\<dots> = Some x" using assms(2) by (induction xs) auto
  finally show ?thesis by (simp add: member_named_def)
qed

lemma names_inj: "inj scope_name" "inj environment_name" "inj role_name"
proof -
  show "inj scope_name"
  proof (rule injI)
    fix x y :: api_key_scope
    assume "scope_name x = scope_name y"
    then show "x = y" by (cases x; cases y) (simp_all add: scope_name_def)
  qed
  show "inj environment_name" by (rule injI, rename_tac x y, case_tac x; case_tac y) (simp_all add: environment_name_def)
  show "inj role_name" by (rule injI, rename_tac x y, case_tac x; case_tac y) (simp_all add: role_name_def)
qed

lemma scopes_read_back: "all_some (map (\<lambda>x. member_named scope_name API_KEY_SCOPES (scope_name x)) xs) = Some xs"
proof -
  have "x \<in> set API_KEY_SCOPES" for x by (cases x) (simp_all add: API_KEY_SCOPES_def)
  then show ?thesis by (induction xs) (simp_all add: member_named_self [OF names_inj(1)])
qed

lemma roles_read_back: "member_named role_name MEMBERSHIP_ROLES (role_name r) = Some r"
  by (rule member_named_self [OF names_inj(3)]) (cases r; simp add: MEMBERSHIP_ROLES_def)

lemma environments_read_back: "member_named environment_name API_KEY_ENVIRONMENTS (environment_name e) = Some e"
  by (rule member_named_self [OF names_inj(2)]) (cases e; simp add: API_KEY_ENVIRONMENTS_def)

text \<open>A body written field by field is the input it was written from.\<close>

definition written :: "(string \<times> wire option) list \<Rightarrow> wire option" where
  "written fs = Some (W_obj (concat (map (\<lambda>(k, v). case v of None \<Rightarrow> [] | Some x \<Rightarrow> [(k, x)]) fs)))"

definition text_value :: "string \<Rightarrow> wire" where
  "text_value s = W_scalar (JString s)"

definition invoice_members :: "create_invoice_input \<Rightarrow> (string \<times> wire option) list" where
  "invoice_members ci =
     [(''externalId'', map_option text_value (ci_externalId ci)),
      (''description'', map_option text_value (ci_description ci)),
      (''amount'', Some (text_value (ci_amount ci))), (''currency'', Some (text_value (ci_currency ci))),
      (''token'', Some (text_value (ci_token ci))), (''network'', Some (text_value (ci_network ci))),
      (''successUrl'', map_option text_value (ci_successUrl ci)),
      (''cancelUrl'', map_option text_value (ci_cancelUrl ci)),
      (''metadata'', map_option (\<lambda>m. W_obj (map (\<lambda>(k, v). (k, W_scalar v)) m)) (ci_metadata ci))]"

lemma left_out:
  "k \<notin> fst ` set fs \<Longrightarrow> map_of (concat (map (\<lambda>(k, v). case v of None \<Rightarrow> [] | Some x \<Rightarrow> [(k, x)]) fs)) k = None"
  by (induction fs) (auto split: option.split)

lemma json_field_written:
  assumes "distinct (map fst fs)"
  shows "json_field k (written fs) = Option.bind (map_of fs k) id"
  using assms
proof (induction fs)
  case (Cons f fs)
  then show ?case
    using left_out [of "fst f" fs] by (cases f) (auto simp: written_def json_field_def split: option.split)
qed (simp add: written_def json_field_def)

lemma metadata_read_back:
  "all_some (map ((\<lambda>(k, v). map_option (Pair k) (scalar_of v)) \<circ> (\<lambda>(k, v). (k, W_scalar v))) kvs) = Some kvs"
  by (induction kvs) (auto simp: scalar_of_def)

lemma invoice_body_read_back: "invoice_fields (written (invoice_members ci)) = Some ci"
proof -
  have "distinct (map fst (invoice_members ci))" by (simp add: invoice_members_def)
  note field = json_field_written [OF this]
  have texts: "string_field n (written (invoice_members ci)) = Some s" if "map_of (invoice_members ci) n = Some (Some (text_value s))" for n s
    using that by (simp add: string_field_def field text_value_def)
  have optional: "optional_string n (written (invoice_members ci)) = Some v" if "map_of (invoice_members ci) n = Some (map_option text_value v)" for n v
    using that by (cases v) (simp_all add: optional_string_def field text_value_def)
  have "map_of (invoice_members ci) ''metadata'' = Some (map_option (\<lambda>m. W_obj (map (\<lambda>(k, v). (k, W_scalar v)) m)) (ci_metadata ci))"
    by (simp add: invoice_members_def)
  then have metadata: "metadata_field ''metadata'' (written (invoice_members ci)) = Some (ci_metadata ci)"
    by (cases "ci_metadata ci") (simp_all add: metadata_field_def field metadata_read_back)
  have "map_of (invoice_members ci) ''externalId'' = Some (map_option text_value (ci_externalId ci))"
    "map_of (invoice_members ci) ''description'' = Some (map_option text_value (ci_description ci))"
    "map_of (invoice_members ci) ''amount'' = Some (Some (text_value (ci_amount ci)))"
    "map_of (invoice_members ci) ''currency'' = Some (Some (text_value (ci_currency ci)))"
    "map_of (invoice_members ci) ''token'' = Some (Some (text_value (ci_token ci)))"
    "map_of (invoice_members ci) ''network'' = Some (Some (text_value (ci_network ci)))"
    "map_of (invoice_members ci) ''successUrl'' = Some (map_option text_value (ci_successUrl ci))"
    "map_of (invoice_members ci) ''cancelUrl'' = Some (map_option text_value (ci_cancelUrl ci))"
    by (simp_all add: invoice_members_def)
  note members = texts [OF this(3)] texts [OF this(4)] texts [OF this(5)] texts [OF this(6)]
    optional [OF this(1)] optional [OF this(2)] optional [OF this(7)] optional [OF this(8)]
  show ?thesis unfolding invoice_fields_def members metadata by simp
qed

section \<open>One controller for a request\<close>

definition controller_of :: "string list \<Rightarrow> string" where
  "controller_of p =
     (if p ! 2 = ''dashboard'' then ''dashboard/'' @ p ! 3
      else if p ! 2 = ''invoices'' \<and> length p = 5 then ''payments''
      else p ! 2)"

definition controller_names :: "string list" where
  "controller_names =
     [''auth'', ''organizations'', ''api-keys'', ''checkout'', ''dashboard/wallet-addresses'', ''dashboard/invoices'',
      ''dashboard/webhook-endpoints'', ''invoices'', ''payments'', ''webhook-endpoints'', ''health'']"

lemma controller_named:
  "auth_routes m p b \<noteq> None \<Longrightarrow> controller_of p = ''auth''"
  "organization_routes m p b \<noteq> None \<Longrightarrow> controller_of p = ''organizations''"
  "api_key_routes m p b \<noteq> None \<Longrightarrow> controller_of p = ''api-keys''"
  "checkout_routes m p b \<noteq> None \<Longrightarrow> controller_of p = ''checkout''"
  "wallet_routes m p b \<noteq> None \<Longrightarrow> controller_of p = ''dashboard/wallet-addresses''"
  "invoice_routes m p url \<noteq> None \<Longrightarrow> controller_of p = ''dashboard/invoices''"
  "webhook_routes m p b \<noteq> None \<Longrightarrow> controller_of p = ''dashboard/webhook-endpoints''"
  "merchant_invoice_routes m p b \<noteq> None \<Longrightarrow> controller_of p = ''invoices''"
  "payment_routes m p b \<noteq> None \<Longrightarrow> controller_of p = ''payments''"
  "endpoint_routes m p b \<noteq> None \<Longrightarrow> controller_of p = ''webhook-endpoints''"
  "health_routes m p \<noteq> None \<Longrightarrow> controller_of p = ''health''"
  by (simp add: auth_routes_def organization_routes_def api_key_routes_def checkout_routes_def wallet_routes_def
      invoice_routes_def webhook_routes_def merchant_invoice_routes_def payment_routes_def endpoint_routes_def
      health_routes_def controller_of_def split: list.splits if_splits)+

lemma answering_named:
  "list_all2 (\<lambda>x n. x \<noteq> None \<longrightarrow> controller_of (path_segments url) = n) (controllers m url b) controller_names"
  unfolding controllers_def controller_names_def Let_def list_all2_Cons list_all2_Nil
  by (intro conjI impI TrueI refl controller_named)

lemma at_most_one:
  assumes "list_all2 (\<lambda>x n. x \<noteq> None \<longrightarrow> name = n) xs ns" and "distinct ns"
  shows "length (filter (\<lambda>x. x \<noteq> None) xs) \<le> 1"
  using assms
proof (induction rule: list_all2_induct)
  case (Cons x xs n ns)
  have "filter (\<lambda>y. y \<noteq> None) xs = []" if "x \<noteq> None"
    using Cons that by (fastforce simp: filter_empty_conv list_all2_conv_all_nth in_set_conv_nth)
  with Cons show ?case by auto
qed simp

text \<open>At most one controller answers a request, so the order in which they are registered does not
  matter.\<close>

lemma only_controller:
  assumes "route m url b = Some c"
  shows "filter (\<lambda>x. x \<noteq> None) (controllers m url b) = [Some c]"
proof -
  have first: "filter (\<lambda>x. x \<noteq> None) xs = Some c # filter (\<lambda>x. x \<noteq> None) (tl (dropWhile (\<lambda>x. x = None) xs))"
    if "first_some xs = Some c" for xs :: "call option list"
    using that by (induction xs) (auto simp: first_some_def split: if_splits)
  have "distinct controller_names" by (simp add: controller_names_def)
  from at_most_one [OF answering_named this, of m url b] first [OF assms [unfolded route_def]] show ?thesis by simp
qed

end
