(* ===== verification/Web_Api.thy ===== *)
theory Web_Api
  imports Web_Pages Routes
begin

text \<open>
  The web application on the API. \<open>api_call\<close> is the call each hook means; the request it sends
  takes exactly that route, with the fields it was given. A signed-in account with one
  organization is served; one with two is not, whatever it asks for.
\<close>

section \<open>Every request takes its route\<close>

primrec api_call :: "web_call \<Rightarrow> call" where
  "api_call (Web_register email password) = Auth_register email password"
| "api_call (Web_login email password totpCode) =
     Auth_login \<lparr>li_email = email, li_password = password, li_totpCode = totpCode\<rparr>"
| "api_call Web_sign_out = Auth_logout"
| "api_call Web_organization = Org_get_mine"
| "api_call (Web_create_organization name) = Org_create name"
| "api_call (Web_update_organization name) = Org_update_mine (Some name) None"
| "api_call Web_members = Org_list_members"
| "api_call (Web_invite_member email role) = Org_invite_member email (Some role)"
| "api_call Web_api_keys = Keys_list"
| "api_call (Web_create_api_key name environment scopes) = Keys_create name environment scopes"
| "api_call (Web_revoke_api_key i) = Keys_revoke i"
| "api_call (Web_invoices page limit) = Dashboard_invoices_list (Some (int page)) (Some (int limit))"
| "api_call Web_endpoints = Dashboard_webhooks_list"
| "api_call (Web_create_endpoint url) = Dashboard_webhooks_create url"
| "api_call (Web_revoke_endpoint i) = Dashboard_webhooks_revoke i"
| "api_call (Web_deliveries i) = Dashboard_webhooks_deliveries i"
| "api_call Web_wallets = Wallets_list"
| "api_call (Web_set_wallet network token address) = Wallets_set network token address"

text \<open>Identifiers are spliced into paths as they are; numbers are printed in decimal.\<close>

definition plain_segment :: "string \<Rightarrow> bool" where
  "plain_segment i \<longleftrightarrow> CHR ''/'' \<notin> set i \<and> CHR ''?'' \<notin> set i"

definition sendable :: "web_call \<Rightarrow> bool" where
  "sendable c =
     (case c of
        Web_revoke_api_key i \<Rightarrow> plain_segment i
      | Web_revoke_endpoint i \<Rightarrow> plain_segment i
      | Web_deliveries i \<Rightarrow> plain_segment i
      | Web_invoices page limit \<Rightarrow> of_nat page < double_limit \<and> of_nat limit < double_limit
      | _ \<Rightarrow> True)"

definition web_method :: "web_call \<Rightarrow> string" where
  "web_method c = (case fo_method (web_options c) of None \<Rightarrow> ''GET'' | Some m \<Rightarrow> m)"

lemmas web_call_defs = web_path_def web_options_def web_method_def web_fetch.simps hook_defs
  json_body_def fetch_with_def fetch_get_def

lemma split_prefix: "c \<notin> set s \<Longrightarrow> split_char c (s @ t) = (case split_char c t of x # xs \<Rightarrow> (s @ x) # xs)"
  by (induction s) (auto split: list.splits)

lemma digits_plain:
  "CHR ''&'' \<notin> set (nat_toString n)" "CHR ''='' \<notin> set (nat_toString n)" "CHR ''?'' \<notin> set (nat_toString n)"
  "CHR ''/'' \<notin> set (nat_toString n)"
proof -
  have "list_all is_digit (nat_toString n)" by (rule nat_toString_digits)
  moreover have "\<not> is_digit (CHR ''&'')" "\<not> is_digit (CHR ''='')" "\<not> is_digit (CHR ''?'')" "\<not> is_digit (CHR ''/'')"
    by code_simp+
  ultimately show "CHR ''&'' \<notin> set (nat_toString n)" "CHR ''='' \<notin> set (nat_toString n)"
    "CHR ''?'' \<notin> set (nat_toString n)" "CHR ''/'' \<notin> set (nat_toString n)"
    by (auto simp: list_all_iff)
qed

lemma invoice_query:
  assumes "of_nat page < double_limit" and "of_nat limit < double_limit"
  shows "query_int (''/v1/dashboard/invoices?page='' @ nat_toString page @ ''&limit='' @ nat_toString limit) ''page'' =
      Some (Some (int page))"
    and "query_int (''/v1/dashboard/invoices?page='' @ nat_toString page @ ''&limit='' @ nat_toString limit) ''limit'' =
      Some (Some (int limit))"
proof -
  let ?q = "''page='' @ nat_toString page @ ''&limit='' @ nat_toString limit"
  have "split_char (CHR ''&'') ?q = [''page='' @ nat_toString page, ''limit='' @ nat_toString limit]"
    using split_char_append [of "CHR ''&''" "''page='' @ nat_toString page" "''limit='' @ nat_toString limit"]
      split_char_none [of "CHR ''&''" "''limit='' @ nat_toString limit"] digits_plain(1)
    by simp
  then have fields: "query_field (''/v1/dashboard/invoices?page='' @ nat_toString page @ ''&limit='' @ nat_toString limit) =
      map_of [(''page'', nat_toString page), (''limit'', nat_toString limit)]"
    by (simp add: query_field_def url_query_def fun_eq_iff)
  show "query_int (''/v1/dashboard/invoices?page='' @ nat_toString page @ ''&limit='' @ nat_toString limit) ''page'' =
      Some (Some (int page))"
    "query_int (''/v1/dashboard/invoices?page='' @ nat_toString page @ ''&limit='' @ nat_toString limit) ''limit'' =
      Some (Some (int limit))"
    unfolding query_int_def fields using assms by (simp_all add: js_Number_toString)
qed

lemma segments_with:
  assumes "CHR ''?'' \<notin> set p" and "plain_segment i"
  shows "path_segments (p @ CHR ''/'' # i) = split_char (CHR ''/'') (p @ CHR ''/'' # i)"
    and "split_char (CHR ''/'') i = [i]"
    and "CHR ''?'' \<notin> set r \<Longrightarrow> path_segments (p @ CHR ''/'' # i @ CHR ''/'' # r) =
      split_char (CHR ''/'') (p @ CHR ''/'' # i @ CHR ''/'' # r)"
    and "split_char (CHR ''/'') (i @ CHR ''/'' # r) = i # split_char (CHR ''/'') r"
  using assms by (auto simp: plain_segment_def split_char_none split_char_append intro!: path_segments_plain)

lemma web_call_routed:
  assumes "sendable c"
  shows "route (web_method c) (web_path c) (map_option wire_of (fo_body (web_options c))) = Some (api_call c)"
proof (cases c)
  case (Web_invoices page limit)
  have "url_path (''/v1/dashboard/invoices?page='' @ nat_toString page @ ''&limit='' @ nat_toString limit) =
      ''/v1/dashboard/invoices''"
    by (simp add: url_path_def)
  then have "path_segments (''/v1/dashboard/invoices?page='' @ nat_toString page @ ''&limit='' @ nat_toString limit) =
      [[], ''v1'', ''dashboard'', ''invoices'']"
    by (simp add: path_segments_def)
  then show ?thesis
    using invoice_query [of page limit] assms by (simp add: Web_invoices web_call_defs route_defs sendable_def)
next
  case (Web_create_api_key name environment scopes)
  then show ?thesis
    by (simp add: web_call_defs path_segments_plain route_defs field_defs environments_read_back
        scopes_read_back comp_def)
next
  case (Web_revoke_api_key i)
  have "path_segments (''/v1/api-keys/'' @ i) = [[], ''v1'', ''api-keys'', i]"
    using segments_with(1,2) [of "''/v1/api-keys''" i] assms by (simp add: Web_revoke_api_key sendable_def)
  then show ?thesis by (simp add: Web_revoke_api_key web_call_defs route_defs)
next
  case (Web_revoke_endpoint i)
  have "path_segments (''/v1/dashboard/webhook-endpoints/'' @ i) = [[], ''v1'', ''dashboard'', ''webhook-endpoints'', i]"
    using segments_with(1,2) [of "''/v1/dashboard/webhook-endpoints''" i] assms by (simp add: Web_revoke_endpoint sendable_def)
  then show ?thesis by (simp add: Web_revoke_endpoint web_call_defs route_defs)
next
  case (Web_deliveries i)
  have "path_segments (''/v1/dashboard/webhook-endpoints/'' @ i @ ''/deliveries'') =
      [[], ''v1'', ''dashboard'', ''webhook-endpoints'', i, ''deliveries'']"
    using segments_with(3,4) [of "''/v1/dashboard/webhook-endpoints''" i "''deliveries''"] assms
    by (simp add: Web_deliveries sendable_def)
  then show ?thesis by (simp add: Web_deliveries web_call_defs route_defs)
qed (simp_all add: web_call_defs path_segments_plain route_defs field_defs roles_read_back split: option.split)

text \<open>C16. The dashboard and the API agree on the wire: the method, path, query and body of every
  request the web application sends are those of the route it means, with the same arguments,
  and no other controller of the API takes the request.\<close>

theorem web_calls_routed:
  assumes "sendable c"
  shows "route (web_method c) (web_path c) (map_option wire_of (fo_body (web_options c))) = Some (api_call c) \<and>
    filter (\<lambda>x. x \<noteq> None) (controllers (web_method c) (web_path c) (map_option wire_of (fo_body (web_options c)))) =
      [Some (api_call c)]"
  using web_call_routed [OF assms] only_controller by blast

theorem web_calls_routed_witness:
  "route ''DELETE'' ''/v1/api-keys/cm1'' None = Some (Keys_revoke ''cm1'')"
  using web_calls_routed [of "Web_revoke_api_key ''cm1''"]
  by (simp add: sendable_def plain_segment_def web_call_defs)

text \<open>The checkout page's two requests take the routes of the checkout; an empty amount is none.\<close>

lemma checkout_requests_routed:
  assumes "plain_segment i"
  shows "route ''GET'' (fst (fetchCheckout i)) (map_option wire_of (fo_body (snd (fetchCheckout i)))) = Some (Checkout_get i)"
    and "route ''POST'' (fst (simulateCheckoutPayment i amount)) (map_option wire_of (fo_body (snd (simulateCheckoutPayment i amount)))) =
      Some (Checkout_simulate i (truthy amount))"
proof -
  have "path_segments (''/v1/checkout/'' @ i) = [[], ''v1'', ''checkout'', i]"
    using segments_with(1,2) [of "''/v1/checkout''" i] assms by simp
  then show "route ''GET'' (fst (fetchCheckout i)) (map_option wire_of (fo_body (snd (fetchCheckout i)))) = Some (Checkout_get i)"
    by (simp add: fetchCheckout_def route_defs)
  have "path_segments (''/v1/checkout/'' @ i @ ''/simulate-payment'') = [[], ''v1'', ''checkout'', i, ''simulate-payment'']"
    using segments_with(3,4) [of "''/v1/checkout''" i "''simulate-payment''"] assms by simp
  then show "route ''POST'' (fst (simulateCheckoutPayment i amount)) (map_option wire_of (fo_body (snd (simulateCheckoutPayment i amount)))) =
      Some (Checkout_simulate i (truthy amount))"
    by (cases "truthy amount") (simp_all add: simulateCheckoutPayment_def route_defs field_defs)
qed

text \<open>\<open>allowedHeaders\<close> of the API's CORS set-up (\<open>apps/api/src/main.ts\<close>); a browser compares
  header names without regard to case. Every header the client sets is on the list.\<close>

definition allowedHeaders :: "string list" where
  "allowedHeaders = [''Content-Type'', ''Authorization'', ''X-CSRF-Token'', ''X-Organization-Id'']"

lemma client_headers_allowed:
  "(name, value) \<in> set (fr_headers (api_fetch_request document path options)) \<Longrightarrow>
   to_lower name \<in> set (map to_lower allowedHeaders)"
  by (auto simp: api_fetch_request_def Let_def optional_header_def allowedHeaders_def split: option.splits if_splits)

lemma checkout_headers_allowed:
  "(name, value) \<in> set (fr_headers (checkout_fetch_request path init)) \<Longrightarrow>
   to_lower name \<in> set (map to_lower allowedHeaders)"
  by (simp add: checkout_fetch_request_def allowedHeaders_def)

section \<open>A signed-in account\<close>

text \<open>The calls for an organization, and the request the browser sends for a call.\<close>

definition tenant_web :: "web_call \<Rightarrow> bool" where
  "tenant_web c \<longleftrightarrow>
     (case c of Web_register _ _ \<Rightarrow> False | Web_login _ _ _ \<Rightarrow> False | Web_sign_out \<Rightarrow> False
      | Web_create_organization _ \<Rightarrow> False | _ \<Rightarrow> True)"

definition web_request :: "string \<Rightarrow> string \<Rightarrow> jar_cookie list \<Rightarrow> web_call \<Rightarrow> request" where
  "web_request ip page jar c = browser_request ip page jar (web_path c) (web_options c)"

lemma web_path_absolute: "starts_with (web_path c) ''/''"
  by (cases c) (simp_all add: web_call_defs starts_with_def)

lemma web_request_no_organization:
  "truthy (single_header (web_request ip page jar c\<lparr>rq_userId := x\<rparr>) ''x-organization-id'') = None"
  by (cases c)
    (simp_all add: web_request_def browser_request_def api_fetch_request_def Let_def web_call_defs single_header_def
      optional_header_def truthy_def lower_header_names split: option.split list.split)

text \<open>\<open>reply\<close> signed the account \<open>u\<close> in at \<open>t0\<close>; the browser that got it had the cookies \<open>jar\<close>
  of its own, and is on \<open>page\<close>.\<close>

definition signed_in :: "api_world \<Rightarrow> millis \<Rightarrow> auth_reply \<Rightarrow> user \<Rightarrow> jar_cookie list \<Rightarrow> string \<Rightarrow> bool" where
  "signed_in w t0 reply u jar page \<longleftrightarrow>
     (\<exists>env q b v v' input. auth_login w env q b v = (Inr reply, v') \<and> pe_now env = t0 \<and>
        loginSchema (wd_isEmail w) b = Some input \<and> user_by_email (li_email input) (ap_store (sv_api v)) = Some u \<and>
        pe_randomBytes env ''csrf'' ''cookie'' \<noteq> []) \<and>
     jwt_documented (aw_jwt (wd_auth w)) \<and> usr_id u \<noteq> [] \<and>
     (\<forall>c \<in> set jar. jc_name c \<notin> auth_cookie_names \<and> plain_pair (jc_name c, jc_value c)) \<and>
     starts_with page ''/''"

abbreviation session_request :: "string \<Rightarrow> string \<Rightarrow> jar_cookie list \<Rightarrow> auth_reply \<Rightarrow> web_call \<Rightarrow> request" where
  "session_request ip page jar reply c \<equiv> web_request ip page (receive_cookies jar (ar_cookies reply)) c"

lemma signed_in_guards:
  assumes signed: "signed_in w t0 reply u jar page"
    and later: "now div 1000 < t0 div 1000 + cfg_accessTtlSeconds (wd_cfg w)"
  shows "SessionAuthGuard (aw_jwt (wd_auth w)) (wd_cfg w) now (session_request ip page jar reply c) s =
      (Inr (session_request ip page jar reply c\<lparr>rq_userId := Some (usr_id u)\<rparr>), s)"
    and "CsrfGuard (session_request ip page jar reply c
        \<lparr>rq_userId := Some (usr_id u), rq_organizationId := x, rq_membershipRole := y\<rparr>) s =
      (Inr (session_request ip page jar reply c
        \<lparr>rq_userId := Some (usr_id u), rq_organizationId := x, rq_membershipRole := y\<rparr>), s)"
proof -
  obtain env q b v v' input where login: "auth_login w env q b v = (Inr reply, v')" and t0: "pe_now env = t0"
    and account: "loginSchema (wd_isEmail w) b = Some input" "user_by_email (li_email input) (ap_store (sv_api v)) = Some u"
    and csrf: "pe_randomBytes env ''csrf'' ''cookie'' \<noteq> []" and jwt: "jwt_documented (aw_jwt (wd_auth w))"
    and jar: "\<forall>c \<in> set jar. jc_name c \<notin> auth_cookie_names \<and> plain_pair (jc_name c, jc_value c)"
    and page: "starts_with page ''/''"
    using signed unfolding signed_in_def by blast
  obtain input' tokens u' where f: "loginSchema (wd_isEmail w) b = Some input'"
    "user_by_email (li_email input') (ap_store (sv_api v)) = Some u'"
    and token: "at_accessToken tokens = sign_access_token (aw_jwt (wd_auth w)) (wd_cfg w) (pe_now env) (usr_id u')"
    and cookies: "ar_cookies reply = issueCookies (wd_cfg w) env tokens"
    using auth_login_result [OF login] .
  have u': "u' = u" using f account by simp
  let ?q = "session_request ip page jar reply c"
  have names: "\<forall>c \<in> set jar. jc_name c \<notin> auth_cookie_names" using jar by blast
  have "rq_cookies ?q ''cp_at'' = Some (at_accessToken tokens)"
    using cookies_after_set(1) [OF names web_path_absolute]
    by (simp add: web_request_def browser_request_def Let_def cookies issueCookies_def)
  then show "SessionAuthGuard (aw_jwt (wd_auth w)) (wd_cfg w) now ?q s = (Inr (?q\<lparr>rq_userId := Some (usr_id u)\<rparr>), s)"
    using jwt later token unfolding session_passes by (simp add: jwt_documented_def sign_access_token_def u' t0)
  have "CsrfGuard (?q\<lparr>rq_userId := Some (usr_id u)\<rparr>) s = (Inr (?q\<lparr>rq_userId := Some (usr_id u)\<rparr>), s)"
    using browser_csrf [OF jar web_path_absolute page refl csrf] by (simp add: web_request_def cookies issueCookies_def)
  then show "CsrfGuard (?q\<lparr>rq_userId := Some (usr_id u), rq_organizationId := x, rq_membershipRole := y\<rparr>) s =
      (Inr (?q\<lparr>rq_userId := Some (usr_id u), rq_organizationId := x, rq_membershipRole := y\<rparr>), s)"
    unfolding csrf_passes by (simp add: single_header_def)
qed

abbreviation many_organizations :: thrown where
  "many_organizations \<equiv>
     AppThrown (forbidden_error ''You belong to multiple organizations - specify X-Organization-Id'')"

lemma signed_in_organization:
  assumes "usr_id u \<noteq> []"
  shows "memberships_of (usr_id u) s = [m] \<Longrightarrow> mem_organizationId m \<noteq> [] \<Longrightarrow>
      OrganizationScopeGuard (session_request ip page jar reply c\<lparr>rq_userId := Some (usr_id u)\<rparr>) s =
        (Inr (session_request ip page jar reply c\<lparr>rq_userId := Some (usr_id u),
           rq_organizationId := Some (mem_organizationId m), rq_membershipRole := Some (mem_role m)\<rparr>), s)"
    and "2 \<le> length (memberships_of (usr_id u) s) \<Longrightarrow>
      OrganizationScopeGuard (session_request ip page jar reply c\<lparr>rq_userId := Some (usr_id u)\<rparr>) s =
        (Inl many_organizations, s)"
proof -
  have id: "truthy (Some (usr_id u)) = Some (usr_id u)" using assms by (simp add: truthy_Some)
  show "OrganizationScopeGuard (session_request ip page jar reply c\<lparr>rq_userId := Some (usr_id u)\<rparr>) s =
        (Inr (session_request ip page jar reply c\<lparr>rq_userId := Some (usr_id u),
           rq_organizationId := Some (mem_organizationId m), rq_membershipRole := Some (mem_role m)\<rparr>), s)"
    if m: "memberships_of (usr_id u) s = [m]" "mem_organizationId m \<noteq> []"
  proof -
    have "truthy (Some (mem_organizationId m)) = Some (mem_organizationId m)" using m(2) by (simp add: truthy_Some)
    then show ?thesis
      by (simp add: OrganizationScopeGuard_def seq_reads targetOrganization_def web_request_no_organization ret_def id m)
  qed
  show "OrganizationScopeGuard (session_request ip page jar reply c\<lparr>rq_userId := Some (usr_id u)\<rparr>) s =
        (Inl many_organizations, s)" if ms: "2 \<le> length (memberships_of (usr_id u) s)"
  proof -
    obtain m1 m2 rest where "memberships_of (usr_id u) s = m1 # m2 # rest"
      using ms by (cases "memberships_of (usr_id u) s"; cases "tl (memberships_of (usr_id u) s)") auto
    then show ?thesis
      by (simp add: OrganizationScopeGuard_def seq_reads targetOrganization_def web_request_no_organization throw_def id)
  qed
qed

text \<open>C17. The dashboard works for an account with one organization: while its session lives,
  whatever request the web application builds is run for that organization and that account,
  an administrator's route exactly when the role is OWNER or ADMIN, and the guards in between
  write nothing.\<close>

theorem dashboard_serves_member:
  assumes signed: "signed_in w t0 reply u jar page"
    and later: "pe_now env div 1000 < t0 div 1000 + cfg_accessTtlSeconds (wd_cfg w)"
    and m: "memberships_of (usr_id u) s = [m]" "mem_organizationId m \<noteq> []"
  shows "as_member w env (session_request ip page jar reply c) h s = h (mem_organizationId m) s \<and>
    as_admin w env (session_request ip page jar reply c) h' s =
      (if mem_role m \<in> {OWNER, ADMIN} then h' (mem_organizationId m) (usr_id u) s
       else (Inl (AppThrown (forbidden_error ''Insufficient role for this action'')), s))"
proof -
  have id: "usr_id u \<noteq> []" using signed by (simp add: signed_in_def)
  let ?q = "session_request ip page jar reply c"
  let ?q' = "?q\<lparr>rq_userId := Some (usr_id u), rq_organizationId := Some (mem_organizationId m),
    rq_membershipRole := Some (mem_role m)\<rparr>"
  have dash: "dashboard_guards (aw_jwt (wd_auth w)) (wd_cfg w) (pe_now env) ?q s = (Inr ?q', s)"
    using signed_in_guards(1) [OF signed later] signed_in_organization(1) [OF id m]
    by (simp add: dashboard_guards_def seq_Inr)
  have truthy: "truthy (Some (usr_id u)) = Some (usr_id u)"
    "truthy (Some (mem_organizationId m)) = Some (mem_organizationId m)"
    using id m(2) by (simp_all add: truthy_Some)
  have "as_member w env ?q h s = h (mem_organizationId m) s"
    by (simp add: as_member_def dash CurrentOrganizationId_def truthy seq_def ret_def)
  moreover have "admin_guards (aw_jwt (wd_auth w)) (wd_cfg w) (pe_now env) ?q s =
      (if mem_role m \<in> {OWNER, ADMIN} then (Inr ?q', s)
       else (Inl (AppThrown (forbidden_error ''Insufficient role for this action'')), s))"
    using signed_in_guards(2) [OF signed later, where x = "Some (mem_organizationId m)" and y = "Some (mem_role m)"]
    by (simp add: admin_guards_def dash RolesGuard_def seq_def ret_def throw_def)
  then have "as_admin w env ?q h' s =
      (if mem_role m \<in> {OWNER, ADMIN} then h' (mem_organizationId m) (usr_id u) s
       else (Inl (AppThrown (forbidden_error ''Insufficient role for this action'')), s))"
    by (simp add: as_admin_def seq_def CurrentOrganizationId_def CurrentUserId_def truthy ret_def)
  ultimately show ?thesis by simp
qed

section \<open>A second organization\<close>

text \<open>What the client makes of an answer of the API.\<close>

definition web_answer :: "string \<Rightarrow> call \<Rightarrow> thrown + auth_reply \<Rightarrow> auth_reply web_response" where
  "web_answer requestId c result =
     (case http_answer requestId c result of
        (status, Inl b) \<Rightarrow> \<lparr>wr_status = status, wr_error = Some b, wr_json = None\<rparr>
      | (status, Inr x) \<Rightarrow> \<lparr>wr_status = status, wr_error = None, wr_json = Some x\<rparr>)"

lemma invited_twice:
  assumes "inviteMember env O' email role actor ctx s = (Inr m', s')"
    and "user_by_email email s = Some u" and "memberships_of (usr_id u) s = [m]" and "mem_organizationId m \<noteq> O'"
  shows "2 \<le> length (memberships_of (usr_id u) s')"
proof -
  have none: "membership_of (usr_id u) O' s = None"
  proof (rule ccontr)
    assume "membership_of (usr_id u) O' s \<noteq> None"
    then obtain k where "k \<in> set (memberships_of (usr_id u) s)" "mem_organizationId k = O'"
      by (auto simp: membership_of_def memberships_of_def dest: find_SomeD)
    then show False using assms(3,4) by simp
  qed
  obtain k where "memberships s' = memberships s @ [k]" "mem_userId k = usr_id u"
    using assms(1,2) none
    by (auto simp: inviteMember_def seq_reads seq_eq_Inr create_row_def audit_record_def modify_def ret_def throw_def Let_def
        split: if_splits)
  then show ?thesis using assms(3) by (simp add: memberships_of_def)
qed

lemma tenant_web_refused:
  assumes signed: "signed_in w t0 reply u jar page"
    and later: "pe_now env div 1000 < t0 div 1000 + cfg_accessTtlSeconds (wd_cfg w)"
    and two: "2 \<le> length (memberships_of (usr_id u) (ap_store (sv_api v)))" and c: "tenant_web c"
  shows "api w env (session_request ip page jar reply c) (api_call c) v = (Inl many_organizations, v)"
proof -
  define q where "q = session_request ip page jar reply c"
  let ?s = "ap_store (sv_api v)"
  have id: "usr_id u \<noteq> []" using signed by (simp add: signed_in_def)
  have dash: "dashboard_guards (aw_jwt (wd_auth w)) (wd_cfg w) (pe_now env) q ?s = (Inl many_organizations, ?s)"
    using signed_in_guards(1) [OF signed later] signed_in_organization(2) [OF id two]
    by (simp add: dashboard_guards_def seq_Inr q_def)
  have refused: "as_member w env q h ?s = (Inl many_organizations, ?s)"
    "as_admin w env q h' ?s = (Inl many_organizations, ?s)"
    for h :: "ident \<Rightarrow> body db_op" and h' :: "ident \<Rightarrow> ident \<Rightarrow> body db_op"
    by (simp_all add: as_member_def as_admin_def admin_guards_def seq_def dash)
  obtain f where f: "tenant_call w env (ap_registry (sv_api v)) q (api_call c) = Some f" and "f ?s = (Inl many_organizations, ?s)"
    using c by (cases c) (simp_all add: tenant_web_def tenant_route_defs refused)
  then show ?thesis
    by (simp add: api_def f map_eff_def on_db_def on_api_def on_store_def seq_def flip: q_def)
qed

text \<open>C18. An invitation can take an account's dashboard away. When an administrator of another
  organization adds the account of someone who has one organization, which needs no consent,
  every organization request of that person's web application is refused from then on and
  changes nothing, for the client never names the organization; and the overview page takes
  the refusal for an account without an organization and offers to create one.\<close>

theorem invitation_locks_dashboard:
  assumes signed: "signed_in w t0 reply u jar page"
    and later: "pe_now env div 1000 < t0 div 1000 + cfg_accessTtlSeconds (wd_cfg w)"
    and invited: "inviteMember env' O' email role actor ctx s = (Inr m', ap_store (sv_api v))"
    and before: "user_by_email email s = Some u'" "usr_id u' = usr_id u" "memberships_of (usr_id u) s = [m]"
      "mem_organizationId m \<noteq> O'"
    and c: "tenant_web c"
  shows "api w env (session_request ip page jar reply c) (api_call c) v = (Inl many_organizations, v) \<and>
    (\<exists>e. api_fetch_result (web_answer requestId (api_call c)
           (fst (api w env (session_request ip page jar reply c) (api_call c) v))) = Inl e \<and>
         overview False (Some e) None = [Create_organization_card])"
proof -
  have "2 \<le> length (memberships_of (usr_id u) (ap_store (sv_api v)))"
    using invited_twice [OF invited before(1)] before(2-4) by simp
  then have refused: "api w env (session_request ip page jar reply c) (api_call c) v = (Inl many_organizations, v)"
    by (rule tenant_web_refused [OF signed later _ c])
  show ?thesis
    by (simp add: refused web_answer_def http_answer_def exception_filter_app_error forbidden_error_def mk_error_def
        api_fetch_result_def response_ok_def overview_def)
qed

lemma sample_signed_in: "\<exists>reply. signed_in dashboard_api 5 reply (sample_user 0) [] ''/en/dashboard''"
proof -
  let ?l = "auth_login dashboard_api sample_key_env sample_client (sample_login ''pass123456'') dashboard_server"
  have "case fst ?l of Inl e \<Rightarrow> False | Inr x \<Rightarrow> True" by code_simp
  then obtain reply v' where l: "?l = (Inr reply, v')" by (cases ?l) (auto split: sum.splits)
  then obtain input where "loginSchema (wd_isEmail dashboard_api) (sample_login ''pass123456'') = Some input"
    "user_by_email (li_email input) (ap_store (sv_api dashboard_server)) = Some (sample_user 0)"
    by (rule auth_login_result)
      (auto simp: user_by_email_def dashboard_server_def sample_accounts_def split: if_splits)
  moreover have "jwt_documented (aw_jwt (wd_auth dashboard_api))"
    by (simp add: dashboard_api_def sample_api_def jwt_documented_def prefix_jwt_def)
  moreover have "pe_now sample_key_env = 5" "pe_randomBytes sample_key_env ''csrf'' ''cookie'' \<noteq> []"
    by (simp_all add: sample_key_env_def)
  moreover have "usr_id (sample_user 0) \<noteq> []" "starts_with ''/en/dashboard'' ''/''"
    by (simp_all add: sample_user_def starts_with_def)
  ultimately have "signed_in dashboard_api 5 reply (sample_user 0) [] ''/en/dashboard''"
    unfolding signed_in_def using l by (intro conjI) (blast, simp_all)
  then show ?thesis by blast
qed

lemma sample_session_alive:
  "pe_now sample_key_env div 1000 < 5 div 1000 + cfg_accessTtlSeconds (wd_cfg dashboard_api)"
  by (simp add: sample_key_env_def dashboard_api_def sample_api_def sample_config_def)

theorem dashboard_serves_member_witness:
  "\<exists>reply. as_admin dashboard_api sample_key_env (session_request ''203.0.113.9'' ''/en/dashboard'' [] reply Web_api_keys)
     (\<lambda>organizationId userId. ret (organizationId, userId)) sample_members = (Inr (''org_1'', ''usr_1''), sample_members)"
proof -
  let ?m = "\<lparr>mem_id = ''m1'', mem_userId = ''usr_1'', mem_organizationId = ''org_1'', mem_role = ADMIN, mem_createdAt = 0\<rparr>"
  obtain reply where signed: "signed_in dashboard_api 5 reply (sample_user 0) [] ''/en/dashboard''"
    using sample_signed_in by blast
  have id: "usr_id (sample_user 0) = ''usr_1''" by (simp add: sample_user_def)
  have m: "memberships_of (usr_id (sample_user 0)) sample_members = [?m]" "mem_organizationId ?m \<noteq> []"
    by (simp_all add: memberships_of_def sample_members_def id)
  show ?thesis
    using dashboard_serves_member [OF signed sample_session_alive m, where c = Web_api_keys and ip = "''203.0.113.9''"
        and h' = "\<lambda>organizationId userId. ret (organizationId, userId)"]
    by (auto simp: id ret_def)
qed

definition sample_invited :: store where
  "sample_invited = sample_members\<lparr>users := [sample_user 0]\<rparr>"

theorem invitation_locks_dashboard_witness:
  "\<exists>reply v m'. fst (inviteMember sample_key_env ''org_2'' ''a@b.example'' MEMBER ''usr_2'' sample_context sample_invited) = Inr m' \<and>
     ap_store (sv_api v) = snd (inviteMember sample_key_env ''org_2'' ''a@b.example'' MEMBER ''usr_2'' sample_context sample_invited) \<and>
     api dashboard_api sample_key_env (session_request ''203.0.113.9'' ''/en/dashboard'' [] reply Web_organization) Org_get_mine v =
       (Inl many_organizations, v)"
proof -
  let ?i = "inviteMember sample_key_env ''org_2'' ''a@b.example'' MEMBER ''usr_2'' sample_context sample_invited"
  have "case fst ?i of Inl e \<Rightarrow> False | Inr x \<Rightarrow> True" by code_simp
  then obtain m' s' where i: "?i = (Inr m', s')" by (cases ?i) (auto split: sum.splits)
  define v where "v = sample_server\<lparr>sv_api := idle_state\<lparr>ap_store := s'\<rparr>\<rparr>"
  have v: "ap_store (sv_api v) = s'" by (simp add: v_def)
  obtain reply where signed: "signed_in dashboard_api 5 reply (sample_user 0) [] ''/en/dashboard''"
    using sample_signed_in by blast
  have before: "user_by_email ''a@b.example'' sample_invited = Some (sample_user 0)" "usr_id (sample_user 0) = usr_id (sample_user 0)"
    "memberships_of (usr_id (sample_user 0)) sample_invited =
       [\<lparr>mem_id = ''m1'', mem_userId = ''usr_1'', mem_organizationId = ''org_1'', mem_role = ADMIN, mem_createdAt = 0\<rparr>]"
    "mem_organizationId \<lparr>mem_id = ''m1'', mem_userId = ''usr_1'', mem_organizationId = ''org_1'', mem_role = ADMIN,
       mem_createdAt = 0\<rparr> \<noteq> ''org_2''"
    by (simp_all add: user_by_email_def memberships_of_def sample_invited_def sample_members_def sample_user_def)
  have "tenant_web Web_organization" by (simp add: tenant_web_def)
  from invitation_locks_dashboard [OF signed sample_session_alive i [folded v] before this, where ip = "''203.0.113.9''"]
  show ?thesis using i v by auto
qed

end
