(* ===== verification/Logging.thy ===== *)
theory Logging
  imports Js_Text
begin

text \<open>
  What the logger hides (\<open>packages/logger/src/redact-paths.ts\<close>). pino takes a list of
  paths whose segments are keys or the wildcard \<open>*\<close>, and censors a value whose path fits one
  of them, as its documentation says. \<open>createLogger\<close> is the options it gives pino; the pretty
  printer's own options are left out.
\<close>

definition SENSITIVE_FIELD_NAMES :: "string list" where
  "SENSITIVE_FIELD_NAMES =
     [''password'', ''password_hash'', ''passwordHash'', ''currentPassword'', ''newPassword'',
      ''token'', ''accessToken'', ''refreshToken'', ''idToken'', ''apiKey'', ''api_key'', ''key_hash'',
      ''keyHash'', ''secret'', ''clientSecret'', ''privateKey'', ''private_key'', ''mnemonic'',
      ''seedPhrase'', ''seed_phrase'', ''totpSecret'', ''twoFactorSecret'', ''authorization'', ''cookie'',
      ''set-cookie'', ''csrfToken'', ''signature'']"

definition buildRedactPaths :: "string list" where
  "buildRedactPaths =
     concat (map (\<lambda>field. [field, ''*.'' @ field, ''*.*.'' @ field, ''*.*.*.'' @ field]) SENSITIVE_FIELD_NAMES)"

text \<open>A pattern against the keys that lead to a value.\<close>

definition path_fits :: "string \<Rightarrow> string list \<Rightarrow> bool" where
  "path_fits pattern ks \<longleftrightarrow>
     list_all2 (\<lambda>p k. p = ''*'' \<or> p = k) (split_char (CHR ''.'') pattern) ks"

definition censored :: "string list \<Rightarrow> bool" where
  "censored ks \<longleftrightarrow> list_ex (\<lambda>p. path_fits p ks) buildRedactPaths"

lemma field_names_plain: "f \<in> set SENSITIVE_FIELD_NAMES \<Longrightarrow> CHR ''.'' \<notin> set f \<and> f \<noteq> ''*''"
proof -
  have "list_all (\<lambda>f. CHR ''.'' \<notin> set f \<and> f \<noteq> ''*'') SENSITIVE_FIELD_NAMES"
    by (simp add: SENSITIVE_FIELD_NAMES_def)
  then show "f \<in> set SENSITIVE_FIELD_NAMES \<Longrightarrow> CHR ''.'' \<notin> set f \<and> f \<noteq> ''*''" by (simp add: list_all_iff)
qed

lemma split_patterns:
  assumes "CHR ''.'' \<notin> set f"
  shows "split_char (CHR ''.'') f = [f]" "split_char (CHR ''.'') (''*.'' @ f) = [''*'', f]"
    "split_char (CHR ''.'') (''*.*.'' @ f) = [''*'', ''*'', f]"
    "split_char (CHR ''.'') (''*.*.*.'' @ f) = [''*'', ''*'', ''*'', f]"
  using split_char_none [OF assms] by simp_all

lemma fits_field:
  assumes "f \<in> set SENSITIVE_FIELD_NAMES"
  shows "(path_fits f ks \<or> path_fits (''*.'' @ f) ks \<or> path_fits (''*.*.'' @ f) ks \<or> path_fits (''*.*.*.'' @ f) ks) \<longleftrightarrow>
    (ks \<noteq> [] \<and> last ks = f \<and> length ks \<le> 4)"
proof -
  note split = split_patterns [OF conjunct1 [OF field_names_plain [OF assms]]]
  have "ks = [] \<or> (\<exists>a. ks = [a]) \<or> (\<exists>a b. ks = [a, b]) \<or> (\<exists>a b c. ks = [a, b, c]) \<or>
      (\<exists>a b c d. ks = [a, b, c, d]) \<or> (\<exists>a b c d e l. ks = a # b # c # d # e # l)"
    by (metis list.exhaust)
  then show ?thesis
    unfolding path_fits_def split
    using field_names_plain [OF assms] by (elim disjE exE) auto
qed

text \<open>A sensitive field is hidden at the top level and under at most three objects, whatever
  their keys; deeper down it is logged in clear text, and no other field is ever hidden.\<close>

theorem censored_iff:
  "censored ks \<longleftrightarrow> ks \<noteq> [] \<and> last ks \<in> set SENSITIVE_FIELD_NAMES \<and> length ks \<le> 4"
proof -
  have "censored ks \<longleftrightarrow> (\<exists>f \<in> set SENSITIVE_FIELD_NAMES.
      path_fits f ks \<or> path_fits (''*.'' @ f) ks \<or> path_fits (''*.*.'' @ f) ks \<or> path_fits (''*.*.*.'' @ f) ks)"
    by (auto simp: censored_def buildRedactPaths_def list_ex_iff)
  then show ?thesis using fits_field by auto
qed

section \<open>\<open>create-logger.ts\<close>\<close>

record logger_options =
  lo_name :: string
  lo_level :: "string option"
  lo_pretty :: "bool option"

record pino_options =
  pino_name :: string
  pino_level :: string
  pino_paths :: "string list"
  pino_censor :: string
  pino_transport :: "string option"
  pino_bindings :: "(string \<times> string) list"

definition createLogger :: "logger_options \<Rightarrow> pino_options" where
  "createLogger options =
     \<lparr>pino_name = lo_name options,
      pino_level = (case lo_level options of Some l \<Rightarrow> l | None \<Rightarrow> ''info''),
      pino_paths = buildRedactPaths, pino_censor = ''[REDACTED]'',
      pino_transport = (if lo_pretty options = Some True then Some ''pino-pretty'' else None),
      pino_bindings = []\<rparr>"

record log_context =
  lc_requestId :: string
  lc_correlationId :: "string option"
  lc_organizationId :: "string option"

definition context_bindings :: "log_context \<Rightarrow> (string \<times> string) list" where
  "context_bindings c =
     (''requestId'', lc_requestId c) #
     (case lc_correlationId c of Some x \<Rightarrow> [(''correlationId'', x)] | None \<Rightarrow> []) @
     (case lc_organizationId c of Some x \<Rightarrow> [(''organizationId'', x)] | None \<Rightarrow> [])"

definition withRequestContext :: "pino_options \<Rightarrow> log_context \<Rightarrow> pino_options" where
  "withRequestContext logger c = logger\<lparr>pino_bindings := pino_bindings logger @ context_bindings c\<rparr>"

text \<open>Binding a context changes neither what is hidden nor what is logged, and a context adds no
  field that would be hidden.\<close>

lemma context_keeps_redaction:
  "pino_paths (withRequestContext (createLogger options) c) = buildRedactPaths"
  "\<forall>(k, v) \<in> set (context_bindings c). \<not> censored [k]"
  by (auto simp: withRequestContext_def createLogger_def context_bindings_def censored_iff SENSITIVE_FIELD_NAMES_def
      split: option.splits)

end
