(* ===== verification/Api_Main.thy ===== *)
theory Api_Main
  imports Worker_Main Web_Api Logging
begin

text \<open>
  The start and the end of the API process (\<open>apps/api/src/main.ts\<close>, the life-cycle hooks of the
  Prisma, Redis and payments services, \<open>packages/database/src/client.ts\<close>): the options the
  libraries get, the resources the process opens, and what the hooks release. Nest calls the
  \<open>onModuleInit\<close> hooks before it listens and the \<open>onModuleDestroy\<close> hooks on a signal, as its
  documentation says; modules, Swagger and routing are its own.
\<close>

section \<open>The database client\<close>

record prisma_options =
  po_url :: string
  po_log :: "string list"

definition createPrismaClient :: "string \<Rightarrow> bool \<Rightarrow> prisma_options" where
  "createPrismaClient databaseUrl logQueries =
     \<lparr>po_url = databaseUrl, po_log = (if logQueries then [''query'', ''warn'', ''error''] else [''warn'', ''error''])\<rparr>"

definition PrismaService :: "env \<Rightarrow> prisma_options" where
  "PrismaService e =
     \<lparr>po_url = env_DATABASE_URL (env_server e),
      po_log = (if env_NODE_ENV (env_server e) = Development then [''warn'', ''error''] else [''warn'', ''error''])\<rparr>"

text \<open>The shared client: outside production the first call's client is kept for every later call.\<close>

definition getPrismaClient ::
    "string option \<Rightarrow> string \<Rightarrow> bool \<Rightarrow> prisma_options option \<Rightarrow> prisma_options \<times> prisma_options option" where
  "getPrismaClient node_environment databaseUrl logQueries pinned =
     (if node_environment = Some ''production'' then (createPrismaClient databaseUrl logQueries, pinned)
      else (let c = (case pinned of Some c \<Rightarrow> c | None \<Rightarrow> createPrismaClient databaseUrl logQueries)
            in (c, Some c)))"

lemma getPrismaClient_pinned:
  assumes "node_environment \<noteq> Some ''production''" and "getPrismaClient node_environment u q pinned = (c, pinned')"
  shows "getPrismaClient node_environment u' q' pinned' = (c, pinned')"
  using assms by (auto simp: getPrismaClient_def Let_def split: option.splits)

text \<open>In production no query is logged, by the worker's client and by the API's.\<close>

lemma production_logs_no_query:
  "env_NODE_ENV (env_server e) \<noteq> Development \<Longrightarrow>
     ''query'' \<notin> set (po_log (createPrismaClient u (env_NODE_ENV (env_server e) = Development)))"
  "''query'' \<notin> set (po_log (PrismaService e))"
  by (simp_all add: createPrismaClient_def PrismaService_def)

section \<open>The server\<close>

record fastify_options =
  fy_requestId :: string
  fy_trustProxy :: bool
  fy_cookieSecret :: string
  fy_corsOrigins :: "string list"
  fy_corsCredentials :: bool
  fy_corsHeaders :: "string list"
  fy_defaultSrc :: "string list"
  fy_logger :: pino_options

definition fastify_of :: "env \<Rightarrow> fastify_options" where
  "fastify_of e =
     \<lparr>fy_requestId = ''req'', fy_trustProxy = True, fy_cookieSecret = env_SESSION_COOKIE_SECRET (env_secrets e),
      fy_corsOrigins = env_CORS_ORIGINS (env_server e), fy_corsCredentials = True,
      fy_corsHeaders = allowedHeaders, fy_defaultSrc = [[CHR 0x27] @ ''none'' @ [CHR 0x27]],
      fy_logger = createLogger \<lparr>lo_name = ''cryptopay-api'', lo_level = Some (env_LOG_LEVEL (env_server e)),
        lo_pretty = Some (env_NODE_ENV (env_server e) = Development)\<rparr>\<rparr>"

text \<open>A browser lets a page of an origin send credentials and read the answer, as CORS says.\<close>

definition cors_allows :: "fastify_options \<Rightarrow> string \<Rightarrow> bool" where
  "cors_allows f origin \<longleftrightarrow> fy_corsCredentials f \<and> origin \<in> set (fy_corsOrigins f)"

section \<open>Start and end\<close>

datatype api_resource =
    Api_redis string
  | Api_prisma prisma_options
  | Poll_timer millis
  | Api_listener int

datatype api_action = Api_open api_resource | Api_close api_resource | Api_exit int

definition TICK_INTERVAL_MS :: millis where "TICK_INTERVAL_MS = 1000"

text \<open>\<open>RedisService\<close> connects when it is made (\<open>lazyConnect: false\<close>), \<open>PrismaService\<close> in its hook.\<close>

definition RedisService :: "env \<Rightarrow> api_action list" where
  "RedisService e = [Api_open (Api_redis (env_REDIS_URL (env_server e)))]"

definition redis_onModuleDestroy :: "env \<Rightarrow> api_action list" where
  "redis_onModuleDestroy e = [Api_close (Api_redis (env_REDIS_URL (env_server e)))]"

definition prisma_onModuleInit :: "env \<Rightarrow> api_action list" where
  "prisma_onModuleInit e = [Api_open (Api_prisma (PrismaService e))]"

definition prisma_onModuleDestroy :: "env \<Rightarrow> api_action list" where
  "prisma_onModuleDestroy e = [Api_close (Api_prisma (PrismaService e))]"

text \<open>\<open>PaymentsService\<close>: the timer it keeps, if any.\<close>

definition payments_onModuleInit :: "env \<Rightarrow> api_action list \<times> millis option" where
  "payments_onModuleInit e =
     (if \<not> polls_in_process (env_BLOCKCHAIN_MODE (env_chain e)) then ([], None)
      else ([Api_open (Poll_timer TICK_INTERVAL_MS)], Some TICK_INTERVAL_MS))"

definition payments_onModuleDestroy :: "millis option \<Rightarrow> api_action list" where
  "payments_onModuleDestroy timer = (case timer of Some t \<Rightarrow> [Api_close (Poll_timer t)] | None \<Rightarrow> [])"

definition api_bootstrap :: "env \<Rightarrow> api_action list" where
  "api_bootstrap e =
     RedisService e @ prisma_onModuleInit e @ fst (payments_onModuleInit e) @
     [Api_open (Api_listener (env_API_PORT (env_server e)))]"

definition start_api ::
    "(string \<Rightarrow> bool) \<Rightarrow> (source \<Rightarrow> (string list \<times> string) list) \<Rightarrow> source \<Rightarrow> (api_action \<Rightarrow> bool) \<Rightarrow> api_action list" where
  "start_api is_url issues src accepts =
     (case fst (loadEnv is_url issues src None) of
        Inl _ \<Rightarrow> [Api_exit 1]
      | Inr e \<Rightarrow>
          (if list_all accepts (api_bootstrap e) then api_bootstrap e
           else takeWhile accepts (api_bootstrap e) @ [Api_exit 1]))"

definition api_destroy :: "env \<Rightarrow> millis option \<Rightarrow> api_action list" where
  "api_destroy e timer = payments_onModuleDestroy timer @ prisma_onModuleDestroy e @ redis_onModuleDestroy e"

lemmas api_life_defs = api_bootstrap_def RedisService_def prisma_onModuleInit_def payments_onModuleInit_def
  api_destroy_def payments_onModuleDestroy_def prisma_onModuleDestroy_def redis_onModuleDestroy_def

fun api_opened :: "api_action \<Rightarrow> api_resource option" where
  "api_opened (Api_open r) = Some r"
| "api_opened _ = None"

fun api_closed :: "api_action \<Rightarrow> api_resource option" where
  "api_closed (Api_close r) = Some r"
| "api_closed _ = None"

text \<open>The hooks release everything the process opened but the listener, which is Nest's own.\<close>

lemma hooks_release_everything:
  "add_mset (Api_listener (env_API_PORT (env_server e)))
     (mset (List.map_filter api_closed (api_destroy e (snd (payments_onModuleInit e))))) =
   mset (List.map_filter api_opened (api_bootstrap e))"
  by (simp add: api_life_defs map_filter_simps add_mset_commute)

text \<open>The API listens only with a sound configuration, after the database answered, and on a port
  of its configuration.\<close>

lemma listens_after_database:
  assumes "Api_open (Api_listener p) \<in> set (start_api is_url issues src accepts)"
  shows "\<exists>e. fst (loadEnv is_url issues src None) = Inr e \<and> p = env_API_PORT (env_server e) \<and>
    accepts (Api_open (Api_prisma (PrismaService e)))"
proof (cases "fst (loadEnv is_url issues src None)")
  case (Inl x)
  then show ?thesis using assms by (simp add: start_api_def)
next
  case (Inr e)
  show ?thesis
    using assms by (auto simp: start_api_def Inr api_life_defs split: if_splits)
qed

text \<open>The two processes of a deployment read the same environment, so exactly one of them has the
  payment pipeline: the API a timer, or the worker the two queues.\<close>

lemma pipeline_owner:
  "Api_open (Poll_timer TICK_INTERVAL_MS) \<in> set (api_bootstrap e) \<longleftrightarrow>
     blockchainScan \<notin> fst ` set (workers_of (fst (bootstrap e now)))"
  "blockchainScan \<in> fst ` set (workers_of (fst (bootstrap e now))) \<longleftrightarrow>
     paymentConfirm \<in> fst ` set (workers_of (fst (bootstrap e now)))"
  by (cases "env_BLOCKCHAIN_MODE (env_chain e)"; simp add: api_life_defs bootstrap_workers polls_in_process_def)+

end
