(* ===== verification/Account_Life.thy ===== *)
theory Account_Life
  imports Auth_Service
begin

text \<open>
  The life of an account across requests: registration, the link in the e-mail, the first login,
  and the way to a second factor. Each step runs in its own environment, at its own time.
\<close>

section \<open>Registration\<close>

text \<open>A password verifies against its own hash, as argon2's documentation says.\<close>

definition argon_documented :: "auth_world \<Rightarrow> bool" where
  "argon_documented w \<longleftrightarrow> (\<forall>p. aw_argonVerify w (aw_argonHash w p) p = Some True)"

definition registered_user :: "auth_world \<Rightarrow> pass_env \<Rightarrow> string \<Rightarrow> string \<Rightarrow> user" where
  "registered_user w env email password =
     \<lparr>usr_id = newId env ''c'' ''user'', usr_email = email, usr_status = PENDING_VERIFICATION,
      usr_passwordHash = aw_argonHash w password, usr_emailVerifiedAt = None,
      usr_twoFactorEnabled = False, usr_twoFactorSecretEnc = None,
      usr_failedLoginAttempts = 0, usr_lockedUntil = None, usr_lastLoginAt = None\<rparr>"

definition mailed_token :: "auth_world \<Rightarrow> api_config \<Rightarrow> pass_env \<Rightarrow> email_token" where
  "mailed_token w cfg env =
     \<lparr>et_id = newId env ''c'' ''email_token'', et_userId = newId env ''c'' ''user'',
      et_tokenHash = emailHash (aw_hmac w) cfg (randomToken env ''email_verification''),
      et_expiresAt = pe_now env + TTL_HOURS * 3600000, et_consumedAt = None\<rparr>"

lemma register_result:
  assumes "register w cfg env email password ctx s = (Inr (), s1)" and "user_by_email email s = None"
  shows "users s1 = users s @ [registered_user w env email password]"
    "emailTokens s1 = emailTokens s @ [mailed_token w cfg env]"
    "\<forall>u \<in> set (users s). usr_id u \<noteq> newId env ''c'' ''user'' \<and> usr_email u \<noteq> email"
    "\<forall>t \<in> set (emailTokens s). et_id t \<noteq> et_id (mailed_token w cfg env) \<and>
       et_tokenHash t \<noteq> et_tokenHash (mailed_token w cfg env)"
  using assms
  by (auto simp: register_def seq_reads Let_def issue_email_token_def audit_record_def eff_defs registered_user_def
      mailed_token_def list_ex_iff user_clash_def email_token_clash_def split: if_splits)

lemma find_last: "\<forall>x \<in> set xs. \<not> P x \<Longrightarrow> P y \<Longrightarrow> find P (xs @ [y]) = Some y"
  by (induction xs) auto

text \<open>The account after the link was followed.\<close>

definition verified_user :: "millis \<Rightarrow> user \<Rightarrow> user" where
  "verified_user now u = u\<lparr>usr_status := ACTIVE, usr_emailVerifiedAt := Some now\<rparr>"

lemma update_rows_last:
  "\<forall>x \<in> set xs. \<not> P x \<Longrightarrow> P y \<Longrightarrow> update_rows P f (xs @ [y]) = xs @ [f y]"
  by (induction xs) (auto simp: update_rows_def)

lemma verify_result:
  assumes "register w cfg env email password ctx s = (Inr (), s1)" and "user_by_email email s = None"
    and "pe_now env1 \<le> pe_now env + 24 * 3600000"
  shows "verifyEmail w cfg env1 (randomToken env ''email_verification'') s1 =
    (Inr (), s1\<lparr>emailTokens := emailTokens s @ [mailed_token w cfg env\<lparr>et_consumedAt := Some (pe_now env1)\<rparr>],
               users := users s @ [verified_user (pe_now env1) (registered_user w env email password)]\<rparr>)"
proof -
  note r = register_result [OF assms(1,2)]
  let ?t = "mailed_token w cfg env"
  have found: "find (\<lambda>t. et_tokenHash t = emailHash (aw_hmac w) cfg (randomToken env ''email_verification'')) (emailTokens s1)
      = Some ?t"
    unfolding r(2) by (rule find_last) (use r(4) in \<open>auto simp: mailed_token_def\<close>)
  have live: "et_consumedAt ?t = None" "\<not> et_expiresAt ?t < pe_now env1"
    using assms(3) by (simp_all add: mailed_token_def TTL_HOURS_def)
  have tokens: "update_rows (\<lambda>r. et_id r = et_id ?t) (\<lambda>r. r\<lparr>et_consumedAt := Some (pe_now env1)\<rparr>) (emailTokens s1) =
      emailTokens s @ [?t\<lparr>et_consumedAt := Some (pe_now env1)\<rparr>]"
    unfolding r(2) by (rule update_rows_last) (use r(4) in auto)
  have us: "update_rows (\<lambda>u. usr_id u = et_userId ?t) (verified_user (pe_now env1)) (users s1) =
      users s @ [verified_user (pe_now env1) (registered_user w env email password)]"
    unfolding r(1) by (rule update_rows_last) (use r(3) in \<open>auto simp: mailed_token_def registered_user_def\<close>)
  have ex: "list_ex (\<lambda>r. et_id r = et_id ?t) (emailTokens s1)" "list_ex (\<lambda>u. usr_id u = et_userId ?t) (users s1)"
    unfolding r(1,2) by (simp_all add: mailed_token_def registered_user_def)
  have fold: "(\<lambda>u. u\<lparr>usr_status := ACTIVE, usr_emailVerifiedAt := Some (pe_now env1)\<rparr>) = verified_user (pe_now env1)"
    by (simp add: verified_user_def fun_eq_iff)
  let ?s2 = "s1\<lparr>emailTokens := update_rows (\<lambda>r. et_id r = et_id ?t) (\<lambda>r. r\<lparr>et_consumedAt := Some (pe_now env1)\<rparr>) (emailTokens s1),
      users := update_rows (\<lambda>u. usr_id u = et_userId ?t) (verified_user (pe_now env1)) (users s1)\<rparr>"
  have tx: "transaction
       [update_row emailTokens emailTokens_update (\<lambda>r. et_id r = et_id ?t) (\<lambda>r. r\<lparr>et_consumedAt := Some (pe_now env1)\<rparr>),
        update_row users users_update (\<lambda>u. usr_id u = et_userId ?t) (verified_user (pe_now env1))] s1 = (Inr (), ?s2)"
    using ex by (cases s1) (simp add: transaction_def update_row_def eff_defs)
  have "verifyEmail w cfg env1 (randomToken env ''email_verification'') s1 = (Inr (), ?s2)"
    unfolding verifyEmail_def consume_email_token_def fold
    by (simp add: seq_def reads_def found live tx ret_def)
  then show ?thesis unfolding tokens us .
qed

section \<open>From registration to the first session\<close>

text \<open>Nothing but the identifier and the hash of a refresh token can be taken already.\<close>

definition session_free :: "auth_world \<Rightarrow> api_config \<Rightarrow> pass_env \<Rightarrow> store \<Rightarrow> bool" where
  "session_free w cfg env s \<longleftrightarrow>
     (\<forall>t \<in> set (refreshTokens s). rt_id t \<noteq> newId env ''c'' ''refresh_token'' \<and>
        rt_tokenHash t \<noteq> refreshHash (aw_hmac w) cfg (randomToken env ''refresh''))"

lemma open_session_returns:
  assumes "session_free w cfg env s" and "user \<in> set (users s)"
  shows "\<exists>tokens s'. open_session w cfg env user ctx s = (Inr tokens, s')"
proof -
  let ?s = "s\<lparr>users := update_rows (\<lambda>u. usr_id u = usr_id user) (logged_in (pe_now env)) (users s)\<rparr>"
  have "list_ex (\<lambda>u. usr_id u = usr_id user) (users s)" using assms(2) by (auto simp: list_ex_iff)
  then have upd: "update_user (usr_id user) (logged_in (pe_now env)) s = (Inr (), ?s)"
    by (cases s) (simp add: update_user_def update_row_def)
  have "\<not> list_ex (refresh_clash (new_refresh_token (aw_hmac w) cfg env (usr_id user) f ctx)) (refreshTokens ?s)" for f
    using assms(1) by (auto simp: session_free_def list_ex_iff refresh_clash_def new_refresh_token_def)
  then show ?thesis
    by (simp add: open_session_def seq_def upd issue_refresh_result Let_def audit_record_def modify_def ret_def)
qed

lemma login_token:
  assumes "login w cfg env input ctx s = (Inr tokens, s')" and "user_by_email (li_email input) s = Some user"
  shows "at_accessToken tokens = sign_access_token (aw_jwt w) cfg (pe_now env) (usr_id user)"
  using assms
  by (auto simp: login_def open_session_def reject_login_def throw_def seq_eq_Inr seq_reads ret_def split: if_splits)

lemma entitled_login_returns:
  assumes "user_by_email (li_email input) s = Some user" and "may_log_in w cfg (pe_now env) user input"
    and "session_free w cfg env s" and "usr_twoFactorSecretEnc user \<noteq> Some []"
  shows "\<exists>tokens s'. login w cfg env input ctx s = (Inr tokens, s')"
proof -
  note m = assms(2) [unfolded may_log_in_def]
  have "check_second_factor w cfg env user (li_totpCode input) s = (Inr (), s)"
    using m assms(4) by (auto simp: check_second_factor_def truthy_def totp_verify_def TOTP_WINDOW_def seq_def lift_def ret_def
        split: list.splits)
  moreover have "user \<in> set (users s)" using assms(1) find_SomeD by (fastforce simp: user_by_email_def)
  then have "\<exists>tokens s'. open_session w cfg env user ctx s = (Inr tokens, s')"
    by (rule open_session_returns [OF assms(3)])
  moreover have "\<not> (case usr_lockedUntil user of Some t \<Rightarrow> t > pe_now env | None \<Rightarrow> False)"
    using m by (auto split: option.splits)
  ultimately show ?thesis
    using m assms(1) by (auto simp: login_def seq_reads verifyPassword_def seq_Inr)
qed

lemma dead_token_refused:
  assumes "find (\<lambda>t. et_tokenHash t = emailHash (aw_hmac w) cfg raw) (emailTokens s) = Some t"
    and "et_consumedAt t \<noteq> None \<or> et_expiresAt t < pe_now env"
  shows "verifyEmail w cfg env raw s = (Inl (AppThrown (validation_error ''Invalid or expired verification token'' None)), s)"
  using assms by (auto simp: verifyEmail_def consume_email_token_def seq_def reads_def throw_def)

lemma registered_login_refused:
  assumes "argon_documented w" and "register w cfg env email password ctx s = (Inr (), s1)" and "user_by_email email s = None"
    and input: "li_email input = email" "li_password input = password"
  shows "login w cfg env' input ctx' s1 =
      (Inl (AppThrown (unauthorized_error ''Please verify your email before logging in'')), s1)"
proof -
  note r = register_result [OF assms(2,3)]
  let ?u = "registered_user w env email password"
  have "aw_argonVerify w (usr_passwordHash ?u) (li_password input) = Some True"
    using assms(1) input(2) by (simp add: argon_documented_def registered_user_def)
  moreover have "user_by_email (li_email input) s1 = Some ?u"
    unfolding user_by_email_def r(1) input(1) by (rule find_last) (use r(3) in \<open>auto simp: registered_user_def\<close>)
  ultimately show ?thesis
    by (simp add: login_def seq_reads verifyPassword_def reject_login_def throw_def) (simp add: registered_user_def)
qed

lemma verified_login_opens:
  assumes "argon_documented w" and "users t = us @ [verified_user now (registered_user w env email password)]"
    and "\<forall>u \<in> set us. usr_email u \<noteq> email" and input: "li_email input = email" "li_password input = password"
    and free: "session_free w cfg env3 t"
  shows "\<exists>tokens t'. login w cfg env3 input ctx3 t = (Inr tokens, t') \<and>
    at_accessToken tokens = sign_access_token (aw_jwt w) cfg (pe_now env3) (newId env ''c'' ''user'')"
proof -
  let ?v = "verified_user now (registered_user w env email password)"
  have found: "user_by_email (li_email input) t = Some ?v"
    unfolding user_by_email_def assms(2) input(1)
    by (rule find_last) (use assms(3) in \<open>auto simp: registered_user_def verified_user_def\<close>)
  have may: "may_log_in w cfg (pe_now env3) ?v input" "usr_twoFactorSecretEnc ?v \<noteq> Some []"
    using assms(1) input(2) by (simp_all add: may_log_in_def verified_user_def registered_user_def argon_documented_def)
  from entitled_login_returns [OF found may(1) free may(2)] obtain tokens t'
    where l: "login w cfg env3 input ctx3 t = (Inr tokens, t')" by blast
  with login_token [OF l found] show ?thesis by (auto simp: verified_user_def registered_user_def)
qed

text \<open>C22. A new account, from registration to the first session. Until its address is verified the
  right password is refused and nothing changes. The token that was mailed verifies it within
  twenty-four hours, once: a second use is refused, and after twenty-four hours the first one is.
  From then on the password the account was registered with opens a session of that account.\<close>

theorem account_lifecycle:
  assumes argon: "argon_documented w" and reg: "register w cfg env email password ctx s = (Inr (), s1)"
    and new: "user_by_email email s = None"
    and input: "li_email input = email" "li_password input = password"
  shows "login w cfg env' input ctx' s1 =
      (Inl (AppThrown (unauthorized_error ''Please verify your email before logging in'')), s1) \<and>
    (if pe_now env1 \<le> pe_now env + 24 * 3600000
     then \<exists>s2. verifyEmail w cfg env1 (randomToken env ''email_verification'') s1 = (Inr (), s2) \<and>
       verifyEmail w cfg env2 (randomToken env ''email_verification'') s2 =
         (Inl (AppThrown (validation_error ''Invalid or expired verification token'' None)), s2) \<and>
       (session_free w cfg env3 s2 \<longrightarrow>
          (\<exists>tokens s3. login w cfg env3 input ctx3 s2 = (Inr tokens, s3) \<and>
             at_accessToken tokens = sign_access_token (aw_jwt w) cfg (pe_now env3) (newId env ''c'' ''user'')))
     else verifyEmail w cfg env1 (randomToken env ''email_verification'') s1 =
       (Inl (AppThrown (validation_error ''Invalid or expired verification token'' None)), s1))"
proof -
  note r = register_result [OF reg new]
  note before = registered_login_refused [OF argon reg new input]
  let ?hash = "emailHash (aw_hmac w) cfg (randomToken env ''email_verification'')" and ?m = "mailed_token w cfg env"
  have mailed: "et_tokenHash ?m = ?hash" "et_expiresAt ?m = pe_now env + 24 * 3600000"
    by (simp_all add: mailed_token_def TTL_HOURS_def)
  show ?thesis
  proof (cases "pe_now env1 \<le> pe_now env + 24 * 3600000")
    case True
    let ?t = "?m\<lparr>et_consumedAt := Some (pe_now env1)\<rparr>"
    let ?v = "verified_user (pe_now env1) (registered_user w env email password)"
    define s2 where "s2 = s1\<lparr>emailTokens := emailTokens s @ [?t], users := users s @ [?v]\<rparr>"
    have verified: "verifyEmail w cfg env1 (randomToken env ''email_verification'') s1 = (Inr (), s2)"
      unfolding s2_def by (rule verify_result [OF reg new True])
    have "find (\<lambda>t. et_tokenHash t = ?hash) (emailTokens s2) = Some ?t"
      unfolding s2_def by simp (rule find_last, use r(4) in \<open>auto simp: mailed\<close>)
    then have again: "verifyEmail w cfg env2 (randomToken env ''email_verification'') s2 =
         (Inl (AppThrown (validation_error ''Invalid or expired verification token'' None)), s2)"
      by (rule dead_token_refused) simp
    have "users s2 = users s @ [?v]" "\<forall>u \<in> set (users s). usr_email u \<noteq> email" using r(3) by (simp_all add: s2_def)
    note opens = verified_login_opens [OF argon this input]
    show ?thesis using True before verified again opens by auto
  next
    case False
    have "find (\<lambda>t. et_tokenHash t = ?hash) (emailTokens s1) = Some ?m"
      unfolding r(2) by (rule find_last) (use r(4) in \<open>auto simp: mailed\<close>)
    with False before show ?thesis by (simp add: dead_token_refused mailed)
  qed
qed

section \<open>The second factor\<close>

lemma after_update_user:
  assumes "user_by_email (usr_email u) s = Some u" and "update_user (usr_id u) f s = (Inr (), s')"
    and "\<And>r. usr_email (f r) = usr_email r"
  shows "user_by_email (usr_email u) s' = Some (f u)"
proof -
  have "users s' = update_rows (\<lambda>r. usr_id r = usr_id u) f (users s)"
    using assms(2) by (simp add: update_user_def user_tbl.rows_after_update)
  then show ?thesis
    using assms(1) find_update_rows [of "\<lambda>r. usr_id r = usr_id u" "\<lambda>r. usr_email r = usr_email u" f "users s"]
    by (simp add: user_by_email_def assms(3))
qed

lemma same_user_by_id:
  assumes "user_by_id i s = Some u" and "update_user i f s = (Inr (), s')" and "\<And>r. usr_id (f r) = usr_id r"
  shows "user_by_id i s' = Some (f u)" "usr_id u = i"
proof -
  show "usr_id u = i" using assms(1) find_SomeD by (fastforce simp: user_by_id_def)
  moreover have "users s' = update_rows (\<lambda>r. usr_id r = i) f (users s)"
    using assms(2) by (simp add: update_user_def user_tbl.rows_after_update)
  ultimately show "user_by_id i s' = Some (f u)"
    using assms(1) find_update_rows [of "\<lambda>r. usr_id r = i" "\<lambda>r. usr_id r = i" f "users s"]
    by (simp add: user_by_id_def assms(3))
qed

lemma enable_result:
  assumes "user_by_id i s = Some u" and "enableTwoFactor w cfg env i s = (Inr (secret, url), s1)"
  shows "\<exists>enc. encryptSecret (aw_aead w) (pe_randomBytes env ''iv'' ''totp'') secret (cfg_encryptionKey cfg) = Inr enc \<and>
    update_user i (\<lambda>u. u\<lparr>usr_twoFactorSecretEnc := Some enc, usr_twoFactorEnabled := False\<rparr>) s = (Inr (), s1)"
  using assms
  by (auto simp: enableTwoFactor_def requireUser_def seq_reads seq_eq_Inr ret_def Let_def lift_def)

lemma confirm_result:
  assumes "user_by_id i s1 = Some u1" and "confirmTwoFactor w cfg env1 i code s1 = (Inr (), s2)"
  shows "\<exists>enc secret. usr_twoFactorSecretEnc u1 = Some enc \<and> decryptSecret (aw_aead w) enc (cfg_encryptionKey cfg) = Inr secret \<and>
    totp_verify w (pe_now env1) secret code \<and>
    update_user i (\<lambda>u. u\<lparr>usr_twoFactorEnabled := True\<rparr>) s1 = (Inr (), s2)"
  using assms
  by (auto simp: confirmTwoFactor_def requireUser_def seq_reads seq_eq_Inr ret_def lift_def throw_def truthy_def
      split: option.splits list.splits if_splits)


lemma sample_auth_documented: "argon_documented sample_auth" "aead_documented (aw_aead sample_auth)"
  by (simp_all add: argon_documented_def aead_documented_def sample_auth_def list_all_iff)

theorem account_lifecycle_witness:
  "\<exists>s1 s2 tokens s3. register sample_auth sample_config (sample_token_env 20) ''a@b.example'' ''pass123456'' sample_context empty_store =
      (Inr (), s1) \<and>
     verifyEmail sample_auth sample_config (sample_token_env 21) (randomToken (sample_token_env 20) ''email_verification'') s1 = (Inr (), s2) \<and>
     login sample_auth sample_config (sample_token_env 22) (sample_login ''pass123456'') sample_context s2 = (Inr tokens, s3)"
proof -
  let ?r = "register sample_auth sample_config (sample_token_env 20) ''a@b.example'' ''pass123456'' sample_context empty_store"
  have "case fst ?r of Inl e \<Rightarrow> False | Inr x \<Rightarrow> True"
    by (simp add: register_def seq_reads user_by_email_def empty_store_def Let_def issue_email_token_def audit_record_def eff_defs)
  then obtain s1 where r: "?r = (Inr (), s1)" by (cases ?r) (auto split: sum.splits)
  have new: "user_by_email ''a@b.example'' empty_store = None" by (simp add: user_by_email_def empty_store_def)
  have free: "session_free sample_auth sample_config (sample_token_env 22)
      (snd (verifyEmail sample_auth sample_config (sample_token_env 21) (randomToken (sample_token_env 20) ''email_verification'') s1))"
    using r verify_result [OF r new, of "sample_token_env 21"]
    by (auto simp: session_free_def sample_token_env_def register_def seq_reads user_by_email_def empty_store_def Let_def
        issue_email_token_def audit_record_def eff_defs)
  have input: "li_email (sample_login ''pass123456'') = ''a@b.example''" "li_password (sample_login ''pass123456'') = ''pass123456''"
    by (simp_all add: sample_login_def)
  have in_time: "pe_now (sample_token_env n) \<le> pe_now (sample_token_env m) + 24 * 3600000" for n m
    by (simp add: sample_token_env_def)
  obtain s2 where v: "verifyEmail sample_auth sample_config (sample_token_env 21)
      (randomToken (sample_token_env 20) ''email_verification'') s1 = (Inr (), s2)"
    and l: "session_free sample_auth sample_config (sample_token_env 22) s2 \<longrightarrow>
      (\<exists>tokens s3. login sample_auth sample_config (sample_token_env 22) (sample_login ''pass123456'') sample_context s2 = (Inr tokens, s3))"
    using account_lifecycle [OF sample_auth_documented(1) r new input, where ?env1.0 = "sample_token_env 21"
        and ?env3.0 = "sample_token_env 22" and ?ctx3.0 = sample_context and env' = "sample_token_env 20"
        and ctx' = sample_context and ?env2.0 = "sample_token_env 20"] in_time by auto
  show ?thesis using r v l free by auto
qed


end
