(* ===== verification/Webhook_Progress.thy ===== *)
theory Webhook_Progress
  imports Webhook_System
begin

text \<open>
  What dispatch passes achieve together: the queue of events without a delivery, oldest first, and
  how passes take it down by twenty-five at a time. The condition is the converse of the one under
  which \<open>dispatch_starves\<close> shows that a pass does nothing.
\<close>

definition waiting :: "outbox \<Rightarrow> webhook_event list" where
  "waiting s = sort_key evt_createdAt (filter (\<lambda>e. \<not> has_delivery s (evt_id e)) (events s))"

lemma dispatch_batch_waiting: "dispatch_batch s = take 25 (waiting s)"
  by (simp add: dispatch_batch_def waiting_def BATCH_SIZE_def)

text \<open>Every waiting event has somebody to hear of it.\<close>

definition all_heard :: "outbox \<Rightarrow> bool" where
  "all_heard s \<longleftrightarrow> (\<forall>e \<in> set (waiting s). enabled_endpoints s e \<noteq> [])"

text \<open>The pass meets no identifier collision and no secret that cannot be decrypted.\<close>

definition pass_goes_through :: "string \<Rightarrow> pass_env \<times> worlds \<Rightarrow> outbox \<Rightarrow> bool" where
  "pass_goes_through key p s \<longleftrightarrow>
     rows_fresh (fst p) (snd p) key (dispatch_pairs s) (deliveries s) \<and>
     (\<forall>x \<in> set (dispatch_pairs s). attempt_returns (snd p) key x)"

definition after_pass :: "string \<Rightarrow> pass_env \<times> worlds \<Rightarrow> outbox \<Rightarrow> outbox" where
  "after_pass key p s = snd (runWebhookDispatch (fst p) (snd p) key s)"

fun passes_go_through :: "string \<Rightarrow> (pass_env \<times> worlds) list \<Rightarrow> outbox \<Rightarrow> bool" where
  "passes_go_through key [] s = True"
| "passes_go_through key (p # ps) s = (pass_goes_through key p s \<and> passes_go_through key ps (after_pass key p s))"

lemma pass_result:
  assumes "pass_goes_through key p s"
  shows "runWebhookDispatch (fst p) (snd p) key s = (Inr (), after_pass key p s)"
    "after_pass key p s = s\<lparr>deliveries := deliveries s @ map (pair_row (fst p) (snd p) key) (dispatch_pairs s),
       sent := sent s @ concat (map (pair_log (snd p) key) (dispatch_pairs s))\<rparr>"
proof -
  have "runWebhookDispatch (fst p) (snd p) key s =
    (Inr (), s\<lparr>deliveries := deliveries s @ map (pair_row (fst p) (snd p) key) (dispatch_pairs s),
       sent := sent s @ concat (map (pair_log (snd p) key) (dispatch_pairs s))\<rparr>)"
    using assms unfolding pass_goes_through_def dispatch_pairs_loop by (intro dispatch_loop) simp_all
  then show "after_pass key p s = s\<lparr>deliveries := deliveries s @ map (pair_row (fst p) (snd p) key) (dispatch_pairs s),
       sent := sent s @ concat (map (pair_log (snd p) key) (dispatch_pairs s))\<rparr>"
    and "runWebhookDispatch (fst p) (snd p) key s = (Inr (), after_pass key p s)"
    by (simp_all add: after_pass_def)
qed

lemma pair_row_event: "whd_eventId (pair_row env ws key x) = evt_id (fst x)"
  by (simp add: pair_row_def first_row_def first_outcome_def delivered_def undelivered_def measured_def new_delivery_def Let_def
      split: sum.splits option.splits)

lemma drop_filter: "distinct xs \<Longrightarrow> filter (\<lambda>x. x \<notin> set (take n xs)) xs = drop n xs"
proof -
  assume d: "distinct xs"
  then have "distinct (take n xs @ drop n xs)" by simp
  then have disjoint: "set (take n xs) \<inter> set (drop n xs) = {}" by (simp only: distinct_append)
  have "filter (\<lambda>x. x \<notin> set (take n xs)) (take n xs @ drop n xs) = drop n xs"
    unfolding filter_append using disjoint by (auto simp: filter_id_conv filter_empty_conv)
  then show ?thesis by simp
qed

lemma pass_takes_batch:
  assumes "pass_goes_through key p s" and "all_heard s" and "distinct (map evt_id (events s))"
  shows "waiting (after_pass key p s) = drop 25 (waiting s)" "all_heard (after_pass key p s)"
    "events (after_pass key p s) = events s"
proof -
  let ?t = "after_pass key p s" and ?b = "take 25 (waiting s)"
  note t = pass_result(2) [OF assms(1)]
  show events: "events ?t = events s" by (simp add: t)
  have pairs: "evt_id ` fst ` set (dispatch_pairs s) = evt_id ` set ?b"
  proof -
    have "set (dispatch_pairs s) = (\<Union>e \<in> set ?b. Pair e ` set (enabled_endpoints s e))"
      by (simp add: dispatch_pairs_def dispatch_batch_waiting)
    moreover have "enabled_endpoints s e \<noteq> []" if "e \<in> set ?b" for e
      using assms(2) in_set_takeD [OF that] by (simp add: all_heard_def)
    ultimately have "fst ` set (dispatch_pairs s) = set ?b"
      by (auto simp: image_UN image_image image_constant_conv split: if_splits)
    then show ?thesis by simp
  qed
  have has: "has_delivery ?t i \<longleftrightarrow> has_delivery s i \<or> i \<in> evt_id ` set ?b" for i
    unfolding pairs [symmetric] by (simp add: t has_delivery_def list_ex_iff bex_Un pair_row_event image_image image_iff eq_commute)
  have sub: "set ?b \<subseteq> set (events s)"
    using set_take_subset [of 25 "waiting s"] by (auto simp: waiting_def)
  have same: "evt_id e \<in> evt_id ` set ?b \<longleftrightarrow> e \<in> set ?b" if "e \<in> set (events s)" for e
    using that sub assms(3) by (auto simp: distinct_map inj_on_def)
  have "filter (\<lambda>e. \<not> has_delivery ?t (evt_id e)) (events s) =
      filter (\<lambda>e. e \<notin> set ?b) (filter (\<lambda>e. \<not> has_delivery s (evt_id e)) (events s))"
    unfolding filter_filter by (rule filter_cong [OF refl]) (simp add: has same)
  then have "waiting ?t = sort_key evt_createdAt (filter (\<lambda>e. e \<notin> set ?b) (filter (\<lambda>e. \<not> has_delivery s (evt_id e)) (events s)))"
    by (simp add: waiting_def events)
  also have "\<dots> = filter (\<lambda>e. e \<notin> set ?b) (waiting s)" by (simp add: waiting_def filter_sort)
  also have "\<dots> = drop 25 (waiting s)"
    using assms(3) by (intro drop_filter) (simp add: waiting_def distinct_map)
  finally show w: "waiting ?t = drop 25 (waiting s)" .
  show "all_heard ?t"
    using assms(2) unfolding all_heard_def w by (auto simp: t enabled_endpoints_def dest: in_set_dropD)
qed

lemma passes_take_batches:
  assumes "passes_go_through key ps s" and "all_heard s" and "distinct (map evt_id (events s))"
  shows "waiting (fold (after_pass key) ps s) = drop (25 * length ps) (waiting s)"
  using assms
proof (induction ps arbitrary: s)
  case Nil
  then show ?case by simp
next
  case (Cons p ps)
  note step = pass_takes_batch [of key p s]
  show ?case using Cons.prems Cons.IH [of "after_pass key p s"] step by (simp add: add.commute)
qed

text \<open>C27. While every waiting event has an enabled endpoint, dispatch passes work through the events in
  their order: each pass takes the twenty-five oldest waiting ones, so as many passes as there
  are batches leave nothing waiting, and every event has then a delivery (nothing else
  happening in between, and no pass failing).\<close>

theorem dispatch_drains:
  assumes "passes_go_through key ps s" and "all_heard s" and "distinct (map evt_id (events s))"
  shows "waiting (fold (after_pass key) ps s) = drop (25 * length ps) (waiting s) \<and>
    (length (waiting s) \<le> 25 * length ps \<longrightarrow>
       (\<forall>e \<in> set (events s). has_delivery (fold (after_pass key) ps s) (evt_id e)))"
proof -
  note w = passes_take_batches [OF assms]
  have same: "events (fold (after_pass key) ps s) = events s"
    using assms
  proof (induction ps arbitrary: s)
    case (Cons p ps)
    note step = pass_takes_batch [of key p s]
    show ?case using Cons.prems Cons.IH [of "after_pass key p s"] step by simp
  qed simp
  have "\<forall>e \<in> set (events s). has_delivery (fold (after_pass key) ps s) (evt_id e)"
    if "length (waiting s) \<le> 25 * length ps"
  proof -
    have "waiting (fold (after_pass key) ps s) = []" using w that by simp
    then have "filter (\<lambda>e. \<not> has_delivery (fold (after_pass key) ps s) (evt_id e)) (events s) = []"
      unfolding waiting_def same by (metis length_0_conv length_sort)
    then show ?thesis by (simp add: filter_empty_conv)
  qed
  with w show ?thesis by blast
qed

theorem dispatch_drains_witness:
  "has_delivery (fold (after_pass sample_key) [(sample_env, \<lambda>_ _. sample_world 503)]
     (sample_outbox [sample_event ''evt_1'' ''org_1'' 900])) ''evt_1''"
proof -
  let ?s = "sample_outbox [sample_event ''evt_1'' ''org_1'' 900]"
  have pairs: "dispatch_pairs ?s = [(sample_event ''evt_1'' ''org_1'' 900, sample_endpoint)]"
    by (simp add: dispatch_pairs_def dispatch_batch_def enabled_endpoints_def has_delivery_def BATCH_SIZE_def
        sample_outbox_def sample_event_def sample_endpoint_def)
  have waits: "waiting ?s = [sample_event ''evt_1'' ''org_1'' 900]"
    by (simp add: waiting_def has_delivery_def sample_outbox_def)
  have none: "deliveries ?s = []" and evs: "events ?s = [sample_event ''evt_1'' ''org_1'' 900]"
    and id: "evt_id (sample_event ''evt_1'' ''org_1'' 900) = ''evt_1''"
    by (simp_all add: sample_outbox_def sample_event_def)
  have "case snd (attempt_made (\<lambda>_ _. sample_world 503) sample_key (sample_event ''evt_1'' ''org_1'' 900) sample_endpoint) of
      Inr r \<Rightarrow> True | Inl t \<Rightarrow> False" by code_simp
  then have "attempt_returns (\<lambda>_ _. sample_world 503) sample_key (sample_event ''evt_1'' ''org_1'' 900, sample_endpoint)"
    by (simp add: attempt_returns_def split: sum.splits)
  then have passes: "passes_go_through sample_key [(sample_env, \<lambda>_ _. sample_world 503)] ?s"
    by (simp add: pass_goes_through_def pairs none)
  have "all_heard ?s"
    by (simp add: all_heard_def waits) (simp add: enabled_endpoints_def sample_outbox_def sample_endpoint_def sample_event_def)
  from dispatch_drains [OF passes this] show ?thesis by (simp add: evs waits id)
qed

end
