(* ===== verification/Confidential.thy ===== *)
theory Confidential
  imports Tenants
begin

text \<open>
  What a reading route can tell: \<open>same_tenant\<close> relates two databases that agree on the rows of one
  organization and on the e-mail addresses of its members, and may differ in everything else.
  \<open>Tenants\<close> shows that organizations do not change each other's rows; here they do not see them.
\<close>

section \<open>Databases that agree on one organization\<close>

definition own :: "('r \<Rightarrow> ident) \<Rightarrow> ident \<Rightarrow> 'r list \<Rightarrow> 'r list" where
  "own organization_of organizationId rows = filter (\<lambda>r. organization_of r = organizationId) rows"

definition member_email :: "store \<Rightarrow> membership \<Rightarrow> (ident \<times> string) option" where
  "member_email s m = map_option (\<lambda>u. (usr_id u, usr_email u)) (user_by_id (mem_userId m) s)"

definition endpoint_history :: "store \<Rightarrow> ident \<Rightarrow> (webhook_delivery \<times> webhook_event option) list" where
  "endpoint_history s i =
     map (\<lambda>d. (d, find (\<lambda>e. evt_id e = whd_eventId d) (events s))) (filter (\<lambda>d. whd_endpointId d = i) (deliveries s))"

definition same_tenant :: "ident \<Rightarrow> store \<Rightarrow> store \<Rightarrow> bool" where
  "same_tenant org s s' \<longleftrightarrow>
     organization_by_id org s = organization_by_id org s' \<and>
     own inv_organizationId org (invoices s) = own inv_organizationId org (invoices s') \<and>
     own key_organizationId org (apiKeys s) = own key_organizationId org (apiKeys s') \<and>
     own wal_organizationId org (wallets s) = own wal_organizationId org (wallets s') \<and>
     own we_organizationId org (endpoints s) = own we_organizationId org (endpoints s') \<and>
     own mem_organizationId org (memberships s) = own mem_organizationId org (memberships s') \<and>
     map (member_email s) (own mem_organizationId org (memberships s)) =
       map (member_email s') (own mem_organizationId org (memberships s')) \<and>
     map (\<lambda>p. endpoint_history s (we_id p)) (own we_organizationId org (endpoints s)) =
       map (\<lambda>p. endpoint_history s' (we_id p)) (own we_organizationId org (endpoints s'))"

lemma find_own: "find (\<lambda>r. key r = i \<and> org_of r = org) rows = find (\<lambda>r. key r = i) (own org_of org rows)"
  by (induction rows) (auto simp: own_def)

lemma sort_history:
  "sort_key (\<lambda>x. f (fst x)) (map (\<lambda>d. (d, g d)) ds) = map (\<lambda>d. (d, g d)) (sort_key f ds)"
proof -
  have "insort_key (\<lambda>x. f (fst x)) (d, g d) (map (\<lambda>d. (d, g d)) ds) = map (\<lambda>d. (d, g d)) (insort_key f d ds)" for d ds
    by (induction ds) auto
  then show ?thesis by (induction ds) (simp_all add: sort_key_def)
qed

lemma listDeliveries_history:
  "listDeliveries org i n s =
     (case find (\<lambda>p. we_id p = i) (own we_organizationId org (endpoints s)) of
        None \<Rightarrow> Inl (AppThrown (not_found_error ''Webhook endpoint not found''))
      | Some p \<Rightarrow> Inr (take n (sort_key (\<lambda>x. - whd_createdAt (fst x)) (endpoint_history s (we_id p)))))"
proof (cases "find (\<lambda>p. we_id p = i) (own we_organizationId org (endpoints s))")
  case (Some p)
  then have "we_id p = i" using find_SomeD by fastforce
  with Some show ?thesis
    by (simp add: listDeliveries_def endpoint_of_def find_own endpoint_history_def take_map
        sort_history [of "\<lambda>d. - whd_createdAt d"])
qed (simp add: listDeliveries_def endpoint_of_def find_own)

text \<open>Every reading service answers the same.\<close>

lemma reading_services:
  assumes "same_tenant org s s'"
  shows "organization_by_id org s = organization_by_id org s'" "listMembers org s = listMembers org s'"
    "list_api_keys org s = list_api_keys org s'" "list_wallets org s = list_wallets org s'"
    "list_endpoints org s = list_endpoints org s'" "list_invoices org page limit s = list_invoices org page limit s'"
    "getById org i s = getById org i s'" "listDeliveries org i n s = listDeliveries org i n s'"
proof -
  note same = assms [unfolded same_tenant_def]
  show "organization_by_id org s = organization_by_id org s'" "list_api_keys org s = list_api_keys org s'"
    "list_wallets org s = list_wallets org s'" "list_endpoints org s = list_endpoints org s'"
    "list_invoices org page limit s = list_invoices org page limit s'"
    using same by (simp_all add: own_def list_api_keys_def list_wallets_def list_endpoints_def list_invoices_def newest_first_def)
  show "getById org i s = getById org i s'" using same by (simp add: getById_def find_own)
  have "member_email s m = member_email s' m" if "m \<in> set (own mem_organizationId org (memberships s'))" for m
    using same that by (metis map_eq_conv)
  then show "listMembers org s = listMembers org s'"
    using same by (auto simp: listMembers_def own_def member_email_def)
  have history: "endpoint_history s (we_id p) = endpoint_history s' (we_id p)"
    if "p \<in> set (own we_organizationId org (endpoints s'))" for p
    using same that by (metis (mono_tags, lifting) map_eq_conv)
  have "p \<in> set ps" if "find P ps = Some p" for P p and ps :: "webhook_endpoint list" using that find_SomeD by fastforce
  then show "listDeliveries org i n s = listDeliveries org i n s'"
    using same history by (auto simp: listDeliveries_history split: option.split)
qed

section \<open>The reading routes\<close>

fun reading :: "call \<Rightarrow> bool" where
  "reading Org_get_mine = True"
| "reading Org_list_members = True"
| "reading Keys_list = True"
| "reading (Invoices_get i) = True"
| "reading Wallets_list = True"
| "reading Endpoints_list = True"
| "reading (Dashboard_invoices_list page limit) = True"
| "reading (Dashboard_invoices_get i) = True"
| "reading Dashboard_webhooks_list = True"
| "reading (Dashboard_webhooks_deliveries i) = True"
| "reading _ = False"

text \<open>The guards of such a route.\<close>

definition entry :: "api_world \<Rightarrow> pass_env \<Rightarrow> call \<Rightarrow> guard" where
  "entry w env c =
     (case c of
        Invoices_get i \<Rightarrow> merchant_guards (aw_hmac (wd_auth w)) (wd_cfg w) (pe_now env) [Invoices_read]
      | Endpoints_list \<Rightarrow> merchant_guards (aw_hmac (wd_auth w)) (wd_cfg w) (pe_now env) [Webhooks_read]
      | _ \<Rightarrow> dashboard_guards (aw_jwt (wd_auth w)) (wd_cfg w) (pe_now env))"

lemma dashboard_guards_read_only: "dashboard_guards j cfg now q s = (Inr q', t) \<Longrightarrow> t = s"
  by (auto simp: dashboard_guards_def SessionAuthGuard_def OrganizationScopeGuard_def seq_eq_Inr ret_def throw_def reads_def
      split: option.splits sum.splits if_splits)

lemma merchant_guards_stamp_only:
  assumes "merchant_guards hmac cfg now scopes q s = (Inr q', t)"
  shows "invoices t = invoices s" "endpoints t = endpoints s"
proof -
  have "without_usage t = without_usage s"
    using merchant_guard.writes_usage_only [of "(hmac, cfg, now, scopes)" q s] assms by simp
  from arg_cong [OF this, of invoices] arg_cong [OF this, of endpoints]
  show "invoices t = invoices s" "endpoints t = endpoints s" by (simp_all add: without_usage_def)
qed

text \<open>A handler behind a guard: its answer is the service's, on the database the guard left.\<close>

lemma as_member_answer:
  assumes "dashboard_guards (aw_jwt (wd_auth w)) (wd_cfg w) (pe_now env) q s = (Inr q', t)" and "rq_organizationId q' = Some org"
    and "org \<noteq> []"
  shows "as_member w env q h s = h org s"
  using assms dashboard_guards_read_only [OF assms(1)]
  by (cases org) (simp_all add: as_member_def seq_def CurrentOrganizationId_def truthy_def ret_def)

lemma as_merchant_same:
  assumes "merchant_guards (aw_hmac (wd_auth w)) (wd_cfg w) (pe_now env) scopes q s = (Inr q', t)"
    and "merchant_guards (aw_hmac (wd_auth w)) (wd_cfg w) (pe_now env) scopes q s' = (Inr q', t')"
    and "rq_organizationId q' = Some org" and "org \<noteq> []" and "fst (h org t) = fst (h org t')"
  shows "fst (as_merchant w env q scopes (\<lambda>organizationId _. h organizationId) s) =
    fst (as_merchant w env q scopes (\<lambda>organizationId _. h organizationId) s')"
  using assms
  by (cases org) (auto simp: as_merchant_def seq_def CurrentOrganizationId_def CurrentApiKeyId_def truthy_def ret_def throw_def
      split: option.split list.split)

lemma no_organization:
  assumes "rq_organizationId q' = Some []"
  shows "CurrentOrganizationId q' s = (Inl (AppThrown (forbidden_error ''No organization context for this request'')), s)"
  using assms by (simp add: CurrentOrganizationId_def truthy_def throw_def)

text \<open>A reading route: on two databases that let the caller in for the same organization. First when
  the organization is the empty text, then the merchant's routes, then the dashboard's.\<close>

lemma reading_without_organization:
  assumes "reading c" and "entry w env c q s = (Inr q', t)" and "entry w env c q s' = (Inr q', t')"
    and "rq_organizationId q' = Some []" and m: "\<And>r. tenant_call w env r q c = Some m"
  shows "fst (m s) = fst (m s')"
proof -
  note none = no_organization [OF assms(4)]
  show ?thesis
    using assms(1-3) m
    by (cases c) (auto simp: entry_def org_get_mine_def org_list_members_def keys_list_def invoices_get_def wallets_list_def
        endpoints_list_def dashboard_invoices_list_def dashboard_invoices_get_def dashboard_webhooks_list_def
        dashboard_webhooks_deliveries_def as_member_def as_merchant_def seq_def none)
qed

lemma merchant_reading:
  assumes "c = Endpoints_list \<or> c = Invoices_get i" and "entry w env c q s = (Inr q', t)"
    and "entry w env c q s' = (Inr q', t')" and "rq_organizationId q' = Some org" and "org \<noteq> []"
    and "same_tenant org s s'" and m: "\<And>r. tenant_call w env r q c = Some m"
  shows "fst (m s) = fst (m s')"
proof -
  note same = reading_services [OF assms(6)]
  obtain scopes where g: "merchant_guards (aw_hmac (wd_auth w)) (wd_cfg w) (pe_now env) scopes q s = (Inr q', t)"
    "merchant_guards (aw_hmac (wd_auth w)) (wd_cfg w) (pe_now env) scopes q s' = (Inr q', t')"
    and k: "c = Invoices_get i \<and> scopes = [Invoices_read] \<or> c = Endpoints_list \<and> scopes = [Webhooks_read]"
    using assms(1-3) by (auto simp: entry_def)
  have own_t: "getById org j t = getById org j t'" "list_endpoints org t = list_endpoints org t'" for j
    using same(5,7) merchant_guards_stamp_only [OF g(1)] merchant_guards_stamp_only [OF g(2)]
    by (simp_all add: getById_def list_endpoints_def)
  note answer = as_merchant_same [OF g assms(4,5)]
  from k show ?thesis
  proof (elim disjE conjE)
    assume c: "c = Invoices_get i" "scopes = [Invoices_read]"
    show ?thesis
      using m [of "\<lambda>_. None"] answer [where h = "\<lambda>o'. seq (reads (getById o' i)) (\<lambda>found. lift (map_sum id (invoice_body w env) found))"]
      by (auto simp: c invoices_get_def eff_defs own_t)
  next
    assume c: "c = Endpoints_list" "scopes = [Webhooks_read]"
    show ?thesis
      using m [of "\<lambda>_. None"] answer [where h = "\<lambda>o'. seq (reads (list_endpoints o')) (\<lambda>es. ret (B_endpoints (map toWebhookEndpointView es)))"]
      by (auto simp: c endpoints_list_def eff_defs own_t)
  qed
qed

lemma dashboard_reading:
  assumes "reading c" and "c \<noteq> Endpoints_list" and "\<And>i. c \<noteq> Invoices_get i"
    and "entry w env c q s = (Inr q', t)" and "entry w env c q s' = (Inr q', t')" and org: "rq_organizationId q' = Some org" "org \<noteq> []"
    and "same_tenant org s s'" and m: "\<And>r. tenant_call w env r q c = Some m"
  shows "fst (m s) = fst (m s')"
proof -
  have g: "dashboard_guards (aw_jwt (wd_auth w)) (wd_cfg w) (pe_now env) q s = (Inr q', t)"
    "dashboard_guards (aw_jwt (wd_auth w)) (wd_cfg w) (pe_now env) q s' = (Inr q', t')"
    using assms(1-5) by (cases c; simp add: entry_def)+
  show ?thesis
    using assms(1-3) m [of "\<lambda>_. None"] reading_services [OF assms(8)]
    by (cases c) (auto simp: org_get_mine_def org_list_members_def keys_list_def wallets_list_def
        dashboard_invoices_list_def dashboard_invoices_get_def dashboard_webhooks_list_def
        dashboard_webhooks_deliveries_def as_member_answer [OF g(1) org] as_member_answer [OF g(2) org]
        pipe_def seq_def reads_def lift_def throw_def ret_def split: option.split sum.split prod.split)
qed

text \<open>C14. Organizations do not see each other. The answer of a reading route, to a caller that the
  guards let in for an organization, is determined by that organization's own rows and its
  members' addresses: on two databases that agree on those it is the same, whatever the rows
  of other organizations are.\<close>

theorem reads_tell_own_rows:
  assumes "reading c" and "entry w env c q (ap_store (sv_api v)) = (Inr q', t)"
    and "entry w env c q (ap_store (sv_api v')) = (Inr q', t')" and "rq_organizationId q' = Some org"
    and "same_tenant org (ap_store (sv_api v)) (ap_store (sv_api v'))"
  shows "fst (api w env q c v) = fst (api w env q c v')"
proof -
  obtain m where m: "\<And>r. tenant_call w env r q c = Some m" using assms(1) by (cases c) auto
  have "fst (m (ap_store (sv_api v))) = fst (m (ap_store (sv_api v')))"
  proof (cases "org = []")
    case True
    with assms(4) show ?thesis using reading_without_organization [OF assms(1-3) _ m] by blast
  next
    case False
    show ?thesis
    proof (cases "\<exists>i. c = Endpoints_list \<or> c = Invoices_get i")
      case True
      then show ?thesis using merchant_reading [OF _ assms(2-4) False assms(5) m] by blast
    next
      case other: False
      then show ?thesis using dashboard_reading [OF assms(1) _ _ assms(2-4) False assms(5) m] by blast
    qed
  qed
  then show ?thesis using api_tenant(2) [OF m] by metis
qed

text \<open>Another organization's key makes no difference to what a member is told.\<close>

definition foreign_rows :: "store \<Rightarrow> store" where
  "foreign_rows s = s\<lparr>apiKeys := apiKeys s @
     [\<lparr>key_id = ''k9'', key_organizationId = ''org_9'', key_name = ''ci'', key_environment = Env_live, key_prefix = ''cp_live_ab'',
       key_hash = ''h'', key_scopes = [Invoices_read], key_lastUsedAt = None, key_expiresAt = None, key_revokedAt = None,
       key_createdAt = 7\<rparr>]\<rparr>"

theorem reads_tell_own_rows_witness:
  "fst (api sample_api sample_key_env sample_request Keys_list sample_server) =
     fst (api sample_api sample_key_env sample_request Keys_list
       (sample_server\<lparr>sv_api := idle_state\<lparr>ap_store := foreign_rows sample_members\<rparr>\<rparr>)) \<and>
   filter (\<lambda>k. key_organizationId k = ''org_9'') (apiKeys (foreign_rows sample_members)) \<noteq> []"
proof -
  let ?v = "sample_server\<lparr>sv_api := idle_state\<lparr>ap_store := foreign_rows sample_members\<rparr>\<rparr>"
  have stores: "ap_store (sv_api sample_server) = sample_members" "ap_store (sv_api ?v) = foreign_rows sample_members"
    by (simp_all add: sample_server_def)
  let ?g = "\<lambda>s. entry sample_api sample_key_env Keys_list sample_request s"
  have same: "fst (?g (foreign_rows s)) = fst (?g s)" for s
    by (simp add: entry_def dashboard_guards_def SessionAuthGuard_def OrganizationScopeGuard_def memberships_of_def
        foreign_rows_def eff_defs split: option.split sum.split)
  have "case fst (?g sample_members) of Inl e \<Rightarrow> False | Inr q' \<Rightarrow> rq_organizationId q' = Some ''org_1''" by code_simp
  then obtain q' where q': "fst (?g sample_members) = Inr q'" "rq_organizationId q' = Some ''org_1''"
    by (auto split: sum.splits)
  obtain t t' where g: "?g (ap_store (sv_api sample_server)) = (Inr q', t)" "?g (ap_store (sv_api ?v)) = (Inr q', t')"
    using q'(1) same [of sample_members] unfolding stores by (metis prod.collapse)
  have "same_tenant ''org_1'' (ap_store (sv_api sample_server)) (ap_store (sv_api ?v))"
    unfolding stores
    by (simp add: same_tenant_def own_def foreign_rows_def sample_members_def organization_by_id_def member_email_def
        user_by_id_def empty_store_def)
  from reads_tell_own_rows [OF _ g q'(2) this] show ?thesis
    by (simp add: foreign_rows_def)
qed

end
