(* ===== verification/Wiring.thy ===== *)
theory Wiring
  imports Env_Config
begin

text \<open>
  The modules of the API and what Nest injects (\<open>apps/api/src/app.module.ts\<close>, the \<open>*.module.ts\<close>
  files, the constructors of the services, guards and controllers). As Nest documents it, a
  class gets what its module provides itself, what an imported module exports, or what a global
  module exports; guards are built in the module of the controller that uses them; \<open>Reflector\<close>
  is Nest's own. \<open>params\<close> are the arguments of a constructor, \<open>guards\<close> the classes
  \<open>UseGuards\<close> names in a controller.
\<close>

section \<open>What is injected\<close>

datatype injectable =
    The_ENV | The_APP_FILTER | The_Reflector | The_BLOCKCHAIN_ADAPTER_REGISTRY
  | The_PrismaService | The_RedisService | The_AuditService | The_AccessTokenService
  | The_RefreshTokenService | The_EmailVerificationService | The_TotpService | The_AuthService
  | The_OrganizationsService | The_ApiKeysService | The_BlockchainAdapterRegistry
  | The_WalletAddressesService | The_InvoicesService | The_PaymentsService
  | The_WebhookEndpointsService | The_CheckoutService | The_ApiKeyAuthGuard
  | The_SessionAuthGuard | The_OrganizationScopeGuard | The_RolesGuard | The_ScopesGuard
  | The_RedisRateLimitGuard | The_AuthController | The_OrganizationsController
  | The_ApiKeysController | The_InvoicesController | The_PaymentsController
  | The_WebhookEndpointsController | The_WalletAddressesController | The_CheckoutController
  | The_DashboardInvoicesController | The_DashboardWebhooksController | The_CsrfGuard
  | The_HealthController

record wiring =
  params :: "injectable list"
  guards :: "injectable list"

definition built_from :: "injectable list \<Rightarrow> wiring" where
  "built_from ps = \<lparr>params = ps, guards = []\<rparr>"

definition BLOCKCHAIN_ADAPTER_REGISTRY_wiring :: wiring where
  "BLOCKCHAIN_ADAPTER_REGISTRY_wiring = built_from [The_ENV]"

definition PrismaService_wiring :: wiring where
  "PrismaService_wiring = built_from [The_ENV]"

definition RedisService_wiring :: wiring where
  "RedisService_wiring = built_from [The_ENV]"

definition AuditService_wiring :: wiring where
  "AuditService_wiring = built_from [The_PrismaService]"

definition AccessTokenService_wiring :: wiring where
  "AccessTokenService_wiring = built_from [The_ENV]"

definition RefreshTokenService_wiring :: wiring where
  "RefreshTokenService_wiring = built_from [The_ENV, The_PrismaService]"

definition EmailVerificationService_wiring :: wiring where
  "EmailVerificationService_wiring = built_from [The_ENV, The_PrismaService]"

definition TotpService_wiring :: wiring where
  "TotpService_wiring = built_from []"

definition AuthService_wiring :: wiring where
  "AuthService_wiring =
     built_from [The_ENV, The_PrismaService, The_AccessTokenService, The_RefreshTokenService, The_EmailVerificationService, The_TotpService, The_AuditService]"

definition OrganizationsService_wiring :: wiring where
  "OrganizationsService_wiring = built_from [The_PrismaService, The_AuditService]"

definition ApiKeysService_wiring :: wiring where
  "ApiKeysService_wiring = built_from [The_ENV, The_PrismaService, The_AuditService]"

definition BlockchainAdapterRegistry_wiring :: wiring where
  "BlockchainAdapterRegistry_wiring = built_from [The_BLOCKCHAIN_ADAPTER_REGISTRY]"

definition WalletAddressesService_wiring :: wiring where
  "WalletAddressesService_wiring =
     built_from [The_PrismaService, The_AuditService, The_BlockchainAdapterRegistry, The_ENV]"

definition InvoicesService_wiring :: wiring where
  "InvoicesService_wiring =
     built_from [The_PrismaService, The_AuditService, The_WalletAddressesService]"

definition PaymentsService_wiring :: wiring where
  "PaymentsService_wiring = built_from [The_PrismaService, The_ENV, The_BlockchainAdapterRegistry]"

definition WebhookEndpointsService_wiring :: wiring where
  "WebhookEndpointsService_wiring = built_from [The_ENV, The_PrismaService, The_AuditService]"

definition CheckoutService_wiring :: wiring where
  "CheckoutService_wiring = built_from [The_PrismaService]"

definition ApiKeyAuthGuard_wiring :: wiring where
  "ApiKeyAuthGuard_wiring = built_from [The_ENV, The_PrismaService]"

definition SessionAuthGuard_wiring :: wiring where
  "SessionAuthGuard_wiring = built_from [The_AccessTokenService]"

definition OrganizationScopeGuard_wiring :: wiring where
  "OrganizationScopeGuard_wiring = built_from [The_PrismaService]"

definition RolesGuard_wiring :: wiring where
  "RolesGuard_wiring = built_from [The_Reflector]"

definition ScopesGuard_wiring :: wiring where
  "ScopesGuard_wiring = built_from [The_Reflector]"

definition RedisRateLimitGuard_wiring :: wiring where
  "RedisRateLimitGuard_wiring = built_from [The_Reflector, The_RedisService, The_ENV]"

definition AuthController_wiring :: wiring where
  "AuthController_wiring =
     \<lparr>params = [The_ENV, The_AuthService],
      guards = [The_RedisRateLimitGuard, The_CsrfGuard, The_SessionAuthGuard]\<rparr>"

definition OrganizationsController_wiring :: wiring where
  "OrganizationsController_wiring =
     \<lparr>params = [The_OrganizationsService],
      guards = [The_SessionAuthGuard, The_CsrfGuard, The_OrganizationScopeGuard, The_RolesGuard]\<rparr>"

definition ApiKeysController_wiring :: wiring where
  "ApiKeysController_wiring =
     \<lparr>params = [The_ApiKeysService],
      guards = [The_SessionAuthGuard, The_OrganizationScopeGuard, The_RolesGuard, The_CsrfGuard]\<rparr>"

definition InvoicesController_wiring :: wiring where
  "InvoicesController_wiring =
     \<lparr>params = [The_ENV, The_InvoicesService],
      guards = [The_ApiKeyAuthGuard, The_ScopesGuard]\<rparr>"

definition PaymentsController_wiring :: wiring where
  "PaymentsController_wiring =
     \<lparr>params = [The_ENV, The_PaymentsService],
      guards = [The_ApiKeyAuthGuard, The_ScopesGuard]\<rparr>"

definition WebhookEndpointsController_wiring :: wiring where
  "WebhookEndpointsController_wiring =
     \<lparr>params = [The_WebhookEndpointsService],
      guards = [The_ApiKeyAuthGuard, The_ScopesGuard]\<rparr>"

definition WalletAddressesController_wiring :: wiring where
  "WalletAddressesController_wiring =
     \<lparr>params = [The_WalletAddressesService],
      guards = [The_SessionAuthGuard, The_OrganizationScopeGuard, The_RolesGuard, The_CsrfGuard]\<rparr>"

definition CheckoutController_wiring :: wiring where
  "CheckoutController_wiring =
     \<lparr>params = [The_CheckoutService, The_PaymentsService],
      guards = [The_RedisRateLimitGuard]\<rparr>"

definition DashboardInvoicesController_wiring :: wiring where
  "DashboardInvoicesController_wiring =
     \<lparr>params = [The_ENV, The_InvoicesService],
      guards = [The_SessionAuthGuard, The_OrganizationScopeGuard]\<rparr>"

definition DashboardWebhooksController_wiring :: wiring where
  "DashboardWebhooksController_wiring =
     \<lparr>params = [The_WebhookEndpointsService],
      guards = [The_SessionAuthGuard, The_OrganizationScopeGuard, The_RolesGuard, The_CsrfGuard]\<rparr>"

fun wiring_of :: "injectable \<Rightarrow> wiring" where
  "wiring_of The_BLOCKCHAIN_ADAPTER_REGISTRY = BLOCKCHAIN_ADAPTER_REGISTRY_wiring"
| "wiring_of The_PrismaService = PrismaService_wiring"
| "wiring_of The_RedisService = RedisService_wiring"
| "wiring_of The_AuditService = AuditService_wiring"
| "wiring_of The_AccessTokenService = AccessTokenService_wiring"
| "wiring_of The_RefreshTokenService = RefreshTokenService_wiring"
| "wiring_of The_EmailVerificationService = EmailVerificationService_wiring"
| "wiring_of The_TotpService = TotpService_wiring"
| "wiring_of The_AuthService = AuthService_wiring"
| "wiring_of The_OrganizationsService = OrganizationsService_wiring"
| "wiring_of The_ApiKeysService = ApiKeysService_wiring"
| "wiring_of The_BlockchainAdapterRegistry = BlockchainAdapterRegistry_wiring"
| "wiring_of The_WalletAddressesService = WalletAddressesService_wiring"
| "wiring_of The_InvoicesService = InvoicesService_wiring"
| "wiring_of The_PaymentsService = PaymentsService_wiring"
| "wiring_of The_WebhookEndpointsService = WebhookEndpointsService_wiring"
| "wiring_of The_CheckoutService = CheckoutService_wiring"
| "wiring_of The_ApiKeyAuthGuard = ApiKeyAuthGuard_wiring"
| "wiring_of The_SessionAuthGuard = SessionAuthGuard_wiring"
| "wiring_of The_OrganizationScopeGuard = OrganizationScopeGuard_wiring"
| "wiring_of The_RolesGuard = RolesGuard_wiring"
| "wiring_of The_ScopesGuard = ScopesGuard_wiring"
| "wiring_of The_RedisRateLimitGuard = RedisRateLimitGuard_wiring"
| "wiring_of The_AuthController = AuthController_wiring"
| "wiring_of The_OrganizationsController = OrganizationsController_wiring"
| "wiring_of The_ApiKeysController = ApiKeysController_wiring"
| "wiring_of The_InvoicesController = InvoicesController_wiring"
| "wiring_of The_PaymentsController = PaymentsController_wiring"
| "wiring_of The_WebhookEndpointsController = WebhookEndpointsController_wiring"
| "wiring_of The_WalletAddressesController = WalletAddressesController_wiring"
| "wiring_of The_CheckoutController = CheckoutController_wiring"
| "wiring_of The_DashboardInvoicesController = DashboardInvoicesController_wiring"
| "wiring_of The_DashboardWebhooksController = DashboardWebhooksController_wiring"
| "wiring_of _ = built_from []"

lemmas wiring_defs = built_from_def BLOCKCHAIN_ADAPTER_REGISTRY_wiring_def PrismaService_wiring_def
  RedisService_wiring_def AuditService_wiring_def AccessTokenService_wiring_def
  RefreshTokenService_wiring_def EmailVerificationService_wiring_def TotpService_wiring_def
  AuthService_wiring_def OrganizationsService_wiring_def ApiKeysService_wiring_def
  BlockchainAdapterRegistry_wiring_def WalletAddressesService_wiring_def InvoicesService_wiring_def
  PaymentsService_wiring_def WebhookEndpointsService_wiring_def CheckoutService_wiring_def
  ApiKeyAuthGuard_wiring_def SessionAuthGuard_wiring_def OrganizationScopeGuard_wiring_def
  RolesGuard_wiring_def ScopesGuard_wiring_def RedisRateLimitGuard_wiring_def AuthController_wiring_def
  OrganizationsController_wiring_def ApiKeysController_wiring_def InvoicesController_wiring_def
  PaymentsController_wiring_def WebhookEndpointsController_wiring_def WalletAddressesController_wiring_def
  CheckoutController_wiring_def DashboardInvoicesController_wiring_def
  DashboardWebhooksController_wiring_def

section \<open>Modules\<close>

datatype module_class =
    App_module | Config_module | Database_module | Redis_module | Audit_module | Auth_module
  | Organizations_module | ApiKeys_module | Invoices_module | Payments_module | Webhooks_module
  | WalletAddresses_module | Checkout_module | Dashboard_module | Blockchain_module

record module_metadata =
  md_global :: bool
  md_imports :: "module_class list"
  md_controllers :: "injectable list"
  md_providers :: "injectable list"
  md_exports :: "injectable list"

definition a_module :: module_metadata where
  "a_module = \<lparr>md_global = False, md_imports = [], md_controllers = [], md_providers = [], md_exports = []\<rparr>"

definition AppModule :: module_metadata where
  "AppModule = a_module
     \<lparr>md_imports := [Config_module, Database_module, Redis_module, Audit_module, Auth_module, Organizations_module,
        ApiKeys_module, Invoices_module, Payments_module, Webhooks_module, WalletAddresses_module,
        Checkout_module, Dashboard_module],
      md_controllers := [The_HealthController], md_providers := [The_APP_FILTER]\<rparr>"

definition ConfigModule :: module_metadata where
  "ConfigModule = a_module\<lparr>md_global := True, md_providers := [The_ENV], md_exports := [The_ENV]\<rparr>"

definition DatabaseModule :: module_metadata where
  "DatabaseModule = a_module
     \<lparr>md_global := True, md_providers := [The_PrismaService], md_exports := [The_PrismaService]\<rparr>"

definition RedisModule :: module_metadata where
  "RedisModule = a_module
     \<lparr>md_global := True, md_providers := [The_RedisService], md_exports := [The_RedisService]\<rparr>"

definition AuditModule :: module_metadata where
  "AuditModule = a_module
     \<lparr>md_global := True, md_providers := [The_AuditService], md_exports := [The_AuditService]\<rparr>"

definition AuthModule :: module_metadata where
  "AuthModule = a_module
     \<lparr>md_controllers := [The_AuthController],
      md_providers := [The_AuthService, The_AccessTokenService, The_RefreshTokenService,
        The_EmailVerificationService, The_TotpService],
      md_exports := [The_AccessTokenService, The_RefreshTokenService]\<rparr>"

definition OrganizationsModule :: module_metadata where
  "OrganizationsModule = a_module
     \<lparr>md_imports := [Auth_module], md_controllers := [The_OrganizationsController],
      md_providers := [The_OrganizationsService]\<rparr>"

definition ApiKeysModule :: module_metadata where
  "ApiKeysModule = a_module
     \<lparr>md_imports := [Auth_module], md_controllers := [The_ApiKeysController],
      md_providers := [The_ApiKeysService]\<rparr>"

definition InvoicesModule :: module_metadata where
  "InvoicesModule = a_module
     \<lparr>md_imports := [WalletAddresses_module], md_controllers := [The_InvoicesController],
      md_providers := [The_InvoicesService], md_exports := [The_InvoicesService]\<rparr>"

definition PaymentsModule :: module_metadata where
  "PaymentsModule = a_module
     \<lparr>md_imports := [Blockchain_module], md_controllers := [The_PaymentsController],
      md_providers := [The_PaymentsService], md_exports := [The_PaymentsService]\<rparr>"

definition WebhooksModule :: module_metadata where
  "WebhooksModule = a_module
     \<lparr>md_controllers := [The_WebhookEndpointsController],
      md_providers := [The_WebhookEndpointsService], md_exports := [The_WebhookEndpointsService]\<rparr>"

definition WalletAddressesModule :: module_metadata where
  "WalletAddressesModule = a_module
     \<lparr>md_imports := [Auth_module, Blockchain_module], md_controllers := [The_WalletAddressesController],
      md_providers := [The_WalletAddressesService], md_exports := [The_WalletAddressesService]\<rparr>"

definition CheckoutModule :: module_metadata where
  "CheckoutModule = a_module
     \<lparr>md_imports := [Payments_module], md_controllers := [The_CheckoutController],
      md_providers := [The_CheckoutService]\<rparr>"

definition DashboardModule :: module_metadata where
  "DashboardModule = a_module
     \<lparr>md_imports := [Auth_module, Invoices_module, Webhooks_module],
      md_controllers := [The_DashboardInvoicesController, The_DashboardWebhooksController]\<rparr>"

definition BlockchainModule :: module_metadata where
  "BlockchainModule = a_module
     \<lparr>md_providers := [The_BLOCKCHAIN_ADAPTER_REGISTRY, The_BlockchainAdapterRegistry],
      md_exports := [The_BlockchainAdapterRegistry]\<rparr>"

fun metadata :: "module_class \<Rightarrow> module_metadata" where
  "metadata App_module = AppModule"
| "metadata Config_module = ConfigModule"
| "metadata Database_module = DatabaseModule"
| "metadata Redis_module = RedisModule"
| "metadata Audit_module = AuditModule"
| "metadata Auth_module = AuthModule"
| "metadata Organizations_module = OrganizationsModule"
| "metadata ApiKeys_module = ApiKeysModule"
| "metadata Invoices_module = InvoicesModule"
| "metadata Payments_module = PaymentsModule"
| "metadata Webhooks_module = WebhooksModule"
| "metadata WalletAddresses_module = WalletAddressesModule"
| "metadata Checkout_module = CheckoutModule"
| "metadata Dashboard_module = DashboardModule"
| "metadata Blockchain_module = BlockchainModule"

lemmas module_defs = a_module_def AppModule_def ConfigModule_def DatabaseModule_def RedisModule_def AuditModule_def
  AuthModule_def OrganizationsModule_def ApiKeysModule_def InvoicesModule_def PaymentsModule_def WebhooksModule_def
  WalletAddressesModule_def CheckoutModule_def DashboardModule_def BlockchainModule_def

text \<open>The modules Nest loads from a root: the imports first, each module once. That no module imports
  itself, over others, is the termination.\<close>

fun import_depth :: "module_class \<Rightarrow> nat" where
  "import_depth App_module = 4"
| "import_depth Dashboard_module = 3"
| "import_depth Checkout_module = 3"
| "import_depth Invoices_module = 2"
| "import_depth Payments_module = 1"
| "import_depth WalletAddresses_module = 1"
| "import_depth Organizations_module = 1"
| "import_depth ApiKeys_module = 1"
| "import_depth _ = 0"

lemma imports_shallower: "n \<in> set (md_imports (metadata m)) \<Longrightarrow> import_depth n < import_depth m"
  by (cases m) (auto simp: module_defs)

function loaded :: "module_class \<Rightarrow> module_class list" where
  "loaded m = remdups (concat (map loaded (md_imports (metadata m))) @ [m])"
  by pat_completeness auto
termination
  by (relation "measure import_depth") (auto intro: imports_shallower)

section \<open>Injection\<close>

text \<open>Everything Nest builds in a module, and the module a token of an argument is taken from;
  \<open>None\<close> is the error that stops the start-up.\<close>

definition built_in :: "module_class \<Rightarrow> injectable list" where
  "built_in m =
     md_providers (metadata m) @ md_controllers (metadata m) @
     concat (map (\<lambda>c. guards (wiring_of c)) (md_controllers (metadata m)))"

definition supplier :: "module_class \<Rightarrow> module_class \<Rightarrow> injectable \<Rightarrow> module_class option" where
  "supplier start m d =
     (if d \<in> set (md_providers (metadata m)) then Some m
      else find (\<lambda>n. d \<in> set (md_exports (metadata n)))
        (md_imports (metadata m) @ filter (\<lambda>n. md_global (metadata n)) (loaded start)))"

definition injections :: "module_class \<Rightarrow> (injectable \<times> module_class option) list" where
  "injections start =
     concat (map (\<lambda>m. map (\<lambda>d. (d, supplier start m d))
       (filter (\<lambda>d. d \<noteq> The_Reflector) (concat (map (\<lambda>c. params (wiring_of c)) (built_in m))))) (loaded start))"

text \<open>The factories of \<open>ConfigModule\<close> and \<open>BlockchainModule\<close>.\<close>

definition ENV_factory ::
    "(string \<Rightarrow> bool) \<Rightarrow> (source \<Rightarrow> (string list \<times> string) list) \<Rightarrow> source \<Rightarrow> thrown + env" where
  "ENV_factory is_url issues src = fst (loadEnv is_url issues src None)"

definition BLOCKCHAIN_ADAPTER_REGISTRY_factory :: "env \<Rightarrow> millis \<Rightarrow> (string \<rightharpoonup> adapter_instance)" where
  "BLOCKCHAIN_ADAPTER_REGISTRY_factory e now =
     createBlockchainAdapterRegistry (env_BLOCKCHAIN_MODE (env_chain e)) (env_BLOCKCHAIN_BLOCK_TIME_MS (env_chain e)) now"

section \<open>The API can be built\<close>

text \<open>How deep the arguments of a constructor nest.\<close>

fun build_depth :: "injectable \<Rightarrow> nat" where
  "build_depth The_ENV = 0"
| "build_depth The_Reflector = 0"
| "build_depth The_PrismaService = 1"
| "build_depth The_RedisService = 1"
| "build_depth The_AccessTokenService = 1"
| "build_depth The_BLOCKCHAIN_ADAPTER_REGISTRY = 1"
| "build_depth The_TotpService = 1"
| "build_depth The_AuditService = 2"
| "build_depth The_RefreshTokenService = 2"
| "build_depth The_EmailVerificationService = 2"
| "build_depth The_BlockchainAdapterRegistry = 2"
| "build_depth The_WalletAddressesService = 3"
| "build_depth The_PaymentsService = 3"
| "build_depth The_CheckoutService = 3"
| "build_depth The_WebhookEndpointsService = 3"
| "build_depth The_OrganizationsService = 3"
| "build_depth The_ApiKeysService = 3"
| "build_depth The_AuthService = 3"
| "build_depth The_InvoicesService = 4"
| "build_depth _ = 5"

lemma arguments_shallower: "d \<in> set (params (wiring_of c)) \<Longrightarrow> build_depth d < build_depth c"
  by (cases c) (auto simp: wiring_defs)

lemma no_cycle: "wf {(d, c). d \<in> set (params (wiring_of c))}"
  by (rule wf_subset [OF wf_measure [of build_depth]]) (auto intro: arguments_shallower)

text \<open>Both services that look at the chain hold the same registry, so there is one simulated chain.\<close>

lemma one_registry:
  "supplier App_module Payments_module The_BlockchainAdapterRegistry = Some Blockchain_module"
  "supplier App_module WalletAddresses_module The_BlockchainAdapterRegistry = Some Blockchain_module"
  by code_simp+


end
