(* ===== verification/Payment_Journey.thy ===== *)
theory Payment_Journey
  imports Platform Webhook_Progress Confirm_Progress
begin

text \<open>
  A customer's payment from the chain to the merchant: the scan that sees the transfer, two
  confirmation passes, and a dispatch pass, on the database of the platform. Each part rests on
  what its own theory shows of one pass.
\<close>

section \<open>The scan sees the transfer\<close>

text \<open>The transfer \<open>t\<close> can only be meant for the invoice \<open>i\<close>, and of the transfers of the scan no
  other one goes to its address or is in its transaction.\<close>

definition same_target :: "token_transfer \<Rightarrow> token_transfer \<Rightarrow> bool" where
  "same_target t u \<longleftrightarrow>
     (tr_toAddress u, tr_network u, tr_token u) = (tr_toAddress t, tr_network t, tr_token t) \<or>
     (tr_network u, tr_txHash u) = (tr_network t, tr_txHash t)"

definition meant_for :: "token_transfer \<Rightarrow> invoice \<Rightarrow> store \<Rightarrow> bool" where
  "meant_for t i s \<longleftrightarrow> pending_candidates t s = [i] \<and> payment_of_tx (tr_network t) (tr_txHash t) s = None"

lemma meant_for_selected:
  assumes "meant_for t i s"
  shows "selectMatchingInvoice (pending_candidates t s) t = Some i" "i \<in> set (invoices s)" "inv_network i = tr_network t"
proof -
  have "selectMatchingInvoice (pending_candidates t s) t \<noteq> None"
    using assms no_selection [of t s] by (simp add: meant_for_def)
  then obtain j where j: "selectMatchingInvoice (pending_candidates t s) t = Some j" by blast
  have "j \<in> set (pending_candidates t s)" using selectMatchingInvoice_Some(1) [OF j] by simp
  then have "j = i" using assms by (simp add: meant_for_def)
  with j show "selectMatchingInvoice (pending_candidates t s) t = Some i" by simp
  from pending_candidates_selected(1,3) [OF this] show "i \<in> set (invoices s)" "inv_network i = tr_network t" by simp_all
qed

lemma filter_update_rows_idle:
  "\<forall>x \<in> set xs. Q x \<longrightarrow> \<not> P x \<and> \<not> P (f x) \<Longrightarrow> filter P (update_rows Q f xs) = filter P xs"
  by (induction xs) (auto simp: update_rows_def)

text \<open>Matching another transfer leaves it so.\<close>

lemma meant_for_after_other:
  assumes "meant_for t i s" and "distinct (map inv_id (invoices s))"
    and sel: "selectMatchingInvoice (pending_candidates u s) u = Some k" and "\<not> same_target t u"
  shows "meant_for t i (detect env u k s)"
proof -
  note k = pending_candidates_selected [OF sel]
  have i: "i \<in> set (pending_candidates t s)" using assms(1) by (simp add: meant_for_def)
  have row: "r = k" if "r \<in> set (invoices s)" "inv_id r = inv_id k" for r
    using distinct_key_unique [OF assms(2) that(1) k(1) that(2)] .
  have "\<not> (inv_paymentAddress k = tr_toAddress t \<and> inv_network k = tr_network t \<and> inv_token k = tr_token t)"
    using assms(4) k by (auto simp: same_target_def)
  with row have "pending_candidates t (detect env u k s) = pending_candidates t s"
    unfolding pending_candidates_def detect_def
    by (simp del: write_folds) (rule filter_update_rows_idle, auto)
  moreover have "payment_of_tx (tr_network t) (tr_txHash t) (detect env u k s) = None"
    using assms(1,4) k(3) by (auto simp: payment_of_tx_detect meant_for_def same_target_def)
  ultimately show ?thesis using assms(1) by (simp add: meant_for_def)
qed

lemma detect_rows:
  "map inv_id (invoices (detect env u k s)) = map inv_id (invoices s)"
  "set (payments s) \<subseteq> set (payments (detect env u k s))"
  by (auto simp: detect_def map_update_rows inv_moves_def)

lemma scan_loop_payments:
  "for_each (tryMatchTransfer env) ts s = (r, s') \<Longrightarrow> set (payments s) \<subseteq> set (payments s')"
proof (induction ts arbitrary: s)
  case (Cons u ts)
  have "set (payments s) \<subseteq> set (payments (snd (tryMatchTransfer env u s)))"
    by (cases rule: tryMatchTransfer_cases [of env u s]) (auto dest: subsetD [OF detect_rows(2)])
  with Cons show ?case by (fastforce simp: seq_def split: prod.splits sum.splits)
qed (simp add: ret_def)

lemma scan_loop_detects:
  assumes "meant_for t i s" and "distinct (map inv_id (invoices s))" and "t \<in> set ts"
    and "\<forall>u \<in> set ts. same_target t u \<longrightarrow> u = t" and "for_each (tryMatchTransfer env) ts s = (Inr (), s')"
  shows "detected_payment env t i \<in> set (payments s')"
  using assms
proof (induction ts arbitrary: s)
  case (Cons u ts)
  from Cons.prems(5) obtain v where v: "tryMatchTransfer env u s = (Inr (), v)" "for_each (tryMatchTransfer env) ts v = (Inr (), s')"
    by (auto simp: seq_eq_Inr)
  show ?case
  proof (cases "u = t")
    case True
    have "payment_of_tx (inv_network i) (tr_txHash t) s = None"
      using Cons.prems(1) meant_for_selected(3) by (simp add: meant_for_def)
    then have "v = detect env t i s"
      using v(1) meant_for_selected(1) [OF Cons.prems(1)] True by (simp add: tryMatchTransfer_eq split: if_splits)
    then have "detected_payment env t i \<in> set (payments v)" by (simp add: detect_def)
    then show ?thesis using scan_loop_payments [OF v(2)] by blast
  next
    case False
    then have other: "\<not> same_target t u" and t: "t \<in> set ts" and rest: "\<forall>u \<in> set ts. same_target t u \<longrightarrow> u = t"
      using Cons.prems(3,4) by auto
    have "meant_for t i v \<and> distinct (map inv_id (invoices v))"
      using v(1) Cons.prems(1,2) meant_for_after_other [OF Cons.prems(1,2) _ other]
      by (cases rule: tryMatchTransfer_cases [of env u s]) (auto simp: detect_rows(1))
    then show ?thesis using Cons.IH [of v] t rest v(2) by blast
  qed
qed simp

lemma scan_detects:
  assumes "meant_for t i s" and "distinct (map inv_id (invoices s))"
    and run: "runBlockchainScan env chain network s = (Inr (), s')"
    and range: "getLatestBlock chain = Inr latest" "scanned_to network s < latest"
      "getTokenTransfers chain (scanned_to network s + 1) latest = Inr ts"
    and t: "t \<in> set ts" "\<forall>u \<in> set ts. same_target t u \<longrightarrow> u = t"
  shows "detected_payment env t i \<in> set (payments s')"
proof -
  have tables: "invoices u = invoices s \<and> payments u = payments s" if "upsert_cursor network s = (r, u)" for r u
    using that by (auto simp: upsert_cursor_def create_row_def eff_defs split: option.splits if_splits)
  obtain u where up: "upsert_cursor network s = (Inr \<lparr>cur_network = network, cur_lastScannedBlock = scanned_to network s\<rparr>, u)"
    by (rule upsert_cursor_eq [of network s]) blast
  note run' = run [unfolded runBlockchainScan_def, unfolded seq_Inr [where m = "upsert_cursor network", OF up]]
  have "seq (for_each (tryMatchTransfer env) ts) (\<lambda>_. set_cursor network latest) u = (Inr (), s')"
    using run' range by simp
  then obtain v where v: "for_each (tryMatchTransfer env) ts u = (Inr (), v)" "set_cursor network latest v = (Inr (), s')"
    by (auto simp: seq_eq_Inr)
  have "meant_for t i u" "distinct (map inv_id (invoices u))"
    using assms(1,2) tables [OF up] by (simp_all add: meant_for_def pending_candidates_def payment_of_tx_def)
  then have "detected_payment env t i \<in> set (payments v)" by (rule scan_loop_detects [OF _ _ t v(1)])
  moreover have "payments s' = payments v"
    using v(2) by (auto simp: set_cursor_def update_row_def split: if_splits)
  ultimately show ?thesis by simp
qed

section \<open>Two confirmation passes settle the payment\<close>

lemma pass_confirming:
  assumes "pipeline_inv req s" and "runPaymentConfirm env chain req s = (Inr (), s')"
    and "p \<in> set (payments s)" "pay_status p = Pay_DETECTED" "pay_txHash p = Some h" "h \<noteq> []"
    and "getConfirmations chain h = Inr n"
  shows "pay_confirming n (pe_now env) p \<in> set (payments s')"
proof -
  have "next_row (pe_now env) chain req p = pay_confirming n (pe_now env) p"
    using assms(4-7) by (simp add: next_row_def is_active_def confirm_row_def)
  with confirm_pass_rows [OF assms(1,2)] assms(3) show ?thesis by (metis image_eqI list.set_map)
qed

lemma pass_finalizes:
  assumes "pipeline_inv req s" and "runPaymentConfirm env chain req s = (Inr (), s')"
    and "p \<in> set (payments s)" "pay_status p = Pay_CONFIRMING" "pay_txHash p = Some h" "h \<noteq> []"
    and "getConfirmations chain h = Inr n" "req \<le> n"
  shows "pay_finalized (final_payment_status (payment_outcome p)) n (pe_now env) p \<in> set (payments s')"
proof -
  have "next_row (pe_now env) chain req p = pay_finalized (final_payment_status (payment_outcome p)) n (pe_now env) p"
    using assms(4-8) by (simp add: next_row_def is_active_def confirm_row_def)
  with confirm_pass_rows [OF assms(1,2)] assms(3) show ?thesis by (metis image_eqI list.set_map)
qed

text \<open>The invoice and the event of a payment, by its status.\<close>

lemma invoice_of_payment:
  assumes "pipeline_inv req s" and "p \<in> set (payments s)"
  shows "\<exists>j. j \<in> set (invoices s) \<and> inv_id j = pay_invoiceId p \<and> inv_status j = invoice_status_of (pay_status p) \<and>
    inv_organizationId j = pay_organizationId p \<and>
    map evt_type (evts_of s (pay_invoiceId p)) = status_events (inv_status j) \<and>
    list_all (event_ok j [p]) (evts_of s (pay_invoiceId p))"
proof -
  obtain j where j: "inv_row s (pay_invoiceId p) = Some j" using pipeline_invD(4) [OF assms] ..
  note ok = payment_single_ok [OF assms(1) j payment_single [OF assms j]]
  show ?thesis using ok inv_rowD [OF j] by (auto simp: payment_ok_def)
qed

section \<open>The dispatch pass sends the event\<close>

lemma pair_row_pair: "delivery_pair (pair_row env ws key (ev, ep)) = (evt_id ev, we_id ep)"
  by (simp add: pair_row_def first_row_def first_outcome_def delivered_def undelivered_def measured_def new_delivery_def
      Let_def delivery_pair_def split: sum.splits option.splits)

lemma dispatch_reaches:
  assumes "pass_goes_through key x s" and "length (waiting s) \<le> 25"
    and "ev \<in> set (events s)" "\<not> has_delivery s (evt_id ev)" and "ep \<in> set (enabled_endpoints s ev)"
  shows "(evt_id ev, we_id ep) \<in> delivery_pair ` set (deliveries (after_pass key x s))"
    and "fst (attempt_made (snd x) key ev ep) = Some q \<Longrightarrow>
      ((evt_id ev, we_id ep), q) \<in> set (sent (after_pass key x s))"
proof -
  have "ev \<in> set (waiting s)" using assms(3,4) by (simp add: waiting_def)
  then have "ev \<in> set (dispatch_batch s)" using assms(2) by (simp add: dispatch_batch_waiting)
  then have pair: "(ev, ep) \<in> set (dispatch_pairs s)" using assms(5) by (auto simp: dispatch_pairs_def)
  note result = pass_result(2) [OF assms(1)]
  have "pair_row (fst x) (snd x) key (ev, ep) \<in> set (deliveries (after_pass key x s))"
    unfolding result using pair by simp
  then show "(evt_id ev, we_id ep) \<in> delivery_pair ` set (deliveries (after_pass key x s))"
    using pair_row_pair by (metis image_eqI)
  show "((evt_id ev, we_id ep), q) \<in> set (sent (after_pass key x s))" if "fst (attempt_made (snd x) key ev ep) = Some q"
  proof -
    have "((evt_id ev, we_id ep), q) \<in> set (pair_log (snd x) key (ev, ep))"
      using that by (simp add: pair_log_def log_request_def)
    then show ?thesis unfolding result using pair by auto
  qed
qed

section \<open>The whole way\<close>

text \<open>A job of the pipeline on the platform's database.\<close>

lemma on_outbox_runs:
  assumes "on_outbox m s = (r, s')"
  shows "m (store.truncate s) = (r, store.truncate s')" "s' = with_store s (store.truncate s')"
  using assms by (auto simp: on_outbox_def with_store_def store.defs outbox.defs split: prod.splits)

lemma pipeline_job_inv:
  assumes "platform_inv req s"
  shows "platform_inv req (with_store s (snd (runBlockchainScan env chain network (store.truncate s))))"
    and "platform_inv req (with_store s (snd (runPaymentConfirm env chain req (store.truncate s))))"
proof -
  have "moves req t (snd (runBlockchainScan env chain network t))" "moves req t (snd (runPaymentConfirm env chain req t))" for t
    using passes_grow unfolding obeys_def moves_def by (metis reachable.scans reachable.confirms surjective_pairing)+
  then show "platform_inv req (with_store s (snd (runBlockchainScan env chain network (store.truncate s))))"
    and "platform_inv req (with_store s (snd (runPaymentConfirm env chain req (store.truncate s))))"
    using moves_inv [OF assms] by blast+
qed

text \<open>The event of a payment that was not final before is new, so nothing was delivered for it.\<close>

lemma new_event_waits:
  assumes "platform_inv req s" and "platform_inv req s'" and "events s' = events s @ es" and "deliveries s' = deliveries s"
    and "evts_of (store.truncate s) k = []" and "ev \<in> set (events s')" "evt_invoiceId ev = k"
  shows "\<not> has_delivery s' (evt_id ev)"
proof
  assume "has_delivery s' (evt_id ev)"
  then obtain d where d: "d \<in> set (deliveries s)" "whd_eventId d = evt_id ev"
    using assms(4) by (auto simp: has_delivery_def list_ex_iff)
  then obtain ev' k' where "linked s ev' k'" "delivery_pair d = (evt_id ev', fst k')"
    using assms(1) by (auto simp: platform_inv_def outbox_linked_def)
  then have ev': "ev' \<in> set (events s)" "evt_id ev' = evt_id ev" using d(2) by (auto simp: linked_def delivery_pair_def)
  have "distinct (map evt_id (events s'))" using assms(2) by (simp add: platform_inv_def ids_distinct_def)
  then have "ev' = ev" using distinct_key_unique [of evt_id "events s'"] ev' assms(3,6) by auto
  with ev'(1) assms(7) have "ev \<in> set (evts_of (store.truncate s) k)" by (simp add: evts_of_def)
  with assms(5) show False by simp
qed

text \<open>A confirmation pass that nothing hinders: the chain answers, and the new identifiers are new.\<close>

definition unhindered :: "pass_env \<Rightarrow> chain_adapter \<Rightarrow> outbox \<Rightarrow> bool" where
  "unhindered env chain s \<longleftrightarrow>
     (\<forall>p \<in> set (payments s). is_active p \<longrightarrow> chain_answers chain p) \<and>
     inj_on (newId env ''evt'') (inv_id ` set (invoices s)) \<and>
     (\<forall>i \<in> set (invoices s). event_id_free env (inv_id i) (store.truncate s))"

definition confirmed_by :: "int \<Rightarrow> pass_env \<times> chain_adapter \<Rightarrow> outbox \<Rightarrow> outbox" where
  "confirmed_by req pass s = snd (on_outbox (runPaymentConfirm (fst pass) (snd pass) req) s)"

lemma unhindered_pass:
  assumes "platform_inv req s" and "unhindered (fst pass) (snd pass) s"
  shows "runPaymentConfirm (fst pass) (snd pass) req (store.truncate s) = (Inr (), store.truncate (confirmed_by req pass s))"
    and "on_outbox (runPaymentConfirm (fst pass) (snd pass) req) s = (Inr (), confirmed_by req pass s)"
    and "platform_inv req (confirmed_by req pass s)"
    and "\<exists>es. events (confirmed_by req pass s) = events s @ es" "deliveries (confirmed_by req pass s) = deliveries s"
proof -
  have inv: "pipeline_inv req (store.truncate s)" using assms(1) by (simp add: platform_inv_def reachable_inv)
  obtain t where t: "runPaymentConfirm (fst pass) (snd pass) req (store.truncate s) = (Inr (), t)"
    using confirm_pass_runs [OF inv, of "snd pass" "fst pass"] assms(2) by (auto simp: unhindered_def)
  then have after: "confirmed_by req pass s = with_store s t" by (simp add: confirmed_by_def on_outbox_store)
  show "runPaymentConfirm (fst pass) (snd pass) req (store.truncate s) = (Inr (), store.truncate (confirmed_by req pass s))"
    and "on_outbox (runPaymentConfirm (fst pass) (snd pass) req) s = (Inr (), confirmed_by req pass s)"
    by (simp_all add: t after) (simp add: on_outbox_def t with_store_def)
  show "platform_inv req (confirmed_by req pass s)"
    using pipeline_job_inv(2) [OF assms(1), of "fst pass" "snd pass"] by (simp add: after t)
  have "grows (store.truncate s) t"
    using passes_grow(2) [of "fst pass" "snd pass" req] t unfolding obeys_def by (metis snd_conv)
  then show "\<exists>es. events (confirmed_by req pass s) = events s @ es" "deliveries (confirmed_by req pass s) = deliveries s"
    by (simp_all add: grows_def after)
qed

lemma payment_settles:
  assumes inv: "platform_inv req s" and p: "p \<in> set (payments s)" "pay_status p = Pay_DETECTED" "pay_txHash p = Some h" "h \<noteq> []"
    and first: "unhindered (fst a) (snd a) s" "getConfirmations (snd a) h = Inr m"
    and second: "unhindered (fst b) (snd b) (confirmed_by req a s)" "getConfirmations (snd b) h = Inr n" "req \<le> n"
  defines "s' \<equiv> confirmed_by req b (confirmed_by req a s)"
  shows "\<exists>j ev. j \<in> set (invoices s') \<and> inv_id j = pay_invoiceId p \<and> inv_organizationId j = pay_organizationId p \<and>
    inv_status j = final_invoice_status (payment_outcome p) \<and> ev \<in> set (events s') \<and> evt_invoiceId ev = inv_id j \<and>
    [evt_type ev] = status_events (inv_status j) \<and> event_ok j [pay_finalized (final_payment_status (payment_outcome p)) n
      (pe_now (fst b)) (pay_confirming m (pe_now (fst a)) p)] ev \<and> \<not> has_delivery s' (evt_id ev)"
proof -
  let ?u = "confirmed_by req a s" and ?k = "pay_invoiceId p"
  let ?q = "pay_confirming m (pe_now (fst a)) p"
  let ?f = "pay_finalized (final_payment_status (payment_outcome p)) n (pe_now (fst b)) ?q"
  note run1 = unhindered_pass [OF inv first(1)]
  note run2 = unhindered_pass [OF run1(3) second(1), folded s'_def]
  have pinv: "pipeline_inv req (store.truncate x)" if "platform_inv req x" for x
    using that by (simp add: platform_inv_def reachable_inv)
  have q: "?q \<in> set (payments (store.truncate ?u))"
    using pass_confirming [OF pinv [OF inv] run1(1) _ p(2-4) first(2)] p(1) by simp
  have "payment_outcome ?q = payment_outcome p" by (simp add: payment_outcome_def pay_confirming_def)
  then have f: "?f \<in> set (payments (store.truncate s'))"
    using pass_finalizes [OF pinv [OF run1(3)] run2(1) q _ _ p(4) second(2,3)] p(3) by (simp add: pay_confirming_def)
  have keys: "pay_invoiceId ?q = ?k" "pay_status ?q = Pay_CONFIRMING" "pay_invoiceId ?f = ?k"
    "pay_organizationId ?f = pay_organizationId p" "pay_status ?f = final_payment_status (payment_outcome p)"
    by (simp_all add: pay_confirming_def pay_finalized_def)
  have none: "evts_of (store.truncate ?u) ?k = []" using invoice_of_payment [OF pinv [OF run1(3)] q] by (auto simp: keys)
  obtain j where j: "j \<in> set (invoices (store.truncate s'))" "inv_id j = ?k" "inv_organizationId j = pay_organizationId p"
    "inv_status j = invoice_status_of (final_payment_status (payment_outcome p))"
    "map evt_type (evts_of (store.truncate s') ?k) = status_events (inv_status j)"
    "list_all (event_ok j [?f]) (evts_of (store.truncate s') ?k)"
    using invoice_of_payment [OF pinv [OF run2(3)] f] unfolding keys by blast
  have st: "inv_status j = final_invoice_status (payment_outcome p)" "length (status_events (inv_status j)) = 1"
    using j(4) by (cases "payment_outcome p"; simp)+
  then obtain ev where ev: "evts_of (store.truncate s') ?k = [ev]"
    using j(5) by (metis length_Suc_conv length_map One_nat_def length_0_conv)
  then have "ev \<in> set (evts_of (store.truncate s') ?k)" by simp
  then have mem: "ev \<in> set (events s')" "evt_invoiceId ev = ?k" by (simp_all add: evts_of_def)
  obtain es where "events s' = events ?u @ es" using run2(4) by blast
  from new_event_waits [OF run1(3) run2(3) this run2(5) none mem] have "\<not> has_delivery s' (evt_id ev)" .
  then show ?thesis using j(1-3,5,6) st(1) ev mem by (intro exI [of _ j] exI [of _ ev]) simp
qed

text \<open>C3. A customer's payment reaches the merchant. From any state of the platform: when a scan
  returns that sees a transfer which only one pending invoice waits for, two confirmation passes
  follow in which the chain knows the transaction, with enough confirmations in the second, and
  then a dispatch pass with at most twenty-five events before it, then the passes return, the
  invoice has the final status its amount calls for, and every enabled endpoint of its
  organization has a delivery of that status' event, and was sent the request the attempt
  made, if it made one (the address was safe).\<close>

theorem payment_reaches_merchant:
  assumes plat: "platform req s" and meant: "meant_for t i (store.truncate s)" "tr_txHash t \<noteq> []"
    and scan: "on_outbox (runBlockchainScan env chain network) s = (Inr (), s1)"
    and range: "getLatestBlock chain = Inr latest" "scanned_to network (store.truncate s) < latest"
      "getTokenTransfers chain (scanned_to network (store.truncate s) + 1) latest = Inr ts"
      "t \<in> set ts" "\<forall>u \<in> set ts. same_target t u \<longrightarrow> u = t"
    and first: "unhindered (fst a) (snd a) s1" "getConfirmations (snd a) (tr_txHash t) = Inr m"
    and second: "unhindered (fst b) (snd b) (confirmed_by req a s1)" "getConfirmations (snd b) (tr_txHash t) = Inr n" "req \<le> n"
    and third: "pass_goes_through key x (confirmed_by req b (confirmed_by req a s1))"
      "length (waiting (confirmed_by req b (confirmed_by req a s1))) \<le> 25"
  shows "\<exists>s2 s3 s4 j ev.
    on_outbox (runPaymentConfirm (fst a) (snd a) req) s1 = (Inr (), s2) \<and>
    on_outbox (runPaymentConfirm (fst b) (snd b) req) s2 = (Inr (), s3) \<and>
    runWebhookDispatch (fst x) (snd x) key s3 = (Inr (), s4) \<and>
    j \<in> set (invoices s4) \<and> inv_id j = inv_id i \<and>
    inv_status j = final_invoice_status (evaluatePaymentAmount (inv_amount i) (tr_amount t)) \<and>
    ev \<in> set (events s4) \<and> evt_invoiceId ev = inv_id i \<and> [evt_type ev] = status_events (inv_status j) \<and>
    ed_tx_hash (evt_data ev) = Some (tr_txHash t) \<and> evt_organizationId ev = inv_organizationId i \<and>
    (\<forall>ep \<in> set (enabled_endpoints s4 ev). (evt_id ev, we_id ep) \<in> delivery_pair ` set (deliveries s4) \<and>
       (\<forall>q. fst (attempt_made (snd x) key ev ep) = Some q \<longrightarrow> ((evt_id ev, we_id ep), q) \<in> set (sent s4)))"
proof -
  let ?s2 = "confirmed_by req a s1" and ?s3 = "confirmed_by req b (confirmed_by req a s1)"
  let ?p = "detected_payment env t i"
  have inv: "platform_inv req s" by (rule platform_inv_holds [OF plat])
  note run = on_outbox_runs [OF scan]
  have inv1: "platform_inv req s1"
    using pipeline_job_inv(1) [OF inv, of env chain network] run by simp
  have "distinct (map inv_id (invoices (store.truncate s)))"
    using inv pipeline_invD(1) [OF reachable_inv, of req "store.truncate s"] by (simp add: platform_inv_def)
  from scan_detects [OF meant(1) this run(1) range] have p: "?p \<in> set (payments s1)" by simp
  have fields: "pay_status ?p = Pay_DETECTED" "pay_txHash ?p = Some (tr_txHash t)" "pay_invoiceId ?p = inv_id i"
    "pay_organizationId ?p = inv_organizationId i" "payment_outcome ?p = evaluatePaymentAmount (inv_amount i) (tr_amount t)"
    by (simp_all add: detected_payment_def payment_outcome_def)
  obtain j ev where j: "j \<in> set (invoices ?s3)" "inv_id j = inv_id i" "inv_organizationId j = inv_organizationId i"
    "inv_status j = final_invoice_status (evaluatePaymentAmount (inv_amount i) (tr_amount t))"
    and ev: "ev \<in> set (events ?s3)" "evt_invoiceId ev = inv_id j" "[evt_type ev] = status_events (inv_status j)"
      "event_ok j [pay_finalized (final_payment_status (payment_outcome ?p)) n (pe_now (fst b)) (pay_confirming m (pe_now (fst a)) ?p)] ev"
      "\<not> has_delivery ?s3 (evt_id ev)"
    using payment_settles [OF inv1 p fields(1,2) meant(2) first second] unfolding fields by blast
  note runs = unhindered_pass(2) [OF inv1 first(1)] unhindered_pass(2) [OF unhindered_pass(3) [OF inv1 first(1)] second(1)]
    pass_result(1) [OF third(1)]
  have same: "invoices (after_pass key x ?s3) = invoices ?s3" "events (after_pass key x ?s3) = events ?s3"
    "enabled_endpoints (after_pass key x ?s3) ev = enabled_endpoints ?s3 ev"
    by (simp_all add: pass_result(2) [OF third(1)] enabled_endpoints_def)
  have "ed_tx_hash (evt_data ev) = Some (tr_txHash t)" "evt_organizationId ev = inv_organizationId i"
    using ev(4) j(3) by (simp_all add: event_ok_def pay_finalized_def pay_confirming_def fields)
  then show ?thesis
    using runs j ev(1-3) dispatch_reaches [OF third ev(1,5)]
    by (intro exI [of _ ?s2] exI [of _ ?s3] exI [of _ "after_pass key x ?s3"] exI [of _ j] exI [of _ ev]) (simp add: same)
qed

text \<open>The sample payment on a platform with an endpoint of the merchant.\<close>

definition sample_start :: outbox where
  "sample_start = (sample_outbox [])\<lparr>invoices := [sample_invoice]\<rparr>"

lemma sample_start_reached: "platform 2 sample_start"
proof (rule platform.Deployed)
  show "reachable 2 (store.truncate sample_start)"
    by (rule reachable.other_tables [OF sample_reachable(1)])
      (simp_all add: sample_start_def sample_outbox_def sample_created_rows)
qed (simp_all add: sample_start_def sample_outbox_def ids_distinct_def)

theorem payment_reaches_merchant_witness:
  "\<exists>s1 s2 s3 s4 j q. on_outbox (runBlockchainScan Invoices.sample_env sample_adapter ''base'') sample_start = (Inr (), s1) \<and>
     on_outbox (runPaymentConfirm Invoices.sample_env sample_adapter 2) s1 = (Inr (), s2) \<and>
     on_outbox (runPaymentConfirm Invoices.sample_env sample_adapter 2) s2 = (Inr (), s3) \<and>
     runWebhookDispatch Webhook_System.sample_env (\<lambda>_ _. sample_world 200) sample_key s3 = (Inr (), s4) \<and>
     j \<in> set (invoices s4) \<and> inv_status j = Inv_PAID \<and> ((evt_id sample_paid_event, ''we_1''), q) \<in> set (sent s4)"
proof -
  let ?env = Invoices.sample_env and ?a = "(Invoices.sample_env, sample_adapter)" and ?ws = "\<lambda>_ _. sample_world 200"
  let ?x = "(Webhook_System.sample_env, ?ws)"
  define d1 where "d1 = detect ?env sample_transfer sample_invoice
    (store.truncate sample_start\<lparr>cursors := [\<lparr>cur_network = ''base'', cur_lastScannedBlock = 5\<rparr>]\<rparr>)"
  define s1 where "s1 = with_store sample_start d1"
  have start: "invoices sample_start = [sample_invoice]" "payments sample_start = []" "cursors (store.truncate sample_start) = []"
    "events sample_start = []" "deliveries sample_start = []" "endpoints sample_start = [sample_endpoint]"
    by (simp_all add: sample_start_def sample_outbox_def store.defs)
  have rows1: "invoices d1 = [inv_moves Inv_DETECTED 1000000 sample_invoice]" "payments d1 = [sample_payment]" "events d1 = []"
    "deliveries d1 = []" "endpoints d1 = [sample_endpoint]"
    by (simp_all add: d1_def detect_def start update_rows_def sample_payment_def sample_now)
  have scan: "on_outbox (runBlockchainScan ?env sample_adapter ''base'') sample_start = (Inr (), s1)"
    using sample_scan_step [of "store.truncate sample_start"] start
    by (simp add: on_outbox_def s1_def d1_def with_store_def)
  define d2 where "d2 = d1\<lparr>invoices := [inv_moves Inv_CONFIRMING 1000000 sample_invoice],
    payments := [pay_confirming 3 1000000 sample_payment]\<rparr>"
  have s2: "confirmed_by 2 ?a s1 = with_store s1 d2"
    using sample_confirming_step [OF rows1(1,2)] by (simp add: confirmed_by_def on_outbox_store s1_def d2_def)
  define d3 where "d3 = d2\<lparr>invoices := [inv_finalized Inv_PAID 1000000 sample_invoice],
        payments := [pay_finalized Pay_CONFIRMED 3 1000000 sample_payment], events := [sample_paid_event]\<rparr>"
  have s3: "confirmed_by 2 ?a (with_store s1 d2) = with_store (with_store s1 d2) d3"
    using sample_paid_step [of d2] by (simp add: confirmed_by_def on_outbox_store d2_def d3_def rows1 sample_paid_event_def)
  have ready: "unhindered (fst ?a) (snd ?a) s1" "unhindered (fst ?a) (snd ?a) (with_store s1 d2)"
    by (simp_all add: unhindered_def s1_def d2_def rows1 chain_answers_def sample_adapter_def event_id_free_def)
  let ?s3 = "with_store (with_store s1 d2) d3"
  have org: "evt_organizationId sample_paid_event = ''org_1''"
    by (simp add: sample_paid_event_def event_for_def inv_moves_def)
  have heard: "enabled_endpoints ?s3 sample_paid_event = [sample_endpoint]"
    by (simp add: enabled_endpoints_def d3_def d2_def rows1 org) (simp add: sample_endpoint_def)
  have waits: "waiting ?s3 = [sample_paid_event]" by (simp add: waiting_def has_delivery_def d3_def d2_def rows1)
  then have pairs: "dispatch_pairs ?s3 = [(sample_paid_event, sample_endpoint)]"
    by (simp add: dispatch_pairs_def dispatch_batch_waiting heard)
  obtain q where q: "fst (attempt_made ?ws sample_key sample_paid_event sample_endpoint) = Some q" using sample_attempt by blast
  then have "attempt_returns ?ws sample_key (sample_paid_event, sample_endpoint)"
    using thrown_sends_nothing [of ?ws sample_key sample_paid_event sample_endpoint]
    by (cases "attempt_made ?ws sample_key sample_paid_event sample_endpoint"; cases "snd (attempt_made ?ws sample_key sample_paid_event sample_endpoint)")
      (auto simp: attempt_returns_def)
  moreover have "deliveries ?s3 = []" by (simp add: d3_def d2_def rows1)
  ultimately have through: "pass_goes_through sample_key ?x ?s3" by (simp add: pass_goes_through_def pairs)
  have meant: "meant_for sample_transfer sample_invoice (store.truncate sample_start)"
    by (simp add: meant_for_def pending_candidates_def payment_of_tx_def start sample_transfer_def)
  have hash: "tr_txHash sample_transfer = ''0x1''" by (simp add: sample_transfer_def)
  have chain: "getLatestBlock sample_adapter = Inr 5" "getTokenTransfers sample_adapter f l = Inr [sample_transfer]"
    "getConfirmations sample_adapter h = Inr 3" for f l h by (simp_all add: sample_adapter_def)
  have behind: "scanned_to ''base'' (store.truncate sample_start) < 5" by (simp add: scanned_to_def cursor_of_def start)
  have "length (waiting ?s3) \<le> 25" by (simp add: waits)
  note last = through this
  note journey = payment_reaches_merchant [where req = 2 and s = sample_start and t = sample_transfer and i = sample_invoice
      and env = ?env and chain = sample_adapter and network = "''base''" and ?s1.0 = s1 and latest = 5 and ts = "[sample_transfer]"
      and a = ?a and b = ?a and m = 3 and n = 3 and key = sample_key and x = ?x, unfolded s2 s3 fst_conv snd_conv]
  obtain s2 s3 s4 j ev where run:
      "on_outbox (runPaymentConfirm ?env sample_adapter 2) s1 = (Inr (), s2)"
      "on_outbox (runPaymentConfirm ?env sample_adapter 2) s2 = (Inr (), s3)"
      "runWebhookDispatch (fst ?x) ?ws sample_key s3 = (Inr (), s4)" "j \<in> set (invoices s4)"
    and status: "inv_status j = final_invoice_status (evaluatePaymentAmount (inv_amount sample_invoice) (tr_amount sample_transfer))"
    and ev: "ev \<in> set (events s4)"
      "\<forall>ep \<in> set (enabled_endpoints s4 ev). \<forall>q. fst (attempt_made ?ws sample_key ev ep) = Some q \<longrightarrow>
         ((evt_id ev, we_id ep), q) \<in> set (sent s4)"
    using journey [OF sample_start_reached meant _ scan chain(1) behind chain(2) _ _ _ chain(3) _ chain(3) _ last] ready
    by (auto simp: hash)
  have "s2 = with_store s1 d2" "s3 = ?s3"
    using run(1,2) s2 s3 by (simp_all add: confirmed_by_def)
  then have s4: "s4 = after_pass sample_key ?x ?s3" using run(3) by (simp add: after_pass_def)
  have "events s4 = events ?s3" "enabled_endpoints s4 sample_paid_event = enabled_endpoints ?s3 sample_paid_event"
    unfolding s4 pass_result(2) [OF through] by (simp_all add: enabled_endpoints_def)
  then have rows4: "events s4 = [sample_paid_event]" "enabled_endpoints s4 sample_paid_event = [sample_endpoint]"
    using heard by (simp_all add: d3_def)
  have "evaluatePaymentAmount (inv_amount sample_invoice) (tr_amount sample_transfer) = Exact"
    by (simp add: evaluatePaymentAmount_def comparedTo_def sample_transfer_def)
  then have "inv_status j = Inv_PAID" using status by simp
  moreover have "we_id sample_endpoint = ''we_1''" by (simp add: sample_endpoint_def)
  then have "((evt_id sample_paid_event, ''we_1''), q) \<in> set (sent s4)" using ev rows4 q by auto
  ultimately show ?thesis using scan run by auto
qed

end
