(* ===== verification/Spec2Isabelle.thy ===== *)
theory Spec2Isabelle
  imports Interleaving Platform Web_Rows Api_Main Account_Life Webhook_Progress Confidential Wiring
    Payment_Journey
begin

text \<open>
  CryptoPay: a model of the payment platform and its correctness.

  \<^bold>\<open>The program.\<close> Merchants create invoices through an HTTP API
  (\<open>apps/api\<close>) and customers pay them on a blockchain. A worker (\<open>apps/worker\<close>) scans the
  chain for transfers, matches them to invoices, waits for confirmations and settles the
  invoice; every final status becomes a webhook event, which two further queues of the worker
  deliver to the merchant's endpoints. With the simulated chain the API runs the same pipeline
  itself. A web application (\<open>apps/web\<close>) is the merchant's dashboard and the customer's
  checkout page. All processes meet in one PostgreSQL database; the rate limiter keeps its
  counters in Redis.

  \<^bold>\<open>The theories\<close>, in the order they build on each other:

  \<^item> \<open>Prelude\<close>: effects (state passing with exceptions, writes before an exception stay), tables
    as lists of rows, string helpers. \<open>App_Errors\<close>, \<open>Shared_Ids\<close>, \<open>Js_Text\<close>:
    \<open>packages/shared\<close>, the exception filter, JavaScript's text conversions.
  \<^item> \<open>Status_Machines\<close>, \<open>Payment_Rules\<close>: \<open>packages/payments\<close>. \<open>Store\<close>: one record per model of
    \<open>packages/database/prisma/schema.prisma\<close>. \<open>Chain\<close>: \<open>packages/blockchain\<close>.
  \<^item> \<open>Payment_Detect\<close>, \<open>Payment_Confirm\<close>: the worker's scan and confirmation passes.
    \<open>Pipeline\<close> is their contract: the locale of a pipeline step, the invariant of the store, the
    abstract life of an invoice. \<open>Worker_Pipeline\<close> interprets it on the passes,
    \<open>Api_Payments\<close> on the API's copy of the pipeline (\<open>payments.service.ts\<close>).
  \<^item> \<open>Validation\<close>, \<open>Invoices\<close>: \<open>packages/validation\<close>, invoices, deposit addresses, the audit
    trail, the merchant's and the customer's view. \<open>Payment_System\<close>: the stores that invoices and
    passes can reach. \<open>Worker_Progress\<close>, \<open>Confirm_Progress\<close>: what a pass achieves.
    \<open>Interleaving\<close>: two passes that overlap.
  \<^item> \<open>Crypto\<close>, \<open>Ssrf_Guard\<close>, \<open>Webhook_Delivery\<close>: \<open>packages/crypto\<close> and \<open>packages/webhooks\<close>.
    \<open>Webhook_Queues\<close>: the dispatch and retry passes; \<open>Webhook_System\<close>: their reachable states;
    \<open>Webhook_Progress\<close>: what dispatch passes achieve; \<open>Webhook_Endpoints\<close>: managing endpoints.
  \<^item> \<open>Guards\<close>, \<open>Rate_Limit\<close>, \<open>Auth_Tokens\<close>, \<open>Auth_Service\<close>, \<open>Organizations\<close>, \<open>Api_Keys\<close>, \<open>Cookies\<close>:
    the guards, the rate limiter, sessions, accounts, organizations and keys of the API.
    \<open>Account_Life\<close>: an account from registration to its first session, and its second factor.
  \<^item> \<open>Controllers\<close>, \<open>Http_Api\<close>: every route with its guards, schema, service and view, and the API
    as one function of a call. \<open>Tenants\<close>: the isolation of organizations, with a locale for the
    tables an organization owns rows of, interpreted on each table. \<open>Confidential\<close>: what a reading
    route can tell. \<open>Routes\<close>: from method, path, query and body to a call.
  \<^item> \<open>Frames\<close>: a locale for relations that every step keeps, with the rules for composed
    operations. \<open>Service_Frames\<close>, \<open>Webhook_Frames\<close> interpret it on the services and on the webhook
    passes; \<open>Platform\<close> puts API, tick and worker together; \<open>Payment_Journey\<close> follows one payment
    through their passes.
  \<^item> \<open>Env_Config\<close>, \<open>Logging\<close>: \<open>packages/config\<close> and \<open>packages/logger\<close>. \<open>Worker_Main\<close>: the queues,
    jobs, start and shutdown of \<open>apps/worker/src/main.ts\<close>. \<open>Api_Main\<close>: those of \<open>apps/api\<close>.
    \<open>Wiring\<close>: the modules of \<open>apps/api\<close>, what they provide and import, the arguments of every
    constructor and the guards of every controller.
  \<^item> \<open>Web_Client\<close>: the two HTTP clients, polling, countdown and the checkout screens of \<open>apps/web\<close>.
    \<open>Web_Pages\<close>: the calls of the hooks, the sign-in forms, paging. \<open>Web_Panels\<close>: the states the
    pages keep (panels, secrets, toasts, settings). \<open>Web_Rows\<close>: rows, buttons, member list,
    drop-down list, locales. \<open>Web_Api\<close>: the web application on the routes of the API.

  \<^bold>\<open>What is proved.\<close>

  \<^item> Money: a final status rests on one payment of the right amount with enough confirmations;
    payments are unique per transaction and invoice; passes never change an invoice's terms; a
    payment fails only after the grace period; a simulated transfer is never skipped.
  \<^item> End to end: in every state of the platform, a request sent for a final status tells of an
    invoice of the endpoint's organization that has this status and rests on its payment; a
    customer's payment reaches the merchant, by one scan, two confirmation passes and one
    dispatch pass in which the chain, the cipher and the database answer.
  \<^item> Progress: what a confirmation pass does to every row, that it returns and settles, that a
    scan loses no transfer and repeats nothing.
  \<^item> Refinement: worker passes and the API's tick move invoices along one abstract life, also
    when they throw; the API's copies compute what the worker computes.
  \<^item> Webhooks: exactly one event per final status; one delivery per event and endpoint, seven
    requests at most, settled deliveries stay; dispatch passes drain the events that have
    listeners, oldest first; a request leaves for a public HTTPS address only, with a signature
    that binds body and time and that the secret shown to the merchant verifies.
  \<^item> Access: a changing dashboard route needs a session, a role and the CSRF value; a key opens
    what its scopes allow until it is revoked; a login was entitled, five wrong passwords lock; a
    used refresh token ends its session; the mailed token verifies an address once and in time;
    a confirmed second factor is asked for; organizations neither touch nor see each other.
  \<^item> The client: every call takes the one route it means, and no request has two; after a login
    its requests pass the guards and are served for the caller's organization; Next shows every
    invoice once; the checkout page stops polling only when nothing changes any more.
  \<^item> The processes: every constructor of the API gets each of its arguments from exactly one module
    it can see, and none needs itself; they start with a sound configuration only; exactly one runs
    the payment pipeline in each mode; the first signal closes everything once, in an order that
    lets running jobs end.
  \<^item> Limits of the code: an expiry decided on a stale read strands a payment; two overlapping
    refreshes fork a session; events nobody listens to starve the dispatch queue; an invitation
    locks the dashboard of an account that has an organization already; the scanner compares
    addresses by spelling.

  \<^bold>\<open>How the code is read.\<close>

  \<^item> A pass of a queue or a request is one function on the state; it reads the clock once
    (\<open>pe_now\<close>), and its random bytes and new identifiers come from the argument \<open>pass_env\<close>. The
    statements hold for all of them. Overlapping passes are studied where it matters
    (\<open>Interleaving\<close>, \<open>parallel_refresh_forks_session\<close>).
  \<^item> A transaction is all or nothing; everything else stays written when a later step throws.
    Unique constraints make a creation throw, as Prisma does.
  \<^item> Third-party code is a parameter: viem, jose, argon2, otpauth, HMAC-SHA256, AES-GCM, DNS and
    \<open>fetch\<close>, zod's e-mail and URL checks and its issues, URL parsing, Prisma's decimal printing.
    What the code relies on of them is a named hypothesis (\<open>jwt_documented\<close>,
    \<open>hmac_documented\<close>, \<open>aead_documented\<close>, \<open>argon_documented\<close>), shown satisfiable by an instance.
  \<^item> Decimals are exact rationals, integers unbounded; times are milliseconds. Strings are lists
    of characters of one byte; the dash in one guard's message is written as a hyphen, the
    ellipsis of the truncated texts as three dots. \<open>JSON.parse\<close> inverts \<open>JSON.stringify\<close>, and
    identifiers need no percent-encoding.
  \<^item> Rows are kept in the order of their insertion; a query sorted by time leaves rows of one
    instant in that order.
  \<^item> What the processes do to connections, queues and timers is a list of actions; \<open>accepts\<close> says
    which of them the libraries carry out.
  \<^item> Redis is a map from keys to counters with an expiry; the browser's cookie jar knows names,
    paths and \<open>httpOnly\<close>, one site, and no expiry.
  \<^item> Log calls are left out.

  \<^bold>\<open>Bounds.\<close> The slug search tries five random suffixes, as the code does; a webhook pass takes
  25 rows; there is no fuel anywhere else: every loop is a recursion over a list, and the
  classification of IPv4-mapped addresses recurs on a shorter string.

  \<^bold>\<open>Not modelled.\<close> Markup and styling of the web pages, translated texts and the query cache
  (React, next-intl and the query library interpret them); Nest's life cycle (its resolution of
  constructor arguments is the documented rule), Swagger; BullMQ's scheduling and job storage;
  the clients of PostgreSQL and Redis; the layouts and providers of the web application; tests.
  The admin roles, the organization statuses and the idempotency table are declared in the source and used
  nowhere.
\<close>

end
